theory Spec2Isabelle
  imports Main "HOL-Library.Word"
begin

unbundle bit_operations_syntax

section \<open>JavaScript values\<close>

text \<open>
  A JavaScript string is a sequence of UTF-16 code units, a \<open>Uint8Array\<close> a sequence of
  bytes. \<open>js\<close> turns an ASCII literal into the code units of the same JavaScript literal.
  A thrown \<open>Error\<close> is a value carrying its message.
\<close>

type_synonym jsstring = "16 word list"
type_synonym bytes = "8 word list"

definition js :: "string \<Rightarrow> jsstring" where
  "js s = map of_char s"

datatype exn = Error (message: jsstring)

text \<open>\<open>a || b\<close> on strings: the empty string is the only falsy string.\<close>

definition orElse :: "jsstring \<Rightarrow> jsstring \<Rightarrow> jsstring" where
  "orElse a b = (if a \<noteq> [] then a else b)"

text \<open>
  A value of type \<open>string | undefined\<close> is truthy when it is defined and not empty;
  \<open>a || b\<close> with an optional left operand.
\<close>

definition truthy :: "jsstring option \<Rightarrow> bool" where
  "truthy v \<longleftrightarrow> (case v of None \<Rightarrow> False | Some s \<Rightarrow> s \<noteq> [])"

definition optOrElse :: "jsstring option \<Rightarrow> jsstring \<Rightarrow> jsstring" where
  "optOrElse a b = (case a of None \<Rightarrow> b | Some s \<Rightarrow> orElse s b)"

definition startsWith :: "jsstring \<Rightarrow> jsstring \<Rightarrow> bool" where
  "startsWith s p \<longleftrightarrow> take (length p) s = p"

definition endsWith :: "jsstring \<Rightarrow> jsstring \<Rightarrow> bool" where
  "endsWith s p \<longleftrightarrow> length p \<le> length s \<and> drop (length s - length p) s = p"

text \<open>\<open>s.split(sep)\<close> for a separator of one code unit: never the empty array.\<close>

fun splitOn :: "16 word \<Rightarrow> jsstring \<Rightarrow> jsstring list" where
  "splitOn sep [] = [[]]"
| "splitOn sep (c # cs) =
     (if c = sep then [] # splitOn sep cs
      else (case splitOn sep cs of [] \<Rightarrow> [[c]] | p # ps \<Rightarrow> (c # p) # ps))"

text \<open>
  \<open>String.prototype.trim\<close> removes white space and line terminators of ECMAScript from
  both ends.
\<close>

definition isWhiteSpace :: "16 word \<Rightarrow> bool" where
  "isWhiteSpace c \<longleftrightarrow>
     (0x0009 \<le> c \<and> c \<le> 0x000D) \<or> c = 0x0020 \<or> c = 0x00A0 \<or> c = 0x1680 \<or>
     (0x2000 \<le> c \<and> c \<le> 0x200A) \<or> c = 0x2028 \<or> c = 0x2029 \<or> c = 0x202F \<or>
     c = 0x205F \<or> c = 0x3000 \<or> c = 0xFEFF"

definition trim :: "jsstring \<Rightarrow> jsstring" where
  "trim s = rev (dropWhile isWhiteSpace (rev (dropWhile isWhiteSpace s)))"

text \<open>
  \<open>toLowerCase\<close>, on the letters \<open>A\<close> to \<open>Z\<close>. The program lowers a file name only to
  test it for one of the suffixes \<open>.epub .pdf .mobi .azw3 .azw\<close>; no character outside
  ASCII has a lower-case form that ends in one of their code units, so the test has the
  same outcome as with the full Unicode mapping.
\<close>

definition toLowerCase :: "jsstring \<Rightarrow> jsstring" where
  "toLowerCase s = map (\<lambda>c. if 0x41 \<le> c \<and> c \<le> 0x5A then c + 0x20 else c) s"

text \<open>The decimal digits of a number in a template literal.\<close>

function numberToString :: "nat \<Rightarrow> jsstring" where
  "numberToString n =
     (if n < 10 then [of_nat (48 + n)] else numberToString (n div 10) @ [of_nat (48 + n mod 10)])"
  by pat_completeness auto
termination
  by (relation "measure (\<lambda>n. n)") auto

declare numberToString.simps [simp del]

section \<open>The Encoding standard: \<open>TextEncoder\<close> and \<open>TextDecoder\<close>\<close>

text \<open>
  \<open>new TextEncoder().encode(s)\<close> first reads the code units as scalar values, a surrogate
  pair as one supplementary code point and a lone surrogate as U+FFFD, and then writes each
  scalar value in UTF-8.
\<close>

definition isHighSurrogate :: "16 word \<Rightarrow> bool" where
  "isHighSurrogate u \<longleftrightarrow> 0xD800 \<le> u \<and> u \<le> 0xDBFF"

definition isLowSurrogate :: "16 word \<Rightarrow> bool" where
  "isLowSurrogate u \<longleftrightarrow> 0xDC00 \<le> u \<and> u \<le> 0xDFFF"

fun toScalars :: "jsstring \<Rightarrow> nat list" where
  "toScalars [] = []"
| "toScalars [u] = [if isHighSurrogate u \<or> isLowSurrogate u then 0xFFFD else unat u]"
| "toScalars (u # l # rest) =
     (if isHighSurrogate u \<and> isLowSurrogate l
      then (0x10000 + (unat u - 0xD800) * 0x400 + (unat l - 0xDC00)) # toScalars rest
      else if isHighSurrogate u \<or> isLowSurrogate u then 0xFFFD # toScalars (l # rest)
      else unat u # toScalars (l # rest))"

definition utf8Bytes :: "nat \<Rightarrow> bytes" where
  "utf8Bytes c =
     (if c < 0x80 then [of_nat c]
      else if c < 0x800 then [of_nat (0xC0 + c div 64), of_nat (0x80 + c mod 64)]
      else if c < 0x10000 then
        [of_nat (0xE0 + c div 4096), of_nat (0x80 + c div 64 mod 64), of_nat (0x80 + c mod 64)]
      else
        [of_nat (0xF0 + c div 262144), of_nat (0x80 + c div 4096 mod 64),
         of_nat (0x80 + c div 64 mod 64), of_nat (0x80 + c mod 64)])"

definition utf8Encode :: "nat list \<Rightarrow> bytes" where
  "utf8Encode cs = concat (map utf8Bytes cs)"

definition encode :: "jsstring \<Rightarrow> bytes" where
  "encode s = utf8Encode (toScalars s)"

text \<open>
  The UTF-8 decoder of the standard, a state machine over the bytes: the code point under
  construction, the bytes seen and needed, and the bounds allowed for the next byte. An
  error emits U+FFFD (a \<open>TextDecoder\<close> made with no options is not fatal), and a byte that
  is out of bounds is read again from the initial state.
\<close>

record decoderState =
  codePoint :: nat
  bytesSeen :: nat
  bytesNeeded :: nat
  lowerBoundary :: nat
  upperBoundary :: nat

definition initialState :: decoderState where
  "initialState =
     \<lparr> codePoint = 0, bytesSeen = 0, bytesNeeded = 0, lowerBoundary = 0x80, upperBoundary = 0xBF \<rparr>"

text \<open>The handler when no byte is needed: what is emitted, and the next state.\<close>

definition leadByte :: "nat \<Rightarrow> nat list \<times> decoderState" where
  "leadByte b =
     (if b \<le> 0x7F then ([b], initialState)
      else if 0xC2 \<le> b \<and> b \<le> 0xDF then
        ([], initialState \<lparr> bytesNeeded := 1, codePoint := b mod 32 \<rparr>)
      else if 0xE0 \<le> b \<and> b \<le> 0xEF then
        ([], initialState \<lparr> bytesNeeded := 2, codePoint := b mod 16,
               lowerBoundary := (if b = 0xE0 then 0xA0 else 0x80),
               upperBoundary := (if b = 0xED then 0x9F else 0xBF) \<rparr>)
      else if 0xF0 \<le> b \<and> b \<le> 0xF4 then
        ([], initialState \<lparr> bytesNeeded := 3, codePoint := b mod 8,
               lowerBoundary := (if b = 0xF0 then 0x90 else 0x80),
               upperBoundary := (if b = 0xF4 then 0x8F else 0xBF) \<rparr>)
      else ([0xFFFD], initialState))"

fun utf8Decode :: "decoderState \<Rightarrow> nat list \<Rightarrow> nat list" where
  "utf8Decode st [] = (if bytesNeeded st \<noteq> 0 then [0xFFFD] else [])"
| "utf8Decode st (b # bs) =
     (if bytesNeeded st = 0 then fst (leadByte b) @ utf8Decode (snd (leadByte b)) bs
      else if b < lowerBoundary st \<or> upperBoundary st < b then
        0xFFFD # fst (leadByte b) @ utf8Decode (snd (leadByte b)) bs
      else if Suc (bytesSeen st) \<noteq> bytesNeeded st then
        utf8Decode (st \<lparr> codePoint := codePoint st * 64 + b mod 64, bytesSeen := Suc (bytesSeen st),
                          lowerBoundary := 0x80, upperBoundary := 0xBF \<rparr>) bs
      else (codePoint st * 64 + b mod 64) # utf8Decode initialState bs)"

text \<open>Scalar values back to code units: a surrogate pair above the basic plane.\<close>

definition codeUnits :: "nat \<Rightarrow> jsstring" where
  "codeUnits c =
     (if c < 0x10000 then [of_nat c]
      else [of_nat (0xD800 + (c - 0x10000) div 0x400), of_nat (0xDC00 + (c - 0x10000) mod 0x400)])"

definition fromScalars :: "nat list \<Rightarrow> jsstring" where
  "fromScalars cs = concat (map codeUnits cs)"

text \<open>
  \<open>new TextDecoder().decode(bytes)\<close>: UTF-8, not fatal, and the byte order mark is not
  ignored, so a leading U+FEFF is dropped from the output.
\<close>

definition stripBOM :: "nat list \<Rightarrow> nat list" where
  "stripBOM cs = (case cs of [] \<Rightarrow> [] | c # rest \<Rightarrow> if c = 0xFEFF then rest else cs)"

definition decode :: "bytes \<Rightarrow> jsstring" where
  "decode bs = fromScalars (stripBOM (utf8Decode initialState (map unat bs)))"

section \<open>services/drive.ts: the property codec and the name helpers\<close>


definition APP_TYPE_VALUE :: jsstring where
  "APP_TYPE_VALUE = js ''my_library_book''"

definition PROPERTY_MAX_BYTES :: int where
  "PROPERTY_MAX_BYTES = 124"

text \<open>
  The \<open>while\<close> loop of \<open>truncateToBytes\<close>. Reading a typed array past its end gives
  \<open>undefined\<close>, and \<open>undefined & 0xC0\<close> is \<open>0\<close>, so the loop stops there.
\<close>

definition isContinuation :: "bytes \<Rightarrow> nat \<Rightarrow> bool" where
  "isContinuation encoded i \<longleftrightarrow> i < length encoded \<and> (encoded ! i) AND 0xC0 = 0x80"

fun walkBack :: "bytes \<Rightarrow> nat \<Rightarrow> nat" where
  "walkBack encoded 0 = 0"
| "walkBack encoded (Suc e) =
     (if isContinuation encoded (Suc e) then walkBack encoded e else Suc e)"

definition truncateToBytes :: "jsstring \<Rightarrow> nat \<Rightarrow> jsstring" where
  "truncateToBytes str maxBytes =
     (let encoded = encode str in
      if length encoded \<le> maxBytes then str
      else decode (take (walkBack encoded maxBytes) encoded))"

text \<open>
  A \<open>Record<string, string>\<close> is a list of entries in insertion order with distinct keys;
  assigning to a key that is present replaces its value in place. A \<open>Map\<close> behaves the
  same way, and \<open>propDelete\<close> is its \<open>delete\<close>.
\<close>

type_synonym props = "(jsstring \<times> jsstring) list"

definition propGet :: "('k \<times> 'v) list \<Rightarrow> 'k \<Rightarrow> 'v option" where
  "propGet ps k = map_of ps k"

fun propSet :: "('k \<times> 'v) list \<Rightarrow> 'k \<Rightarrow> 'v \<Rightarrow> ('k \<times> 'v) list" where
  "propSet [] k v = [(k, v)]"
| "propSet ((k', v') # ps) k v = (if k' = k then (k, v) # ps else (k', v') # propSet ps k v)"

definition propDelete :: "('k \<times> 'v) list \<Rightarrow> 'k \<Rightarrow> ('k \<times> 'v) list" where
  "propDelete ps k = filter (\<lambda>(k', v). k' \<noteq> k) ps"

text \<open>The spread \<open>{...a, ...b}\<close>.\<close>

definition spread :: "props \<Rightarrow> props \<Rightarrow> props" where
  "spread a b = fold (\<lambda>(k, v) acc. propSet acc k v) b a"

definition maxValueBytes :: "jsstring \<Rightarrow> nat" where
  "maxValueBytes key = nat (max 0 (PROPERTY_MAX_BYTES - int (length (encode key))))"

definition sanitizeProperties :: "props \<Rightarrow> props" where
  "sanitizeProperties properties =
     fold (\<lambda>(key, value) result. propSet result key (truncateToBytes value (maxValueBytes key)))
       properties []"

definition formatFileName :: "jsstring \<Rightarrow> jsstring \<Rightarrow> jsstring \<Rightarrow> jsstring" where
  "formatFileName authors0 title0 extension =
     js ''['' @ authors0 @ js ''] '' @ title0 @ js ''.'' @ extension"

definition getFirstAuthor :: "jsstring \<Rightarrow> jsstring" where
  "getFirstAuthor authors0 = trim (hd (splitOn 0x2D authors0))"

definition getExtension :: "jsstring \<Rightarrow> jsstring" where
  "getExtension mimeType0 =
     (if mimeType0 = js ''application/epub+zip'' then js ''epub''
      else if mimeType0 = js ''application/pdf'' then js ''pdf''
      else last (splitOn 0x2F mimeType0))"

section \<open>types.ts\<close>

record BookMetadata =
  isbn :: jsstring
  title :: jsstring
  authors :: jsstring
  publisher :: jsstring
  publishedDate :: jsstring
  description :: jsstring
  coverImageUrl :: jsstring

text \<open>
  \<open>BookMetadataService.fetchByIsbn\<close>: a source either throws, or resolves to \<open>null\<close>, or to
  a record.
\<close>

type_synonym metadataService = "jsstring \<Rightarrow> exn + BookMetadata option"

section \<open>services/metadata.ts: CompositeMetadataService\<close>

definition merge :: "BookMetadata \<Rightarrow> BookMetadata \<Rightarrow> BookMetadata" where
  "merge primary secondary =
     \<lparr> isbn = isbn primary,
       title = title primary,
       authors = orElse (authors primary) (authors secondary),
       publisher = orElse (publisher primary) (publisher secondary),
       publishedDate = orElse (publishedDate primary) (publishedDate secondary),
       description = orElse (description primary) (description secondary),
       coverImageUrl = orElse (coverImageUrl primary) (coverImageUrl secondary) \<rparr>"

definition isComplete :: "BookMetadata \<Rightarrow> bool" where
  "isComplete metadata \<longleftrightarrow>
     authors metadata \<noteq> [] \<and> publisher metadata \<noteq> [] \<and> publishedDate metadata \<noteq> [] \<and>
     description metadata \<noteq> [] \<and> coverImageUrl metadata \<noteq> []"

text \<open>
  The \<open>for\<close> loop of \<open>fetchByIsbn\<close>. \<open>i\<close> is the position of the next source in
  \<open>this.services\<close>, \<open>result\<close> the accumulator, and \<open>queried\<close> the positions of the sources
  whose \<open>fetchByIsbn\<close> has been called so far, in call order. A source that throws and a
  source that resolves to \<open>null\<close> both \<open>continue\<close>; \<open>break\<close> leaves the loop as soon as
  the accumulator is complete.
\<close>

fun fetchLoop ::
  "metadataService list \<Rightarrow> jsstring \<Rightarrow> nat \<Rightarrow> BookMetadata option \<Rightarrow> nat list
     \<Rightarrow> BookMetadata option \<times> nat list" where
  "fetchLoop [] isbn0 i result queried = (result, queried)"
| "fetchLoop (service # rest) isbn0 i result queried =
     (case service isbn0 of
        Inl e \<Rightarrow> fetchLoop rest isbn0 (Suc i) result (queried @ [i])
      | Inr None \<Rightarrow> fetchLoop rest isbn0 (Suc i) result (queried @ [i])
      | Inr (Some current) \<Rightarrow>
          (let result' = (case result of None \<Rightarrow> current | Some r \<Rightarrow> merge r current)
           in if isComplete result' then (Some result', queried @ [i])
              else fetchLoop rest isbn0 (Suc i) (Some result') (queried @ [i])))"

definition fetchByIsbn :: "metadataService list \<Rightarrow> jsstring \<Rightarrow> BookMetadata option \<times> nat list" where
  "fetchByIsbn services isbn0 = fetchLoop services isbn0 0 None []"

text \<open>
  The earlier revision of the same class returns the first non-null result as it is and
  lets a throwing source abort the lookup.
\<close>

fun fetchByIsbn_firstHit :: "metadataService list \<Rightarrow> jsstring \<Rightarrow> exn + BookMetadata option" where
  "fetchByIsbn_firstHit [] isbn0 = Inr None"
| "fetchByIsbn_firstHit (service # rest) isbn0 =
     (case service isbn0 of
        Inl e \<Rightarrow> Inl e
      | Inr None \<Rightarrow> fetchByIsbn_firstHit rest isbn0
      | Inr (Some result) \<Rightarrow> Inr (Some result))"

section \<open>types.ts: files and the drive interface\<close>

record DriveFile =
  file_id :: jsstring
  name :: jsstring
  mimeType :: jsstring
  properties :: props
  parents :: "jsstring list"
  webContentLink :: "jsstring option"
  thumbnailLink :: "jsstring option"
  file_size :: "jsstring option"

record DriveFileList =
  listed :: "DriveFile list"
  nextPageToken :: "jsstring option"

text \<open>\<open>Partial<BookMetadata>\<close>: every field may be absent.\<close>

record PartialMetadata =
  p_isbn :: "jsstring option"
  p_title :: "jsstring option"
  p_authors :: "jsstring option"
  p_publisher :: "jsstring option"
  p_publishedDate :: "jsstring option"
  p_description :: "jsstring option"
  p_coverImageUrl :: "jsstring option"

text \<open>
  \<open>GoogleDriveService\<close> is an interface. An implementation is a record of operations on
  a state \<open>'d\<close> of its own; each operation returns the new state together with either the
  thrown error or the value the promise resolves to. Only the methods that registration,
  editing, deletion and migration call are listed.
\<close>

record 'd GoogleDriveService =
  ensureMyLibraryFolder :: "'d \<Rightarrow> (exn + jsstring) \<times> 'd"
  ensureAuthorFolder :: "jsstring \<Rightarrow> jsstring \<Rightarrow> 'd \<Rightarrow> (exn + jsstring) \<times> 'd"
  uploadFile ::
    "jsstring \<Rightarrow> jsstring \<Rightarrow> bytes \<Rightarrow> jsstring \<Rightarrow> props \<Rightarrow> 'd \<Rightarrow> (exn + DriveFile) \<times> 'd"
  uploadCoverImage ::
    "jsstring \<Rightarrow> jsstring \<Rightarrow> bytes \<Rightarrow> jsstring \<Rightarrow> 'd \<Rightarrow> (exn + DriveFile) \<times> 'd"
  updateFileProperties :: "jsstring \<Rightarrow> props \<Rightarrow> 'd \<Rightarrow> (exn + DriveFile) \<times> 'd"
  renameFile :: "jsstring \<Rightarrow> jsstring \<Rightarrow> 'd \<Rightarrow> (exn + DriveFile) \<times> 'd"
  moveFile :: "jsstring \<Rightarrow> jsstring \<Rightarrow> jsstring \<Rightarrow> 'd \<Rightarrow> (exn + DriveFile) \<times> 'd"
  getFile :: "jsstring \<Rightarrow> 'd \<Rightarrow> (exn + DriveFile) \<times> 'd"
  getFileContent :: "jsstring \<Rightarrow> 'd \<Rightarrow> (exn + bytes) \<times> 'd"
  deleteFile :: "jsstring \<Rightarrow> 'd \<Rightarrow> (exn + unit) \<times> 'd"
  findBookByIsbn :: "jsstring \<Rightarrow> 'd \<Rightarrow> (exn + DriveFile option) \<times> 'd"
  findFilesByParent :: "jsstring \<Rightarrow> 'd \<Rightarrow> (exn + DriveFile list) \<times> 'd"

section \<open>services/cache.ts\<close>

record CacheEntry =
  data :: DriveFileList
  expiry :: int

record CacheService =
  cache :: "(jsstring \<times> CacheEntry) list"
  ttl :: int

definition DEFAULT_TTL :: int where
  "DEFAULT_TTL = 60 * 60 * 1000"

text \<open>\<open>now\<close> is the value of \<open>Date.now()\<close> at the call.\<close>

definition cacheGet :: "int \<Rightarrow> jsstring \<Rightarrow> CacheService \<Rightarrow> DriveFileList option \<times> CacheService" where
  "cacheGet now key c =
     (case propGet (cache c) key of
        None \<Rightarrow> (None, c)
      | Some entry \<Rightarrow>
          if now > expiry entry then (None, c \<lparr> cache := propDelete (cache c) key \<rparr>)
          else (Some (data entry), c))"

definition cacheSet :: "int \<Rightarrow> jsstring \<Rightarrow> DriveFileList \<Rightarrow> CacheService \<Rightarrow> CacheService" where
  "cacheSet now key d c =
     c \<lparr> cache := propSet (cache c) key \<lparr> data = d, expiry = now + ttl c \<rparr> \<rparr>"

definition invalidate :: "jsstring \<Rightarrow> CacheService \<Rightarrow> CacheService" where
  "invalidate key c = c \<lparr> cache := propDelete (cache c) key \<rparr>"

definition invalidateAll :: "CacheService \<Rightarrow> CacheService" where
  "invalidateAll c = c \<lparr> cache := [] \<rparr>"

text \<open>
  The loop visits the keys in insertion order and deletes while it iterates; deleting an
  entry of a \<open>Map\<close> during iteration does not disturb the visit of the others.
\<close>

definition invalidateByPrefix :: "jsstring \<Rightarrow> CacheService \<Rightarrow> CacheService" where
  "invalidateByPrefix prefix c =
     c \<lparr> cache := fold (\<lambda>key m. if startsWith key prefix then propDelete m key else m)
                    (map fst (cache c)) (cache c) \<rparr>"

section \<open>Effects\<close>

text \<open>
  The state a service method runs in: the state of the drive, the cache, and the calls made
  on the drive and on \<open>fetch\<close> so far, oldest first. A method is a function from this state
  to its outcome (the thrown error, or the returned value) and the state after it.
\<close>

datatype call =
    EnsureMyLibraryFolder
  | EnsureAuthorFolder jsstring jsstring
  | UploadFile jsstring jsstring bytes jsstring props
  | UploadCoverImage jsstring jsstring bytes jsstring
  | UpdateFileProperties jsstring props
  | RenameFile jsstring jsstring
  | MoveFile jsstring jsstring jsstring
  | GetFile jsstring
  | GetFileContent jsstring
  | DeleteFile jsstring
  | FindBookByIsbn jsstring
  | FindFilesByParent jsstring
  | Fetch jsstring

record 'd world =
  drive :: 'd
  cacheService :: CacheService
  calls :: "call list"

definition andThen ::
  "('s \<Rightarrow> (exn + 'a) \<times> 's) \<Rightarrow> ('a \<Rightarrow> 's \<Rightarrow> (exn + 'b) \<times> 's) \<Rightarrow> 's \<Rightarrow> (exn + 'b) \<times> 's" where
  "andThen m f s = (case m s of (Inl e, s') \<Rightarrow> (Inl e, s') | (Inr x, s') \<Rightarrow> f x s')"

definition succeed :: "'a \<Rightarrow> 's \<Rightarrow> (exn + 'a) \<times> 's" where
  "succeed x s = (Inr x, s)"

text \<open>\<open>try { m } catch (e) { h(e) }\<close>.\<close>

definition tryCatch ::
  "('s \<Rightarrow> (exn + 'a) \<times> 's) \<Rightarrow> (exn \<Rightarrow> 's \<Rightarrow> (exn + 'a) \<times> 's) \<Rightarrow> 's \<Rightarrow> (exn + 'a) \<times> 's" where
  "tryCatch m h s = (case m s of (Inl e, s') \<Rightarrow> h e s' | (Inr x, s') \<Rightarrow> (Inr x, s'))"

text \<open>A call of a drive method: it runs on the drive's state and is recorded.\<close>

definition invoke :: "call \<Rightarrow> ('d \<Rightarrow> (exn + 'a) \<times> 'd) \<Rightarrow> 'd world \<Rightarrow> (exn + 'a) \<times> 'd world" where
  "invoke c operation w =
     (case operation (drive w) of (r, d') \<Rightarrow> (r, w \<lparr> drive := d', calls := calls w @ [c] \<rparr>))"

section \<open>services/book.ts: BookService\<close>

definition CACHE_KEY_LIST :: jsstring where
  "CACHE_KEY_LIST = js ''books:list''"

definition CACHE_KEY_SEARCH_PREFIX :: jsstring where
  "CACHE_KEY_SEARCH_PREFIX = js ''books:search:''"

text \<open>
  A \<open>BookService\<close> holds its drive service; \<open>coverFetch url\<close> is what the private method
  \<open>fetchCoverImage\<close> gets from \<open>fetch\<close> for the URL: the body, or \<open>null\<close> when the request
  fails or is not ok. The cache it holds is the one of the state.
\<close>

record 'd BookService =
  driveService :: "'d GoogleDriveService"
  coverFetch :: "jsstring \<Rightarrow> bytes option"

definition invalidateListCache :: "'d world \<Rightarrow> (exn + unit) \<times> 'd world" where
  "invalidateListCache w =
     (Inr (), w \<lparr> cacheService :=
        invalidateByPrefix CACHE_KEY_SEARCH_PREFIX (invalidateByPrefix CACHE_KEY_LIST (cacheService w)) \<rparr>)"

definition fetchCoverImage :: "'d BookService \<Rightarrow> jsstring \<Rightarrow> 'd world \<Rightarrow> (exn + bytes option) \<times> 'd world" where
  "fetchCoverImage bs url w = (Inr (coverFetch bs url), w \<lparr> calls := calls w @ [Fetch url] \<rparr>)"

definition registerProperties :: "BookMetadata \<Rightarrow> props" where
  "registerProperties metadata =
     (let properties0 =
        [(js ''app_type'', js ''my_library_book''),
         (js ''isbn'', orElse (isbn metadata) []),
         (js ''title'', title metadata),
         (js ''authors'', authors metadata),
         (js ''publisher'', orElse (publisher metadata) []),
         (js ''published_date'', orElse (publishedDate metadata) [])]
      in if description metadata \<noteq> []
         then propSet properties0 (js ''description'') (description metadata)
         else properties0)"

text \<open>The cover step of \<open>registerBook\<close>, the body of its \<open>try\<close>.\<close>

definition uploadCover ::
  "'d BookService \<Rightarrow> BookMetadata \<Rightarrow> jsstring \<Rightarrow> props \<Rightarrow> DriveFile \<Rightarrow> 'd world
     \<Rightarrow> (exn + DriveFile) \<times> 'd world" where
  "uploadCover bs metadata authorFolderId properties0 file =
     andThen (fetchCoverImage bs (coverImageUrl metadata)) (\<lambda>coverData.
       case coverData of
         None \<Rightarrow> succeed file
       | Some imageData \<Rightarrow>
           let coverFileName = js ''cover_'' @ file_id file @ js ''.jpg'' in
           andThen (invoke (UploadCoverImage authorFolderId coverFileName imageData (js ''image/jpeg''))
                      (uploadCoverImage (driveService bs) authorFolderId coverFileName imageData
                         (js ''image/jpeg''))) (\<lambda>coverFile.
           let withCover = propSet properties0 (js ''cover_file_id'') (file_id coverFile) in
           andThen (invoke (UpdateFileProperties (file_id file) withCover)
                      (updateFileProperties (driveService bs) (file_id file) withCover)) (\<lambda>_.
           succeed (file \<lparr> properties :=
             propSet (properties file) (js ''cover_file_id'') (file_id coverFile) \<rparr>))))"

definition registerBook ::
  "'d BookService \<Rightarrow> BookMetadata \<Rightarrow> bytes \<Rightarrow> jsstring \<Rightarrow> 'd world \<Rightarrow> (exn + DriveFile) \<times> 'd world" where
  "registerBook bs metadata fileContent fileMimeType =
     andThen (invoke EnsureMyLibraryFolder (ensureMyLibraryFolder (driveService bs))) (\<lambda>myLibraryId.
     let firstAuthor = getFirstAuthor (authors metadata) in
     andThen (invoke (EnsureAuthorFolder myLibraryId firstAuthor)
                (ensureAuthorFolder (driveService bs) myLibraryId firstAuthor)) (\<lambda>authorFolderId.
     let extension = getExtension fileMimeType;
         fileName = formatFileName (authors metadata) (title metadata) extension;
         properties0 = registerProperties metadata in
     andThen (invoke (UploadFile authorFolderId fileName fileContent fileMimeType properties0)
                (uploadFile (driveService bs) authorFolderId fileName fileContent fileMimeType properties0))
       (\<lambda>file.
     andThen
       (if coverImageUrl metadata \<noteq> [] then
          tryCatch (uploadCover bs metadata authorFolderId properties0 file) (\<lambda>e. succeed file)
        else succeed file) (\<lambda>file'.
     andThen invalidateListCache (\<lambda>_. succeed file')))))"

text \<open>The cover step of \<open>deleteBook\<close>: a failure to delete the cover is ignored.\<close>

definition deleteCover :: "'d BookService \<Rightarrow> DriveFile \<Rightarrow> 'd world \<Rightarrow> (exn + unit) \<times> 'd world" where
  "deleteCover bs file =
     (if truthy (propGet (properties file) (js ''cover_file_id'')) then
        tryCatch
          (invoke (DeleteFile (the (propGet (properties file) (js ''cover_file_id''))))
             (deleteFile (driveService bs) (the (propGet (properties file) (js ''cover_file_id'')))))
          (\<lambda>e. succeed ())
      else succeed ())"

definition deleteBook :: "'d BookService \<Rightarrow> jsstring \<Rightarrow> 'd world \<Rightarrow> (exn + unit) \<times> 'd world" where
  "deleteBook bs fileId =
     andThen (invoke (GetFile fileId) (getFile (driveService bs) fileId)) (\<lambda>file.
     andThen (deleteCover bs file) (\<lambda>_.
     andThen (invoke (DeleteFile fileId) (deleteFile (driveService bs) fileId)) (\<lambda>_.
     invalidateListCache)))"

text \<open>
  The property map \<open>updateBook\<close> sends: the existing properties with the four fields of the
  edit form assigned where they are not \<open>undefined\<close>.
\<close>

definition assignIfDefined :: "props \<Rightarrow> jsstring \<Rightarrow> jsstring option \<Rightarrow> props" where
  "assignIfDefined ps key v = (case v of None \<Rightarrow> ps | Some s \<Rightarrow> propSet ps key s)"

definition updatedProperties :: "DriveFile \<Rightarrow> PartialMetadata \<Rightarrow> props" where
  "updatedProperties existingFile metadata =
     assignIfDefined
       (assignIfDefined
          (assignIfDefined
             (assignIfDefined (properties existingFile) (js ''title'') (p_title metadata))
             (js ''authors'') (p_authors metadata))
          (js ''publisher'') (p_publisher metadata))
       (js ''published_date'') (p_publishedDate metadata)"

text \<open>
  \<open>metadata.title || existingFile.properties?.title || ""\<close>, the same for the authors, and
  \<open>existingFile.name.split(".").pop() || "epub"\<close>.
\<close>

definition newFileName :: "DriveFile \<Rightarrow> PartialMetadata \<Rightarrow> jsstring" where
  "newFileName existingFile metadata =
     (let title0 = optOrElse (p_title metadata)
                     (optOrElse (propGet (properties existingFile) (js ''title'')) []);
          authors0 = optOrElse (p_authors metadata)
                     (optOrElse (propGet (properties existingFile) (js ''authors'')) []);
          extension = orElse (last (splitOn 0x2E (name existingFile))) (js ''epub'')
      in formatFileName authors0 title0 extension)"

definition authorsChanged :: "DriveFile \<Rightarrow> PartialMetadata \<Rightarrow> bool" where
  "authorsChanged existingFile metadata \<longleftrightarrow>
     truthy (p_authors metadata) \<and>
     p_authors metadata \<noteq> propGet (properties existingFile) (js ''authors'')"

text \<open>The two conditional steps of \<open>updateBook\<close>: the rename and the move.\<close>

definition renameIfChanged ::
  "'d BookService \<Rightarrow> jsstring \<Rightarrow> DriveFile \<Rightarrow> PartialMetadata \<Rightarrow> 'd world \<Rightarrow> (exn + unit) \<times> 'd world" where
  "renameIfChanged bs fileId existingFile metadata =
     (if newFileName existingFile metadata \<noteq> name existingFile then
        andThen (invoke (RenameFile fileId (newFileName existingFile metadata))
                   (renameFile (driveService bs) fileId (newFileName existingFile metadata)))
          (\<lambda>_. succeed ())
      else succeed ())"

text \<open>\<open>oldFolderId && oldFolderId !== newFolderId\<close> with \<open>oldFolderId = parents?.[0]\<close>.\<close>

definition moveNeeded :: "DriveFile \<Rightarrow> jsstring \<Rightarrow> bool" where
  "moveNeeded existingFile newFolderId \<longleftrightarrow>
     (case parents existingFile of
        [] \<Rightarrow> False
      | oldFolderId # _ \<Rightarrow> oldFolderId \<noteq> [] \<and> oldFolderId \<noteq> newFolderId)"

definition moveIfAuthorsChanged ::
  "'d BookService \<Rightarrow> jsstring \<Rightarrow> DriveFile \<Rightarrow> PartialMetadata \<Rightarrow> 'd world \<Rightarrow> (exn + unit) \<times> 'd world" where
  "moveIfAuthorsChanged bs fileId existingFile metadata =
     (if authorsChanged existingFile metadata then
        andThen (invoke EnsureMyLibraryFolder (ensureMyLibraryFolder (driveService bs))) (\<lambda>myLibraryId.
        let newFirstAuthor = getFirstAuthor (the (p_authors metadata)) in
        andThen (invoke (EnsureAuthorFolder myLibraryId newFirstAuthor)
                   (ensureAuthorFolder (driveService bs) myLibraryId newFirstAuthor)) (\<lambda>newFolderId.
        if moveNeeded existingFile newFolderId then
          andThen (invoke (MoveFile fileId newFolderId (hd (parents existingFile)))
                     (moveFile (driveService bs) fileId newFolderId (hd (parents existingFile))))
            (\<lambda>_. succeed ())
        else succeed ()))
      else succeed ())"

definition updateBook ::
  "'d BookService \<Rightarrow> jsstring \<Rightarrow> PartialMetadata \<Rightarrow> 'd world \<Rightarrow> (exn + DriveFile) \<times> 'd world" where
  "updateBook bs fileId metadata =
     andThen (invoke (GetFile fileId) (getFile (driveService bs) fileId)) (\<lambda>existingFile.
     let properties0 = updatedProperties existingFile metadata in
     andThen (invoke (UpdateFileProperties fileId properties0)
                (updateFileProperties (driveService bs) fileId properties0)) (\<lambda>updatedFile.
     andThen (renameIfChanged bs fileId existingFile metadata) (\<lambda>_.
     andThen (moveIfAuthorsChanged bs fileId existingFile metadata) (\<lambda>_.
     andThen invalidateListCache (\<lambda>_. succeed updatedFile)))))"

definition bookFindBookByIsbn ::
  "'d BookService \<Rightarrow> jsstring \<Rightarrow> 'd world \<Rightarrow> (exn + DriveFile option) \<times> 'd world" where
  "bookFindBookByIsbn bs isbn0 = invoke (FindBookByIsbn isbn0) (findBookByIsbn (driveService bs) isbn0)"

section \<open>services/drive_mock.ts: MockGoogleDriveService\<close>

record StoredFile = DriveFile +
  content :: "bytes option"

definition toDriveFile :: "StoredFile \<Rightarrow> DriveFile" where
  "toDriveFile file =
     \<lparr> file_id = file_id file, name = name file, mimeType = mimeType file,
       properties = properties file, parents = parents file,
       webContentLink = webContentLink file, thumbnailLink = thumbnailLink file,
       file_size = file_size file \<rparr>"

text \<open>\<open>files\<close> is the \<open>Map\<close> from ids to stored files, in insertion order.\<close>

record MockGoogleDriveService =
  files :: "(jsstring \<times> StoredFile) list"
  nextId :: nat
  myLibraryFolderId :: jsstring
  shouldFail :: bool

definition FOLDER_MIME :: jsstring where
  "FOLDER_MIME = js ''application/vnd.google-apps.folder''"

definition driveApiError :: exn where
  "driveApiError = Error (js ''Drive API error'')"

definition fileNotFound :: "jsstring \<Rightarrow> exn" where
  "fileNotFound fileId = Error (js ''File not found: '' @ fileId)"

definition generateId :: "MockGoogleDriveService \<Rightarrow> jsstring" where
  "generateId m = js ''file_'' @ numberToString (nextId m)"

definition downloadLink :: "jsstring \<Rightarrow> jsstring" where
  "downloadLink i = js ''https://drive.google.com/uc?id='' @ i @ js ''&export=download''"

definition newFolder :: "jsstring \<Rightarrow> jsstring \<Rightarrow> jsstring list \<Rightarrow> StoredFile" where
  "newFolder i folderName parents0 =
     \<lparr> file_id = i, name = folderName, mimeType = FOLDER_MIME, properties = [], parents = parents0,
       webContentLink = None, thumbnailLink = None, file_size = None, content = None \<rparr>"

definition mock_ensureMyLibraryFolder ::
  "MockGoogleDriveService \<Rightarrow> (exn + jsstring) \<times> MockGoogleDriveService" where
  "mock_ensureMyLibraryFolder m =
     (if shouldFail m then (Inl driveApiError, m)
      else if myLibraryFolderId m \<noteq> [] then (Inr (myLibraryFolderId m), m)
      else
        (case find (\<lambda>(k, file). name file = js ''MyLibrary'' \<and> mimeType file = FOLDER_MIME) (files m) of
           Some (k, file) \<Rightarrow> (Inr (file_id file), m \<lparr> myLibraryFolderId := file_id file \<rparr>)
         | None \<Rightarrow>
             (Inr (generateId m),
              m \<lparr> files := propSet (files m) (generateId m) (newFolder (generateId m) (js ''MyLibrary'') []),
                  nextId := Suc (nextId m),
                  myLibraryFolderId := generateId m \<rparr>)))"

definition mock_ensureAuthorFolder ::
  "jsstring \<Rightarrow> jsstring \<Rightarrow> MockGoogleDriveService \<Rightarrow> (exn + jsstring) \<times> MockGoogleDriveService" where
  "mock_ensureAuthorFolder myLibraryFolderId0 authorName m =
     (if shouldFail m then (Inl driveApiError, m)
      else
        (case find (\<lambda>(k, file). name file = authorName \<and> mimeType file = FOLDER_MIME \<and>
                      myLibraryFolderId0 \<in> set (parents file)) (files m) of
           Some (k, file) \<Rightarrow> (Inr (file_id file), m)
         | None \<Rightarrow>
             (Inr (generateId m),
              m \<lparr> files := propSet (files m) (generateId m)
                              (newFolder (generateId m) authorName [myLibraryFolderId0]),
                  nextId := Suc (nextId m) \<rparr>)))"

definition mock_uploadFile ::
  "jsstring \<Rightarrow> jsstring \<Rightarrow> bytes \<Rightarrow> jsstring \<Rightarrow> props \<Rightarrow> MockGoogleDriveService
     \<Rightarrow> (exn + DriveFile) \<times> MockGoogleDriveService" where
  "mock_uploadFile folderId fileName content0 mimeType0 properties0 m =
     (if shouldFail m then (Inl driveApiError, m)
      else
        (let file = \<lparr> file_id = generateId m, name = fileName, mimeType = mimeType0,
                       properties = sanitizeProperties properties0, parents = [folderId],
                       webContentLink = Some (downloadLink (generateId m)), thumbnailLink = None,
                       file_size = Some (numberToString (length content0)),
                       content = Some content0 \<rparr>
         in (Inr (toDriveFile file),
             m \<lparr> files := propSet (files m) (generateId m) file, nextId := Suc (nextId m) \<rparr>)))"

definition mock_uploadCoverImage ::
  "jsstring \<Rightarrow> jsstring \<Rightarrow> bytes \<Rightarrow> jsstring \<Rightarrow> MockGoogleDriveService
     \<Rightarrow> (exn + DriveFile) \<times> MockGoogleDriveService" where
  "mock_uploadCoverImage folderId fileName imageData mimeType0 m =
     (if shouldFail m then (Inl driveApiError, m)
      else
        (let file = \<lparr> file_id = generateId m, name = fileName, mimeType = mimeType0,
                       properties = [], parents = [folderId],
                       webContentLink = Some (downloadLink (generateId m)), thumbnailLink = None,
                       file_size = None, content = Some imageData \<rparr>
         in (Inr (toDriveFile file),
             m \<lparr> files := propSet (files m) (generateId m) file, nextId := Suc (nextId m) \<rparr>)))"

text \<open>The three methods that change a stored file in place.\<close>

definition withFile ::
  "jsstring \<Rightarrow> (StoredFile \<Rightarrow> StoredFile) \<Rightarrow> MockGoogleDriveService
     \<Rightarrow> (exn + DriveFile) \<times> MockGoogleDriveService" where
  "withFile fileId change m =
     (if shouldFail m then (Inl driveApiError, m)
      else
        (case propGet (files m) fileId of
           None \<Rightarrow> (Inl (fileNotFound fileId), m)
         | Some file \<Rightarrow>
             (Inr (toDriveFile (change file)), m \<lparr> files := propSet (files m) fileId (change file) \<rparr>)))"

definition mock_updateFileProperties ::
  "jsstring \<Rightarrow> props \<Rightarrow> MockGoogleDriveService \<Rightarrow> (exn + DriveFile) \<times> MockGoogleDriveService" where
  "mock_updateFileProperties fileId properties0 =
     withFile fileId (\<lambda>file. file \<lparr> properties := spread (properties file) (sanitizeProperties properties0) \<rparr>)"

definition mock_renameFile ::
  "jsstring \<Rightarrow> jsstring \<Rightarrow> MockGoogleDriveService \<Rightarrow> (exn + DriveFile) \<times> MockGoogleDriveService" where
  "mock_renameFile fileId newName = withFile fileId (\<lambda>file. file \<lparr> name := newName \<rparr>)"

definition mock_moveFile ::
  "jsstring \<Rightarrow> jsstring \<Rightarrow> jsstring \<Rightarrow> MockGoogleDriveService
     \<Rightarrow> (exn + DriveFile) \<times> MockGoogleDriveService" where
  "mock_moveFile fileId newFolderId oldFolderId =
     withFile fileId
       (\<lambda>file. file \<lparr> parents := filter (\<lambda>p. p \<noteq> oldFolderId) (parents file) @ [newFolderId] \<rparr>)"

definition mock_getFile ::
  "jsstring \<Rightarrow> MockGoogleDriveService \<Rightarrow> (exn + DriveFile) \<times> MockGoogleDriveService" where
  "mock_getFile fileId m =
     (if shouldFail m then (Inl driveApiError, m)
      else
        (case propGet (files m) fileId of
           None \<Rightarrow> (Inl (fileNotFound fileId), m)
         | Some file \<Rightarrow> (Inr (toDriveFile file), m)))"

definition mock_getFileContent ::
  "jsstring \<Rightarrow> MockGoogleDriveService \<Rightarrow> (exn + bytes) \<times> MockGoogleDriveService" where
  "mock_getFileContent fileId m =
     (if shouldFail m then (Inl driveApiError, m)
      else
        (case propGet (files m) fileId of
           None \<Rightarrow> (Inl (fileNotFound fileId), m)
         | Some file \<Rightarrow> (Inr (case content file of None \<Rightarrow> [] | Some c \<Rightarrow> c), m)))"

definition mock_deleteFile ::
  "jsstring \<Rightarrow> MockGoogleDriveService \<Rightarrow> (exn + unit) \<times> MockGoogleDriveService" where
  "mock_deleteFile fileId m =
     (if shouldFail m then (Inl driveApiError, m)
      else if propGet (files m) fileId = None then (Inl (fileNotFound fileId), m)
      else (Inr (), m \<lparr> files := propDelete (files m) fileId \<rparr>))"

definition mock_findBookByIsbn ::
  "jsstring \<Rightarrow> MockGoogleDriveService \<Rightarrow> (exn + DriveFile option) \<times> MockGoogleDriveService" where
  "mock_findBookByIsbn isbn0 m =
     (if shouldFail m then (Inl driveApiError, m)
      else
        (case find (\<lambda>(k, file). propGet (properties file) (js ''app_type'') = Some APP_TYPE_VALUE \<and>
                      propGet (properties file) (js ''isbn'') = Some isbn0) (files m) of
           Some (k, file) \<Rightarrow> (Inr (Some (toDriveFile file)), m)
         | None \<Rightarrow> (Inr None, m)))"

definition mock_findFilesByParent ::
  "jsstring \<Rightarrow> MockGoogleDriveService \<Rightarrow> (exn + DriveFile list) \<times> MockGoogleDriveService" where
  "mock_findFilesByParent folderId m =
     (if shouldFail m then (Inl driveApiError, m)
      else (Inr (map (\<lambda>(k, file). toDriveFile file)
                  (filter (\<lambda>(k, file). folderId \<in> set (parents file)) (files m))), m))"

definition mockService :: "MockGoogleDriveService GoogleDriveService" where
  "mockService =
     \<lparr> ensureMyLibraryFolder = mock_ensureMyLibraryFolder,
       ensureAuthorFolder = mock_ensureAuthorFolder,
       uploadFile = mock_uploadFile,
       uploadCoverImage = mock_uploadCoverImage,
       updateFileProperties = mock_updateFileProperties,
       renameFile = mock_renameFile,
       moveFile = mock_moveFile,
       getFile = mock_getFile,
       getFileContent = mock_getFileContent,
       deleteFile = mock_deleteFile,
       findBookByIsbn = mock_findBookByIsbn,
       findFilesByParent = mock_findFilesByParent \<rparr>"

text \<open>
  The subclass the migration tests use: \<open>findFilesByParent\<close> throws for one folder id and
  is the inherited method for the others. \<open>failingContent\<close> does the same to
  \<open>getFileContent\<close>.
\<close>

definition failingListing :: "jsstring \<Rightarrow> 'd GoogleDriveService \<Rightarrow> 'd GoogleDriveService" where
  "failingListing failForFolderId service =
     service \<lparr> findFilesByParent :=
       (\<lambda>folderId d. if folderId = failForFolderId
                      then (Inl (Error (js ''API Error for specific folder'')), d)
                      else findFilesByParent service folderId d) \<rparr>"


section \<open>scripts/migrate_calibre.ts\<close>

text \<open>
  \<open>dryRun\<close> and \<open>limit\<close> are optional. A limit is a whole number here; \<open>NaN\<close>, which the
  command line can produce, compares false with every count and so acts as no limit.
\<close>

record MigrationOptions =
  dryRun :: "bool option"
  limit :: "int option"

datatype outcome = Succeeded | Skipped | Failed

record MigrationDetail =
  detail_title :: jsstring
  status :: outcome
  reason :: "jsstring option"

record MigrationResult =
  total :: nat
  succeeded :: nat
  skipped :: nat
  errors :: nat
  details :: "MigrationDetail list"

definition EXTENSION_PRIORITY :: "jsstring list" where
  "EXTENSION_PRIORITY = [js ''.epub'', js ''.pdf'', js ''.mobi'', js ''.azw3'', js ''.azw'']"

fun selectByPriority :: "jsstring list \<Rightarrow> DriveFile list \<Rightarrow> DriveFile option" where
  "selectByPriority [] files0 = None"
| "selectByPriority (ext # exts) files0 =
     (case find (\<lambda>f. endsWith (toLowerCase (name f)) ext) files0 of
        Some file \<Rightarrow> Some file
      | None \<Rightarrow> selectByPriority exts files0)"

definition selectBookFile :: "DriveFile list \<Rightarrow> DriveFile option" where
  "selectBookFile files0 = selectByPriority EXTENSION_PRIORITY files0"

definition getMimeType :: "jsstring \<Rightarrow> jsstring" where
  "getMimeType filename =
     (let lower = toLowerCase filename in
      if endsWith lower (js ''.epub'') then js ''application/epub+zip''
      else if endsWith lower (js ''.pdf'') then js ''application/pdf''
      else if endsWith lower (js ''.mobi'') then js ''application/x-mobipocket-ebook''
      else js ''application/octet-stream'')"

text \<open>
  A migrator holds the drive service it lists and downloads with, and the book service it
  checks duplicates and registers with. \<open>parseMetadataOpf\<close> extracts fields from the
  metadata document with regular expressions; it is total and has no effect, and none of
  the properties below depends on what it extracts, so it is a parameter: they hold for
  every such function.
\<close>

record 'd CalibreMigrator =
  migratorDrive :: "'d GoogleDriveService"
  bookService :: "'d BookService"
  parseMetadataOpf :: "jsstring \<Rightarrow> PartialMetadata"

definition noMetadata :: PartialMetadata where
  "noMetadata =
     \<lparr> p_isbn = None, p_title = None, p_authors = None, p_publisher = None,
       p_publishedDate = None, p_description = None, p_coverImageUrl = None \<rparr>"

definition duplicateIsbn :: jsstring where
  "duplicateIsbn = js ''ISBN'' @ [0x91CD, 0x8907]"

definition noBookFile :: jsstring where
  "noBookFile =
     [0x5BFE, 0x5FDC, 0x5F62, 0x5F0F, 0x306E, 0x66F8, 0x7C4D, 0x30D5, 0x30A1, 0x30A4, 0x30EB,
      0x306A, 0x3057]"

definition fullMetadata :: "PartialMetadata \<Rightarrow> jsstring \<Rightarrow> BookMetadata" where
  "fullMetadata metadata title0 =
     \<lparr> isbn = optOrElse (p_isbn metadata) [],
       title = title0,
       authors = optOrElse (p_authors metadata) [],
       publisher = optOrElse (p_publisher metadata) [],
       publishedDate = optOrElse (p_publishedDate metadata) [],
       description = optOrElse (p_description metadata) [],
       coverImageUrl = [] \<rparr>"

text \<open>
  The cover step of \<open>migrateBook\<close>, inside its \<open>try\<close>. Both drive services return a
  registered file with its one parent; for a file without parents JavaScript passes
  \<open>undefined\<close> as the folder, written here as the string \<open>undefined\<close>.
\<close>

definition registerCover ::
  "'d CalibreMigrator \<Rightarrow> DriveFile \<Rightarrow> DriveFile \<Rightarrow> 'd world \<Rightarrow> (exn + unit) \<times> 'd world" where
  "registerCover mg registeredFile coverFile =
     andThen (invoke (GetFileContent (file_id coverFile))
                (getFileContent (migratorDrive mg) (file_id coverFile))) (\<lambda>coverData.
     let authorFolderId = (case parents registeredFile of [] \<Rightarrow> js ''undefined'' | p # _ \<Rightarrow> p);
         coverFileName = js ''cover_'' @ file_id registeredFile @ js ''.jpg'' in
     andThen (invoke (UploadCoverImage authorFolderId coverFileName coverData (js ''image/jpeg''))
                (uploadCoverImage (migratorDrive mg) authorFolderId coverFileName coverData
                   (js ''image/jpeg''))) (\<lambda>coverDriveFile.
     let withCover = propSet (properties registeredFile) (js ''cover_file_id'') (file_id coverDriveFile) in
     andThen (invoke (UpdateFileProperties (file_id registeredFile) withCover)
                (updateFileProperties (migratorDrive mg) (file_id registeredFile) withCover))
       (\<lambda>_. succeed ())))"

definition migrateBook ::
  "'d CalibreMigrator \<Rightarrow> jsstring \<Rightarrow> jsstring \<Rightarrow> MigrationOptions \<Rightarrow> 'd world
     \<Rightarrow> (exn + MigrationDetail) \<times> 'd world" where
  "migrateBook mg bookFolderId bookFolderName options =
     andThen (invoke (FindFilesByParent bookFolderId)
                (findFilesByParent (migratorDrive mg) bookFolderId)) (\<lambda>files0.
     andThen
       (case find (\<lambda>f. name f = js ''metadata.opf'') files0 of
          None \<Rightarrow> succeed noMetadata
        | Some opfFile \<Rightarrow>
            andThen (invoke (GetFileContent (file_id opfFile))
                       (getFileContent (migratorDrive mg) (file_id opfFile)))
              (\<lambda>content0. succeed (parseMetadataOpf mg (decode content0)))) (\<lambda>metadata.
     let title0 = optOrElse (p_title metadata) bookFolderName in
     andThen
       (if truthy (p_isbn metadata) then
          andThen (bookFindBookByIsbn (bookService mg) (the (p_isbn metadata)))
            (\<lambda>existing. succeed (existing \<noteq> None))
        else succeed False) (\<lambda>duplicate.
     if duplicate then
       succeed \<lparr> detail_title = title0, status = Skipped, reason = Some duplicateIsbn \<rparr>
     else
       (case selectBookFile files0 of
          None \<Rightarrow> succeed \<lparr> detail_title = title0, status = Skipped, reason = Some noBookFile \<rparr>
        | Some bookFile \<Rightarrow>
            if dryRun options = Some True then
              succeed \<lparr> detail_title = title0, status = Succeeded, reason = None \<rparr>
            else
              andThen (invoke (GetFileContent (file_id bookFile))
                         (getFileContent (migratorDrive mg) (file_id bookFile))) (\<lambda>bookContent.
              andThen (registerBook (bookService mg) (fullMetadata metadata title0) bookContent
                         (getMimeType (name bookFile))) (\<lambda>registeredFile.
              andThen
                (case find (\<lambda>f. name f = js ''cover.jpg'') files0 of
                   None \<Rightarrow> succeed ()
                 | Some coverFile \<Rightarrow>
                     tryCatch (registerCover mg registeredFile coverFile) (\<lambda>e. succeed ()))
                (\<lambda>_. succeed \<lparr> detail_title = title0, status = Succeeded, reason = None \<rparr>)))))))"

text \<open>
  One iteration of the inner loop after the limit check: the \<open>try\<close> around \<open>migrateBook\<close>,
  whose \<open>catch\<close> turns the error into a detail, and the bookkeeping that follows.
\<close>

definition processUnit ::
  "'d CalibreMigrator \<Rightarrow> MigrationOptions \<Rightarrow> DriveFile \<Rightarrow> 'd world \<Rightarrow> MigrationDetail \<times> 'd world" where
  "processUnit mg options bookFolder w =
     (case migrateBook mg (file_id bookFolder) (name bookFolder) options w of
        (Inr detail, w') \<Rightarrow> (detail, w')
      | (Inl e, w') \<Rightarrow>
          (\<lparr> detail_title = name bookFolder, status = Failed, reason = Some (message e) \<rparr>, w'))"

definition record_detail :: "MigrationResult \<Rightarrow> MigrationDetail \<Rightarrow> MigrationResult" where
  "record_detail result detail =
     (let pushed = result \<lparr> details := details result @ [detail] \<rparr> in
      if status detail = Succeeded then pushed \<lparr> succeeded := succeeded pushed + 1 \<rparr>
      else if status detail = Skipped then pushed \<lparr> skipped := skipped pushed + 1 \<rparr>
      else pushed \<lparr> errors := errors pushed + 1 \<rparr>)"

definition limitReached :: "MigrationOptions \<Rightarrow> MigrationResult \<Rightarrow> bool" where
  "limitReached options result \<longleftrightarrow>
     (case limit options of None \<Rightarrow> False | Some l \<Rightarrow> int (total result) \<ge> l)"

text \<open>
  The inner \<open>for\<close> loop over the children of an author folder. The flag of the result tells
  whether \<open>break outer\<close> was taken.
\<close>

fun bookLoop ::
  "'d CalibreMigrator \<Rightarrow> MigrationOptions \<Rightarrow> DriveFile list \<Rightarrow> MigrationResult \<Rightarrow> 'd world
     \<Rightarrow> MigrationResult \<times> bool \<times> 'd world" where
  "bookLoop mg options [] result w = (result, False, w)"
| "bookLoop mg options (bookFolder # rest) result w =
     (if mimeType bookFolder \<noteq> FOLDER_MIME then bookLoop mg options rest result w
      else if limitReached options result then (result, True, w)
      else
        (case processUnit mg options bookFolder w of
           (detail, w') \<Rightarrow>
             bookLoop mg options rest
               (record_detail (result \<lparr> total := total result + 1 \<rparr>) detail) w'))"

text \<open>The outer loop over the children of the source folder.\<close>

fun authorLoop ::
  "'d CalibreMigrator \<Rightarrow> MigrationOptions \<Rightarrow> DriveFile list \<Rightarrow> MigrationResult \<Rightarrow> 'd world
     \<Rightarrow> (exn + MigrationResult) \<times> 'd world" where
  "authorLoop mg options [] result w = (Inr result, w)"
| "authorLoop mg options (authorFolder # rest) result w =
     (if mimeType authorFolder \<noteq> FOLDER_MIME then authorLoop mg options rest result w
      else
        (case invoke (FindFilesByParent (file_id authorFolder))
                (findFilesByParent (migratorDrive mg) (file_id authorFolder)) w of
           (Inl e, w') \<Rightarrow> (Inl e, w')
         | (Inr bookFolders, w') \<Rightarrow>
             (case bookLoop mg options bookFolders result w' of
                (result', True, w'') \<Rightarrow> (Inr result', w'')
              | (result', False, w'') \<Rightarrow> authorLoop mg options rest result' w'')))"

definition emptyResult :: MigrationResult where
  "emptyResult = \<lparr> total = 0, succeeded = 0, skipped = 0, errors = 0, details = [] \<rparr>"

definition migrate ::
  "'d CalibreMigrator \<Rightarrow> jsstring \<Rightarrow> MigrationOptions \<Rightarrow> 'd world
     \<Rightarrow> (exn + MigrationResult) \<times> 'd world" where
  "migrate mg sourceFolderId options w =
     (case invoke (FindFilesByParent sourceFolderId)
             (findFilesByParent (migratorDrive mg) sourceFolderId) w of
        (Inl e, w') \<Rightarrow> (Inl e, w')
      | (Inr authorFolders, w') \<Rightarrow> authorLoop mg options authorFolders emptyResult w')"

section \<open>Vocabulary of the proofs\<close>

text \<open>
  A scalar value is a code point that is not a surrogate; \<open>natBytes\<close> is \<open>utf8Bytes\<close>
  read as numbers.
\<close>

definition isScalar :: "nat \<Rightarrow> bool" where
  "isScalar c \<longleftrightarrow> c < 0x110000 \<and> \<not> (0xD800 \<le> c \<and> c \<le> 0xDFFF)"

definition natBytes :: "nat \<Rightarrow> nat list" where
  "natBytes c =
     (if c < 0x80 then [c]
      else if c < 0x800 then [0xC0 + c div 64, 0x80 + c mod 64]
      else if c < 0x10000 then [0xE0 + c div 4096, 0x80 + c div 64 mod 64, 0x80 + c mod 64]
      else [0xF0 + c div 262144, 0x80 + c div 4096 mod 64, 0x80 + c div 64 mod 64, 0x80 + c mod 64])"

text \<open>
  No list or search entry is left in a cache; and a post-condition of the runs of a method
  that return a value.
\<close>

definition listCacheClear :: "CacheService \<Rightarrow> bool" where
  "listCacheClear c \<longleftrightarrow>
     (\<forall>key\<in>fst ` set (cache c).
        \<not> startsWith key CACHE_KEY_LIST \<and> \<not> startsWith key CACHE_KEY_SEARCH_PREFIX)"

definition ensures :: "('s \<Rightarrow> (exn + 'a) \<times> 's) \<Rightarrow> ('s \<Rightarrow> bool) \<Rightarrow> bool" where
  "ensures m Q \<longleftrightarrow> (\<forall>s r s'. m s = (Inr r, s') \<longrightarrow> Q s')"


text \<open>
  The vocabulary of the migration proofs. \<open>returns m Q\<close>: every value a run of \<open>m\<close> returns
  satisfies \<open>Q\<close>. A result is \<open>consistent\<close> when its counters agree with its list of details.
  \<open>unitDetail\<close>: the detail is the one the loop records for the book folder at some state.
  \<open>bookSegment\<close>: the details are those of a prefix of the folders among the children of
  one author folder, in listing order; \<open>walkSegments\<close>: one such segment for each of a prefix
  of the folders among the children of the source folder, in listing order.
\<close>

definition returns :: "('s \<Rightarrow> (exn + 'a) \<times> 's) \<Rightarrow> ('a \<Rightarrow> bool) \<Rightarrow> bool" where
  "returns m Q \<longleftrightarrow> (\<forall>s r s'. m s = (Inr r, s') \<longrightarrow> Q r)"

definition isFolder :: "DriveFile \<Rightarrow> bool" where
  "isFolder f \<longleftrightarrow> mimeType f = FOLDER_MIME"











text \<open>
  The detail the \<open>catch\<close> of the inner loop builds, and the state after a recorded call that
  left the drive \<open>d\<close>.
\<close>

definition failedDetail :: "DriveFile \<Rightarrow> exn \<Rightarrow> MigrationDetail" where
  "failedDetail bookFolder e =
     \<lparr> detail_title = name bookFolder, status = Failed, reason = Some (message e) \<rparr>"

definition afterCall :: "call \<Rightarrow> 'd world \<Rightarrow> 'd \<Rightarrow> 'd world" where
  "afterCall c w d = w \<lparr> drive := d, calls := calls w @ [c] \<rparr>"



section \<open>Sample data\<close>

definition sampleA :: BookMetadata where
  "sampleA = \<lparr> isbn = js ''9784101010014'', title = js ''Ningen Shikkaku'',
      authors = js ''Dazai Osamu'', publisher = [], publishedDate = js ''1952-01-01'',
      description = [], coverImageUrl = [] \<rparr>"

definition sampleB :: BookMetadata where
  "sampleB = \<lparr> isbn = js ''9784101010014'', title = js ''No Longer Human (Google)'',
      authors = js ''Dazai  Osamu'', publisher = js ''Shinchosha'', publishedDate = js ''2020'',
      description = js ''d'', coverImageUrl = js ''http://x/y.jpg'' \<rparr>"

definition sampleComplete :: BookMetadata where
  "sampleComplete = \<lparr> isbn = js ''9784101010014'', title = js ''Ningen Shikkaku'',
      authors = js ''Dazai Osamu'', publisher = js ''Shinchosha'', publishedDate = js ''1952-01-01'',
      description = js ''daihyosaku'', coverImageUrl = js ''https://openbd.com/cover.jpg'' \<rparr>"

definition sourceOf :: "BookMetadata \<Rightarrow> metadataService" where
  "sourceOf m = (\<lambda>isbn0. if isbn0 = isbn m then Inr (Some m) else Inr None)"

definition failingSource :: metadataService where
  "failingSource = (\<lambda>isbn0. Inl (Error (js ''Network error'')))"

definition longKey :: jsstring where
  "longKey = replicate 125 0x6B"

definition hiragana :: jsstring where
  "hiragana = replicate 100 0x3042"


text \<open>A mock drive with nothing in it, and one that holds a library with one book.\<close>

definition mockEmpty :: MockGoogleDriveService where
  "mockEmpty = \<lparr> files = [], nextId = 1, myLibraryFolderId = [], shouldFail = False \<rparr>"

definition mockBooks :: "MockGoogleDriveService BookService" where
  "mockBooks = \<lparr> driveService = mockService, coverFetch = (\<lambda>url. None) \<rparr>"

definition noFiles :: DriveFileList where
  "noFiles = \<lparr> listed = [], nextPageToken = None \<rparr>"

definition sampleCache :: CacheService where
  "sampleCache =
     \<lparr> cache = [(js ''books:list::20'', \<lparr> data = noFiles, expiry = 3600000 \<rparr>),
                (js ''other'', \<lparr> data = noFiles, expiry = 3600000 \<rparr>),
                (js ''books:search:dazai:'', \<lparr> data = noFiles, expiry = 3600000 \<rparr>)],
       ttl = DEFAULT_TTL \<rparr>"

definition world0 :: "MockGoogleDriveService world" where
  "world0 = \<lparr> drive = mockEmpty, cacheService = sampleCache, calls = [] \<rparr>"

definition bookId :: jsstring where
  "bookId = js ''file_3''"

definition bookProperties :: props where
  "bookProperties =
     [(js ''app_type'', js ''my_library_book''),
      (js ''isbn'', js ''9784101010014''),
      (js ''title'', js ''Ningen Shikkaku''),
      (js ''authors'', js ''Dazai Osamu''),
      (js ''publisher'', js ''Shinchosha''),
      (js ''published_date'', js ''1952-01-01''),
      (js ''description'', js ''old text'')]"

definition bookStored :: StoredFile where
  "bookStored =
     \<lparr> file_id = js ''file_3'', name = js ''[Dazai Osamu] Ningen Shikkaku.epub'',
       mimeType = js ''application/epub+zip'', properties = bookProperties,
       parents = [js ''file_2''], webContentLink = Some (downloadLink (js ''file_3'')),
       thumbnailLink = None, file_size = Some (js ''3''), content = Some [1, 2, 3] \<rparr>"

definition bookFile :: DriveFile where
  "bookFile = toDriveFile bookStored"

definition mockLibrary :: MockGoogleDriveService where
  "mockLibrary =
     \<lparr> files = [(js ''file_1'', newFolder (js ''file_1'') (js ''MyLibrary'') []),
                (js ''file_2'', newFolder (js ''file_2'') (js ''Dazai Osamu'') [js ''file_1'']),
                (js ''file_3'', bookStored)],
       nextId = 4, myLibraryFolderId = js ''file_1'', shouldFail = False \<rparr>"

definition worldLibrary :: "MockGoogleDriveService world" where
  "worldLibrary = \<lparr> drive = mockLibrary, cacheService = sampleCache, calls = [] \<rparr>"

text \<open>Edits: a new title, a new description, an empty authors field, a new author.\<close>

definition titleOnly :: PartialMetadata where
  "titleOnly = noMetadata \<lparr> p_title := Some (js ''Shayo'') \<rparr>"

definition descriptionOnly :: PartialMetadata where
  "descriptionOnly = noMetadata \<lparr> p_description := Some (js ''new text'') \<rparr>"

definition emptyAuthors :: PartialMetadata where
  "emptyAuthors = noMetadata \<lparr> p_authors := Some [] \<rparr>"

definition newAuthors :: PartialMetadata where
  "newAuthors = noMetadata \<lparr> p_authors := Some (js ''Soseki'') \<rparr>"

text \<open>The property stored in a mock drive under a key of a file.\<close>

definition storedProperty :: "MockGoogleDriveService world \<Rightarrow> jsstring \<Rightarrow> jsstring \<Rightarrow> jsstring option" where
  "storedProperty w fileId key =
     (case propGet (files (drive w)) fileId of
        None \<Rightarrow> None
      | Some file \<Rightarrow> propGet (properties file) key)"

text \<open>The name and the parents stored in a mock drive for a file.\<close>

definition storedName :: "MockGoogleDriveService world \<Rightarrow> jsstring \<Rightarrow> jsstring option" where
  "storedName w fileId = map_option name (propGet (files (drive w)) fileId)"

definition storedParents :: "MockGoogleDriveService world \<Rightarrow> jsstring \<Rightarrow> jsstring list option" where
  "storedParents w fileId = map_option parents (propGet (files (drive w)) fileId)"

text \<open>
  A Calibre library on the mock drive, as the migration tests build one: the source folder
  holds Calibre's database file and two author folders; the first author has three book
  folders (an EPUB and a cover; an EPUB; a metadata document and a PDF), the second has one
  that holds no book file.
\<close>

definition document :: "jsstring \<Rightarrow> jsstring \<Rightarrow> jsstring \<Rightarrow> jsstring \<Rightarrow> bytes \<Rightarrow> StoredFile" where
  "document i fileName mimeType0 parent content0 =
     \<lparr> file_id = i, name = fileName, mimeType = mimeType0, properties = [], parents = [parent],
       webContentLink = None, thumbnailLink = None, file_size = None, content = Some content0 \<rparr>"

text \<open>
  The one metadata document of the library holds an ISBN identifier and nothing else.
  \<open>sampleParser\<close> is what \<open>parseMetadataOpf\<close> returns on it, and on a document without
  elements: every field the empty string, but for the ISBN found.
\<close>

definition sampleOpf :: jsstring where
  "sampleOpf =
     js ''<dc:identifier opf:scheme='' @ [0x22] @ js ''ISBN'' @ [0x22] @
     js ''>9780000000010</dc:identifier>''"

definition parsedNothing :: PartialMetadata where
  "parsedNothing =
     \<lparr> p_isbn = Some [], p_title = Some [], p_authors = Some [], p_publisher = Some [],
       p_publishedDate = Some [], p_description = Some [], p_coverImageUrl = Some [] \<rparr>"

definition sampleParser :: "jsstring \<Rightarrow> PartialMetadata" where
  "sampleParser xml =
     (if xml = sampleOpf then parsedNothing \<lparr> p_isbn := Some (js ''9780000000010'') \<rparr>
      else parsedNothing)"

definition calibre :: MockGoogleDriveService where
  "calibre =
     \<lparr> files =
         [(js ''db'', document (js ''db'') (js ''metadata.db'') (js ''application/octet-stream'')
                       (js ''source'') [0]),
          (js ''af-1'', newFolder (js ''af-1'') (js ''Natsume Soseki'') [js ''source'']),
          (js ''bf-1'', newFolder (js ''bf-1'') (js ''Kokoro (1)'') [js ''af-1'']),
          (js ''epub-1'', document (js ''epub-1'') (js ''Kokoro.epub'') (js ''application/epub+zip'')
                           (js ''bf-1'') [1]),
          (js ''cover-1'', document (js ''cover-1'') (js ''cover.jpg'') (js ''image/jpeg'')
                            (js ''bf-1'') [9]),
          (js ''bf-2'', newFolder (js ''bf-2'') (js ''Botchan (2)'') [js ''af-1'']),
          (js ''epub-2'', document (js ''epub-2'') (js ''Botchan.epub'') (js ''application/epub+zip'')
                           (js ''bf-2'') [2]),
          (js ''bf-3'', newFolder (js ''bf-3'') (js ''Sanshiro (3)'') [js ''af-1'']),
          (js ''opf-3'', document (js ''opf-3'') (js ''metadata.opf'') (js ''text/xml'')
                          (js ''bf-3'') (encode sampleOpf)),
          (js ''pdf-3'', document (js ''pdf-3'') (js ''Sanshiro.PDF'') (js ''application/pdf'')
                          (js ''bf-3'') [3]),
          (js ''af-2'', newFolder (js ''af-2'') (js ''Mori Ogai'') [js ''source'']),
          (js ''bf-4'', newFolder (js ''bf-4'') (js ''Gan (4)'') [js ''af-2'']),
          (js ''txt-4'', document (js ''txt-4'') (js ''notes.txt'') (js ''text/plain'')
                          (js ''bf-4'') [4])],
       nextId = 1, myLibraryFolderId = [], shouldFail = False \<rparr>"

text \<open>
  A state of the world over the library, a migrator over a drive service, and options.
\<close>

definition emptyCache :: CacheService where
  "emptyCache = \<lparr> cache = [], ttl = DEFAULT_TTL \<rparr>"

definition calibreWorld :: "call list \<Rightarrow> MockGoogleDriveService world" where
  "calibreWorld cs = \<lparr> drive = calibre, cacheService = emptyCache, calls = cs \<rparr>"

definition migratorWith ::
  "MockGoogleDriveService GoogleDriveService \<Rightarrow> MockGoogleDriveService CalibreMigrator" where
  "migratorWith service =
     \<lparr> migratorDrive = service,
       bookService = \<lparr> driveService = service, coverFetch = (\<lambda>url. None) \<rparr>,
       parseMetadataOpf = sampleParser \<rparr>"

definition dryOptions :: MigrationOptions where
  "dryOptions = \<lparr> dryRun = Some True, limit = None \<rparr>"


text \<open>The files of the library, as a listing returns them.\<close>

definition dbFile :: DriveFile where
  "dbFile = toDriveFile (document (js ''db'') (js ''metadata.db'') (js ''application/octet-stream'')
                           (js ''source'') [0])"

definition authorFolder1 :: DriveFile where
  "authorFolder1 = toDriveFile (newFolder (js ''af-1'') (js ''Natsume Soseki'') [js ''source''])"

definition authorFolder2 :: DriveFile where
  "authorFolder2 = toDriveFile (newFolder (js ''af-2'') (js ''Mori Ogai'') [js ''source''])"

definition bookFolder1 :: DriveFile where
  "bookFolder1 = toDriveFile (newFolder (js ''bf-1'') (js ''Kokoro (1)'') [js ''af-1''])"

definition bookFolder2 :: DriveFile where
  "bookFolder2 = toDriveFile (newFolder (js ''bf-2'') (js ''Botchan (2)'') [js ''af-1''])"

definition bookFolder3 :: DriveFile where
  "bookFolder3 = toDriveFile (newFolder (js ''bf-3'') (js ''Sanshiro (3)'') [js ''af-1''])"

definition bookFolder4 :: DriveFile where
  "bookFolder4 = toDriveFile (newFolder (js ''bf-4'') (js ''Gan (4)'') [js ''af-2''])"

definition epub1 :: DriveFile where
  "epub1 = toDriveFile (document (js ''epub-1'') (js ''Kokoro.epub'') (js ''application/epub+zip'')
                          (js ''bf-1'') [1])"

definition cover1 :: DriveFile where
  "cover1 = toDriveFile (document (js ''cover-1'') (js ''cover.jpg'') (js ''image/jpeg'')
                           (js ''bf-1'') [9])"

definition epub2 :: DriveFile where
  "epub2 = toDriveFile (document (js ''epub-2'') (js ''Botchan.epub'') (js ''application/epub+zip'')
                          (js ''bf-2'') [2])"

definition opf3 :: DriveFile where
  "opf3 = toDriveFile (document (js ''opf-3'') (js ''metadata.opf'') (js ''text/xml'')
                         (js ''bf-3'') (encode sampleOpf))"

definition pdf3 :: DriveFile where
  "pdf3 = toDriveFile (document (js ''pdf-3'') (js ''Sanshiro.PDF'') (js ''application/pdf'')
                         (js ''bf-3'') [3])"

definition txt4 :: DriveFile where
  "txt4 = toDriveFile (document (js ''txt-4'') (js ''notes.txt'') (js ''text/plain'')
                         (js ''bf-4'') [4])"

text \<open>The details and the calls of the four units in a dry run.\<close>

definition detail1 :: MigrationDetail where
  "detail1 = \<lparr> detail_title = js ''Kokoro (1)'', status = Succeeded, reason = None \<rparr>"

definition detail2 :: MigrationDetail where
  "detail2 = \<lparr> detail_title = js ''Botchan (2)'', status = Succeeded, reason = None \<rparr>"

definition detail3 :: MigrationDetail where
  "detail3 = \<lparr> detail_title = js ''Sanshiro (3)'', status = Succeeded, reason = None \<rparr>"

definition detail4 :: MigrationDetail where
  "detail4 = \<lparr> detail_title = js ''Gan (4)'', status = Skipped, reason = Some noBookFile \<rparr>"

definition calls1 :: "call list" where
  "calls1 = [FindFilesByParent (js ''bf-1'')]"

definition calls3 :: "call list" where
  "calls3 = [FindFilesByParent (js ''bf-3''), GetFileContent (js ''opf-3''),
             FindBookByIsbn (js ''9780000000010'')]"



definition listingError :: exn where
  "listingError = Error (js ''API Error for specific folder'')"

definition partResult :: MigrationResult where
  "partResult = \<lparr> total = 3, succeeded = 3, skipped = 0, errors = 0,
                   details = [detail1, detail2, detail3] \<rparr>"

definition partCalls :: "call list" where
  "partCalls =
     [FindFilesByParent (js ''source''), FindFilesByParent (js ''af-1''),
      FindFilesByParent (js ''bf-1''), FindFilesByParent (js ''bf-2''),
      FindFilesByParent (js ''bf-3''), GetFileContent (js ''opf-3''),
      FindBookByIsbn (js ''9780000000010'')]"

definition listingFails :: "MockGoogleDriveService CalibreMigrator" where
  "listingFails = migratorWith (failingListing (js ''bf-2'') mockService)"






section \<open>Literals\<close>

lemma unat_of_char16: "unat (of_char x :: 16 word) = of_char x"
proof -
  have "(of_char x :: nat) < 2 ^ LENGTH(16)"
    by (rule less_trans [OF nat_of_char_less_256]) simp
  then have "unat (of_nat (of_char x) :: 16 word) = of_char x"
    by (simp add: unat_of_nat)
  then show ?thesis by (simp only: of_nat_of_char)
qed

lemma of_char16_eq_iff: "(of_char c :: 16 word) = of_char d \<longleftrightarrow> c = d"
proof
  assume "(of_char c :: 16 word) = of_char d"
  then have "unat (of_char c :: 16 word) = unat (of_char d :: 16 word)" by simp
  then show "c = d" by (simp add: unat_of_char16)
qed simp

lemma js_eq_iff [simp]: "js a = js b \<longleftrightarrow> a = b"
  unfolding js_def by (rule inj_map_eq_map) (simp add: inj_on_def of_char16_eq_iff)

lemma js_Nil [simp]: "js [] = []"
  by (simp add: js_def)

lemma js_eq_Nil [simp]: "js a = [] \<longleftrightarrow> a = []" "[] = js a \<longleftrightarrow> a = []"
  by (auto simp add: js_def)

lemma js_append: "js (a @ b) = js a @ js b"
  by (simp add: js_def)

lemma length_js [simp]: "length (js a) = length a"
  by (simp add: js_def)

section \<open>Metadata composition: field-level merge\<close>

lemma merge_fields:
  "isbn (merge p s) = isbn p"
  "title (merge p s) = title p"
  "authors (merge p s) = (if authors p \<noteq> [] then authors p else authors s)"
  "publisher (merge p s) = (if publisher p \<noteq> [] then publisher p else publisher s)"
  "publishedDate (merge p s) = (if publishedDate p \<noteq> [] then publishedDate p else publishedDate s)"
  "description (merge p s) = (if description p \<noteq> [] then description p else description s)"
  "coverImageUrl (merge p s) = (if coverImageUrl p \<noteq> [] then coverImageUrl p else coverImageUrl s)"
  by (simp_all add: merge_def orElse_def)

text \<open>What the rest of the loop can do to an accumulator that is already set.\<close>

definition keeps :: "BookMetadata \<Rightarrow> BookMetadata \<Rightarrow> bool" where
  "keeps acc m \<longleftrightarrow>
     isbn m = isbn acc \<and> title m = title acc \<and>
     (authors acc \<noteq> [] \<longrightarrow> authors m = authors acc) \<and>
     (publisher acc \<noteq> [] \<longrightarrow> publisher m = publisher acc) \<and>
     (publishedDate acc \<noteq> [] \<longrightarrow> publishedDate m = publishedDate acc) \<and>
     (description acc \<noteq> [] \<longrightarrow> description m = description acc) \<and>
     (coverImageUrl acc \<noteq> [] \<longrightarrow> coverImageUrl m = coverImageUrl acc)"

lemma keeps_refl: "keeps acc acc"
  by (simp add: keeps_def)

lemma keeps_merge: "keeps acc (merge acc s)"
  by (simp add: keeps_def merge_fields)

lemma keeps_trans: "keeps a b \<Longrightarrow> keeps b c \<Longrightarrow> keeps a c"
  by (auto simp: keeps_def)

lemma fetchLoop_keeps:
  "fetchLoop services isbn0 i (Some acc) q = (r, q') \<Longrightarrow> \<exists>m. r = Some m \<and> keeps acc m"
proof (induction services arbitrary: i acc q)
  case Nil
  then show ?case by (auto simp: keeps_refl)
next
  case (Cons service rest)
  show ?case
  proof (cases "service isbn0")
    case (Inl e)
    with Cons show ?thesis by simp
  next
    case (Inr found)
    show ?thesis
    proof (cases found)
      case None
      with Inr Cons show ?thesis by simp
    next
      case (Some current)
      show ?thesis
      proof (cases "isComplete (merge acc current)")
        case True
        with Inr Some Cons.prems show ?thesis by (auto simp: keeps_merge)
      next
        case False
        with Inr Some Cons.prems
        have "fetchLoop rest isbn0 (Suc i) (Some (merge acc current)) (q @ [i]) = (r, q')"
          by simp
        from Cons.IH [OF this] obtain m where "r = Some m" "keeps (merge acc current) m"
          by blast
        with keeps_trans [OF keeps_merge] show ?thesis by blast
      qed
    qed
  qed
qed

text \<open>
  C1. When \<open>fetchByIsbn\<close> meets a later source with a non-null result while the accumulator
  is set, the accumulator becomes \<open>merge acc current\<close>: \<open>isbn\<close> and \<open>title\<close> are the
  accumulator's, and each of \<open>authors\<close>, \<open>publisher\<close>, \<open>publishedDate\<close>, \<open>description\<close>,
  \<open>coverImageUrl\<close> is the accumulator's value when that is non-empty and the later source's
  value otherwise. Whatever the remaining sources return, the final result keeps \<open>isbn\<close>,
  \<open>title\<close> and every non-empty fill field of the accumulator.
\<close>

theorem C1_merge_only_fills_gaps:
  "service isbn0 = Inr (Some current) \<Longrightarrow>
     fetchLoop (service # rest) isbn0 i (Some acc) q =
       (if isComplete (merge acc current) then (Some (merge acc current), q @ [i])
        else fetchLoop rest isbn0 (Suc i) (Some (merge acc current)) (q @ [i])) \<and>
     isbn (merge acc current) = isbn acc \<and>
     title (merge acc current) = title acc \<and>
     authors (merge acc current) = (if authors acc \<noteq> [] then authors acc else authors current) \<and>
     publisher (merge acc current) =
       (if publisher acc \<noteq> [] then publisher acc else publisher current) \<and>
     publishedDate (merge acc current) =
       (if publishedDate acc \<noteq> [] then publishedDate acc else publishedDate current) \<and>
     description (merge acc current) =
       (if description acc \<noteq> [] then description acc else description current) \<and>
     coverImageUrl (merge acc current) =
       (if coverImageUrl acc \<noteq> [] then coverImageUrl acc else coverImageUrl current) \<and>
     (\<exists>m. fst (fetchLoop (service # rest) isbn0 i (Some acc) q) = Some m \<and> keeps acc m)"
proof -
  assume found: "service isbn0 = Inr (Some current)"
  have step: "fetchLoop (service # rest) isbn0 i (Some acc) q =
       (if isComplete (merge acc current) then (Some (merge acc current), q @ [i])
        else fetchLoop rest isbn0 (Suc i) (Some (merge acc current)) (q @ [i]))"
    using found by simp
  have final: "\<exists>m. fst (fetchLoop (service # rest) isbn0 i (Some acc) q) = Some m \<and> keeps acc m"
    using fetchLoop_keeps [of "service # rest" isbn0 i acc q] by (metis prod.collapse)
  show ?thesis
    using step final by (simp only: merge_fields)
qed

theorem C1_merge_only_fills_gaps_witness:
  "sourceOf sampleB (js ''9784101010014'') = Inr (Some sampleB) \<and>
   fetchLoop [sourceOf sampleB] (js ''9784101010014'') 1 (Some sampleA) [0] =
     (Some (merge sampleA sampleB), [0, 1]) \<and>
   title (merge sampleA sampleB) = js ''Ningen Shikkaku'' \<and>
   authors (merge sampleA sampleB) = js ''Dazai Osamu'' \<and>
   publisher (merge sampleA sampleB) = js ''Shinchosha'' \<and>
   coverImageUrl (merge sampleA sampleB) = js ''http://x/y.jpg''"
proof -
  have found: "sourceOf sampleB (js ''9784101010014'') = Inr (Some sampleB)"
    by (simp add: sourceOf_def sampleB_def)
  have complete: "isComplete (merge sampleA sampleB)"
    by (simp add: isComplete_def merge_fields) (simp add: sampleA_def sampleB_def)
  show ?thesis
    using C1_merge_only_fills_gaps [of "sourceOf sampleB" "js ''9784101010014''" sampleB "[]" 1
        sampleA "[0]"] found complete
    by (simp add: sampleA_def sampleB_def)
qed

section \<open>Metadata composition: completeness short-circuit\<close>

lemma fetchLoop_stops:
  "result = None \<or> (\<exists>r. result = Some r \<and> \<not> isComplete r) \<Longrightarrow>
   fetchLoop pre isbn0 i result q = (Some m, q') \<Longrightarrow> isComplete m \<Longrightarrow>
   fetchLoop (pre @ post) isbn0 i result q = (Some m, q')"
proof (induction pre arbitrary: i result q)
  case Nil
  then show ?case by auto
next
  case (Cons service rest)
  show ?case
  proof (cases "service isbn0")
    case (Inl e)
    with Cons.prems Cons.IH [of result "Suc i" "q @ [i]"] show ?thesis by simp
  next
    case (Inr found)
    show ?thesis
    proof (cases found)
      case None
      with Inr Cons.prems Cons.IH [of result "Suc i" "q @ [i]"] show ?thesis by simp
    next
      case (Some current)
      define result' where "result' = (case result of None \<Rightarrow> current | Some r \<Rightarrow> merge r current)"
      show ?thesis
      proof (cases "isComplete result'")
        case True
        with Inr Some Cons.prems(2) show ?thesis by (simp add: result'_def)
      next
        case False
        with Inr Some Cons.prems(2)
        have run: "fetchLoop rest isbn0 (Suc i) (Some result') (q @ [i]) = (Some m, q')"
          by (simp add: result'_def)
        from False have "Some result' = None \<or> (\<exists>r. Some result' = Some r \<and> \<not> isComplete r)"
          by simp
        from Cons.IH [OF this run Cons.prems(3)] False Inr Some show ?thesis
          by (simp add: result'_def)
      qed
    qed
  qed
qed

lemma fetchLoop_queried:
  "fetchLoop services isbn0 i result q = (r, q') \<Longrightarrow>
   \<exists>k\<le>length services. q' = q @ [i..<i + k]"
proof (induction services arbitrary: i result q)
  case Nil
  then show ?case by simp
next
  case (Cons service rest)
  have ext: "\<exists>k\<le>Suc (length rest). q' = q @ [i..<i + k]"
    if "fetchLoop rest isbn0 (Suc i) res (q @ [i]) = (r, q')" for res
  proof -
    from Cons.IH [OF that] obtain k where "k \<le> length rest" "q' = (q @ [i]) @ [Suc i..<Suc i + k]"
      by blast
    then have "Suc k \<le> Suc (length rest)" "q' = q @ [i..<i + Suc k]"
      by (simp_all add: upt_rec [of i])
    then show ?thesis by blast
  qed
  have one: "\<exists>k\<le>Suc (length rest). q @ [i] = q @ [i..<i + k]"
    by (rule exI [of _ 1]) simp
  from Cons.prems show ?case
    by (auto simp: Let_def one split: sum.splits option.splits if_splits intro: ext)
qed

text \<open>
  C5. Once the result accumulated over a prefix of the source list is complete (all five
  fill fields non-empty), the lookup over any longer list is the lookup over that prefix:
  the same result, and only positions of the prefix among the sources queried. In
  particular a complete first source keeps the second source from being called.
\<close>

theorem C5_complete_stops_querying:
  "(fetchByIsbn pre isbn0 = (Some m, q) \<and> isComplete m \<longrightarrow>
      fetchByIsbn (pre @ post) isbn0 = (Some m, q) \<and> (\<forall>j\<in>set q. j < length pre)) \<and>
   (first isbn0 = Inr (Some m') \<and> isComplete m' \<longrightarrow>
      fetchByIsbn (first # second # rest) isbn0 = (Some m', [0]))"
proof (intro conjI impI)
  assume a: "fetchByIsbn pre isbn0 = (Some m, q) \<and> isComplete m"
  then show "fetchByIsbn (pre @ post) isbn0 = (Some m, q)"
    unfolding fetchByIsbn_def using fetchLoop_stops [of None pre isbn0 0 "[]" m q post] by simp
  from a fetchLoop_queried [of pre isbn0 0 None "[]" "Some m" q]
  show "\<forall>j\<in>set q. j < length pre"
    unfolding fetchByIsbn_def by auto
next
  assume "first isbn0 = Inr (Some m') \<and> isComplete m'"
  then show "fetchByIsbn (first # second # rest) isbn0 = (Some m', [0])"
    by (simp add: fetchByIsbn_def)
qed

theorem C5_complete_stops_querying_witness:
  "fetchByIsbn [sourceOf sampleA, sourceOf sampleB] (js ''9784101010014'') =
     (Some (merge sampleA sampleB), [0, 1]) \<and>
   isComplete (merge sampleA sampleB) \<and>
   fetchByIsbn ([sourceOf sampleA, sourceOf sampleB] @ [failingSource]) (js ''9784101010014'') =
     (Some (merge sampleA sampleB), [0, 1]) \<and>
   sourceOf sampleComplete (js ''9784101010014'') = Inr (Some sampleComplete) \<and>
   isComplete sampleComplete \<and>
   fetchByIsbn [sourceOf sampleComplete, sourceOf sampleB] (js ''9784101010014'') =
     (Some sampleComplete, [0])"
proof -
  have c1: "isComplete (merge sampleA sampleB)"
    by (simp add: isComplete_def merge_fields) (simp add: sampleA_def sampleB_def)
  have n1: "\<not> isComplete sampleA"
    by (simp add: isComplete_def sampleA_def)
  have r1: "fetchByIsbn [sourceOf sampleA, sourceOf sampleB] (js ''9784101010014'') =
     (Some (merge sampleA sampleB), [0, 1])"
    using c1 n1 by (simp add: fetchByIsbn_def sourceOf_def) (simp add: sampleA_def sampleB_def)
  have c2: "isComplete sampleComplete"
    by (simp add: isComplete_def sampleComplete_def)
  have f2: "sourceOf sampleComplete (js ''9784101010014'') = Inr (Some sampleComplete)"
    by (simp add: sourceOf_def sampleComplete_def)
  show ?thesis
    using C5_complete_stops_querying [of "[sourceOf sampleA, sourceOf sampleB]"
        "js ''9784101010014''" "merge sampleA sampleB" "[0, 1]" "[failingSource]"
        "sourceOf sampleComplete" sampleComplete "sourceOf sampleB" "[]"] r1 c1 c2 f2
    by simp
qed


section \<open>The property codec: bytes and scalar values\<close>

lemma and_push_bit_nat: "(n::nat) AND push_bit k m = push_bit k (drop_bit k n AND m)"
  by (rule bit_eqI) (auto simp: bit_simps)

lemma and_3_nat: "(q::nat) AND 3 = q mod 4"
proof -
  have "(3::nat) = mask 2" by (simp add: mask_eq_exp_minus_1)
  then have "q AND 3 = take_bit 2 q" by (simp add: take_bit_eq_mask)
  then show ?thesis by (simp add: take_bit_eq_mod)
qed

lemma and_192_nat: "(n::nat) AND 192 = 64 * (n div 64 mod 4)"
proof -
  have "n AND push_bit 6 3 = push_bit 6 (drop_bit 6 n AND 3)"
    by (rule and_push_bit_nat)
  moreover have "push_bit 6 (3::nat) = 192" by simp
  moreover have "push_bit 6 (drop_bit 6 n AND 3) = 64 * (n div 64 mod 4)"
    by (simp only: and_3_nat push_bit_eq_mult drop_bit_eq_div) simp
  ultimately show ?thesis by (simp only:)
qed

lemma and_C0_iff: "((b::8 word) AND 0xC0 = 0x80) \<longleftrightarrow> (0x80 \<le> unat b \<and> unat b < 0xC0)"
proof -
  have lt: "unat b < 256" using unsigned_less [of b] by simp
  then have "unat b div 64 < 4" by arith
  then have m: "unat b div 64 mod 4 = unat b div 64" by simp
  have "(b AND 0xC0 = 0x80) \<longleftrightarrow> (unat (b AND 0xC0) = unat (0x80 :: 8 word))"
    by (simp only: word_unat_eq_iff)
  also have "\<dots> \<longleftrightarrow> (unat b AND 192 = 128)"
    by (simp add: unsigned_and_eq)
  also have "\<dots> \<longleftrightarrow> (unat b div 64 = 2)"
    by (simp only: and_192_nat m) arith
  also have "\<dots> \<longleftrightarrow> (0x80 \<le> unat b \<and> unat b < 0xC0)"
    by arith
  finally show ?thesis .
qed

lemma unat_of_nat8: "x < 256 \<Longrightarrow> unat (of_nat x :: 8 word) = x"
  by (simp add: unat_of_nat)

lemma unat_of_nat16: "x < 65536 \<Longrightarrow> unat (of_nat x :: 16 word) = x"
  by (simp add: unat_of_nat)


lemma high_iff: "isHighSurrogate u \<longleftrightarrow> 0xD800 \<le> unat u \<and> unat u \<le> 0xDBFF"
  by (simp add: isHighSurrogate_def word_le_nat_alt)

lemma low_iff: "isLowSurrogate u \<longleftrightarrow> 0xDC00 \<le> unat u \<and> unat u \<le> 0xDFFF"
  by (simp add: isLowSurrogate_def word_le_nat_alt)

lemma unat16_lt: "unat (u :: 16 word) < 65536"
  using unsigned_less [of u] by simp

lemma pair_scalar:
  assumes "isHighSurrogate u" "isLowSurrogate l"
  shows "isScalar (0x10000 + (unat u - 0xD800) * 0x400 + (unat l - 0xDC00))"
proof -
  from assms have a: "unat u - 0xD800 \<le> 0x3FF" and b: "unat l - 0xDC00 \<le> 0x3FF"
    unfolding high_iff low_iff by linarith+
  from a have "(unat u - 0xD800) * 0x400 \<le> 0x3FF * 0x400"
    by (rule mult_le_mono1)
  with b have "0x10000 + (unat u - 0xD800) * 0x400 + (unat l - 0xDC00) \<le> 0x10FFFF"
    by linarith
  moreover have "0x10000 \<le> 0x10000 + (unat u - 0xD800) * 0x400 + (unat l - 0xDC00)"
    by simp
  ultimately show ?thesis
    unfolding isScalar_def by linarith
qed

lemma replacement_scalar: "isScalar 0xFFFD"
  by (simp add: isScalar_def)

lemma unit_scalar: "\<not> isHighSurrogate u \<Longrightarrow> \<not> isLowSurrogate u \<Longrightarrow> isScalar (unat u)"
  using unat16_lt [of u] unfolding isScalar_def high_iff low_iff by linarith

lemma toScalars_scalar: "c \<in> set (toScalars s) \<Longrightarrow> isScalar c"
proof (induction s arbitrary: c rule: toScalars.induct)
  case 1
  then show ?case by simp
next
  case (2 u)
  then have "c = 0xFFFD \<or> (\<not> isHighSurrogate u \<and> \<not> isLowSurrogate u \<and> c = unat u)"
    by (simp split: if_splits)
  then show ?case
    using replacement_scalar unit_scalar by blast
next
  case (3 u l rest)
  consider (pair) "isHighSurrogate u \<and> isLowSurrogate l"
    | (lone) "\<not> (isHighSurrogate u \<and> isLowSurrogate l)" "isHighSurrogate u \<or> isLowSurrogate u"
    | (unit) "\<not> (isHighSurrogate u \<and> isLowSurrogate l)" "\<not> (isHighSurrogate u \<or> isLowSurrogate u)"
    by blast
  then show ?case
  proof cases
    case pair
    with "3.prems"
    have "c = 0x10000 + (unat u - 0xD800) * 0x400 + (unat l - 0xDC00) \<or> c \<in> set (toScalars rest)"
      by simp
    then show ?thesis
      using pair pair_scalar [of u l] "3.IH"(1) [OF pair] by blast
  next
    case lone
    with "3.prems" have "c = 0xFFFD \<or> c \<in> set (toScalars (l # rest))"
      by simp
    then show ?thesis
      using replacement_scalar "3.IH"(2) [OF lone] by blast
  next
    case unit
    with "3.prems" have "c = unat u \<or> c \<in> set (toScalars (l # rest))"
      by simp
    then show ?thesis
      using unit unit_scalar [of u] "3.IH"(3) [OF unit] by blast
  qed
qed


lemma cont_byte: "unat (of_nat (0x80 + x mod 64) :: 8 word) = 0x80 + x mod 64"
proof -
  have "x mod 64 < 64" by simp
  then have "0x80 + x mod 64 < 256" by linarith
  then show ?thesis by (rule unat_of_nat8)
qed

lemma unat_utf8Bytes:
  assumes "c < 0x110000"
  shows "map unat (utf8Bytes c) = natBytes c"
proof -
  consider "c < 0x80" | "\<not> c < 0x80" "c < 0x800" | "\<not> c < 0x80" "\<not> c < 0x800" "c < 0x10000"
    | "\<not> c < 0x80" "\<not> c < 0x800" "\<not> c < 0x10000"
    by linarith
  then show ?thesis
  proof cases
    case 1
    then have "c < 256" by linarith
    then have "unat (of_nat c :: 8 word) = c" by (rule unat_of_nat8)
    with 1 show ?thesis by (simp only: utf8Bytes_def natBytes_def if_True list.map)
  next
    case 2
    then have "c div 64 < 32" by linarith
    then have "0xC0 + c div 64 < 256" by linarith
    then have "unat (of_nat (0xC0 + c div 64) :: 8 word) = 0xC0 + c div 64" by (rule unat_of_nat8)
    with 2 show ?thesis
      by (simp only: utf8Bytes_def natBytes_def if_True if_False list.map cont_byte)
  next
    case 3
    then have "c div 4096 < 16" by linarith
    then have "0xE0 + c div 4096 < 256" by linarith
    then have "unat (of_nat (0xE0 + c div 4096) :: 8 word) = 0xE0 + c div 4096" by (rule unat_of_nat8)
    with 3 show ?thesis
      by (simp only: utf8Bytes_def natBytes_def if_True if_False list.map cont_byte)
  next
    case 4
    with assms have "c div 262144 < 5" by linarith
    then have "0xF0 + c div 262144 < 256" by linarith
    then have "unat (of_nat (0xF0 + c div 262144) :: 8 word) = 0xF0 + c div 262144"
      by (rule unat_of_nat8)
    with 4 show ?thesis
      by (simp only: utf8Bytes_def natBytes_def if_True if_False list.map cont_byte)
  qed
qed

lemma mod_facts:
  "r < 64 \<Longrightarrow> (128 + r) mod 64 = (r::nat)"
  "q < 32 \<Longrightarrow> (192 + q) mod 32 = (q::nat)"
  "p < 16 \<Longrightarrow> (224 + p) mod 16 = (p::nat)"
  "o' < 8 \<Longrightarrow> (240 + o') mod 8 = (o'::nat)"
proof -
  have "(64 * 2 + r) mod 64 = r mod 64" by (rule mod_mult_self4)
  then show "r < 64 \<Longrightarrow> (128 + r) mod 64 = r" by simp
  have "(32 * 6 + q) mod 32 = q mod 32" by (rule mod_mult_self4)
  then show "q < 32 \<Longrightarrow> (192 + q) mod 32 = q" by simp
  have "(16 * 14 + p) mod 16 = p mod 16" by (rule mod_mult_self4)
  then show "p < 16 \<Longrightarrow> (224 + p) mod 16 = p" by simp
  have "(8 * 30 + o') mod 8 = o' mod 8" by (rule mod_mult_self4)
  then show "o' < 8 \<Longrightarrow> (240 + o') mod 8 = o'" by simp
qed

lemma lead_step:
  "bytesNeeded st = 0 \<Longrightarrow>
   utf8Decode st (b # bs) = fst (leadByte b) @ utf8Decode (snd (leadByte b)) bs"
  by simp

lemma cont_step_more:
  "bytesNeeded st \<noteq> 0 \<Longrightarrow> lowerBoundary st \<le> b \<Longrightarrow> b \<le> upperBoundary st \<Longrightarrow>
   Suc (bytesSeen st) \<noteq> bytesNeeded st \<Longrightarrow>
   utf8Decode st (b # bs) =
     utf8Decode (st \<lparr> codePoint := codePoint st * 64 + b mod 64, bytesSeen := Suc (bytesSeen st),
                       lowerBoundary := 0x80, upperBoundary := 0xBF \<rparr>) bs"
  by simp

lemma cont_step_last:
  "bytesNeeded st \<noteq> 0 \<Longrightarrow> lowerBoundary st \<le> b \<Longrightarrow> b \<le> upperBoundary st \<Longrightarrow>
   Suc (bytesSeen st) = bytesNeeded st \<Longrightarrow>
   utf8Decode st (b # bs) = (codePoint st * 64 + b mod 64) # utf8Decode initialState bs"
  by simp

lemma dec1: "c < 0x80 \<Longrightarrow> utf8Decode initialState (c # rest) = c # utf8Decode initialState rest"
proof -
  assume "c < 0x80"
  then have "c \<le> 0x7F" by linarith
  then have l: "leadByte c = ([c], initialState)" by (simp only: leadByte_def if_True)
  have "bytesNeeded initialState = 0" by (simp add: initialState_def)
  then have "utf8Decode initialState (c # rest) = fst (leadByte c) @ utf8Decode (snd (leadByte c)) rest"
    by simp
  then show ?thesis by (simp only: l fst_conv snd_conv append_Cons append_Nil)
qed

lemma dec2:
  assumes "2 \<le> q" "q < 32" "r < 64"
  shows "utf8Decode initialState ((192 + q) # (128 + r) # rest) =
           (q * 64 + r) # utf8Decode initialState rest"
proof -
  define st where "st = initialState \<lparr> bytesNeeded := 1, codePoint := q \<rparr>"
  have l: "leadByte (192 + q) = ([], st)"
    using assms by (simp add: leadByte_def mod_facts st_def)
  have s1: "utf8Decode initialState ((192 + q) # (128 + r) # rest) = utf8Decode st ((128 + r) # rest)"
    by (subst lead_step) (simp_all add: l initialState_def)
  have s2: "utf8Decode st ((128 + r) # rest) = (codePoint st * 64 + (128 + r) mod 64) # utf8Decode initialState rest"
    using assms by (intro cont_step_last) (simp_all add: st_def initialState_def)
  show ?thesis
    using assms by (simp only: s1 s2 mod_facts) (simp add: st_def)
qed
lemma dec3:
  assumes "p < 16" "q < 64" "r < 64" "p = 0 \<longrightarrow> 32 \<le> q" "p = 13 \<longrightarrow> q < 32"
  shows "utf8Decode initialState ((224 + p) # (128 + q) # (128 + r) # rest) =
           ((p * 64 + q) * 64 + r) # utf8Decode initialState rest"
proof -
  define st where "st = initialState \<lparr> bytesNeeded := 2, codePoint := p,
             lowerBoundary := (if p = 0 then 0xA0 else 0x80),
             upperBoundary := (if p = 13 then 0x9F else 0xBF) \<rparr>"
  define st2 where "st2 = st \<lparr> codePoint := p * 64 + q, bytesSeen := Suc 0,
             lowerBoundary := 0x80, upperBoundary := 0xBF \<rparr>"
  have l: "leadByte (224 + p) = ([], st)"
    using assms(1) by (simp add: leadByte_def mod_facts st_def)
  have s1: "utf8Decode initialState ((224 + p) # (128 + q) # (128 + r) # rest) =
      utf8Decode st ((128 + q) # (128 + r) # rest)"
    by (subst lead_step) (simp_all add: l initialState_def)
  have lo: "lowerBoundary st \<le> 128 + q" using assms(4) by (auto simp: st_def initialState_def)
  have hi: "128 + q \<le> upperBoundary st" using assms(2,5) by (auto simp: st_def initialState_def)
  have s2: "utf8Decode st ((128 + q) # (128 + r) # rest) = utf8Decode st2 ((128 + r) # rest)"
    by (subst cont_step_more [OF _ lo hi]) (simp_all add: st_def st2_def initialState_def mod_facts assms)
  have s3: "utf8Decode st2 ((128 + r) # rest) =
      (codePoint st2 * 64 + (128 + r) mod 64) # utf8Decode initialState rest"
    using assms(3) by (intro cont_step_last) (simp_all add: st_def st2_def initialState_def)
  show ?thesis
    using assms(3) by (simp only: s1 s2 s3 mod_facts) (simp add: st2_def)
qed
lemma dec4:
  assumes "o' < 5" "p < 64" "q < 64" "r < 64" "o' = 0 \<longrightarrow> 16 \<le> p" "o' = 4 \<longrightarrow> p < 16"
  shows "utf8Decode initialState ((240 + o') # (128 + p) # (128 + q) # (128 + r) # rest) =
           (((o' * 64 + p) * 64 + q) * 64 + r) # utf8Decode initialState rest"
proof -
  define st where "st = initialState \<lparr> bytesNeeded := 3, codePoint := o',
             lowerBoundary := (if o' = 0 then 0x90 else 0x80),
             upperBoundary := (if o' = 4 then 0x8F else 0xBF) \<rparr>"
  define st2 where "st2 = st \<lparr> codePoint := o' * 64 + p, bytesSeen := Suc 0,
             lowerBoundary := 0x80, upperBoundary := 0xBF \<rparr>"
  define st3 where "st3 = st2 \<lparr> codePoint := (o' * 64 + p) * 64 + q, bytesSeen := Suc (Suc 0),
             lowerBoundary := 0x80, upperBoundary := 0xBF \<rparr>"
  have o8: "o' < 8" using assms(1) by linarith
  have l: "leadByte (240 + o') = ([], st)"
    using assms(1) by (simp add: leadByte_def mod_facts(4) [OF o8] st_def)
  have s1: "utf8Decode initialState ((240 + o') # (128 + p) # (128 + q) # (128 + r) # rest) =
      utf8Decode st ((128 + p) # (128 + q) # (128 + r) # rest)"
    by (subst lead_step) (simp_all add: l initialState_def)
  have lo: "lowerBoundary st \<le> 128 + p" using assms(5) by (auto simp: st_def initialState_def)
  have hi: "128 + p \<le> upperBoundary st" using assms(2,6) by (auto simp: st_def initialState_def)
  have s2: "utf8Decode st ((128 + p) # (128 + q) # (128 + r) # rest) =
      utf8Decode st2 ((128 + q) # (128 + r) # rest)"
    by (subst cont_step_more [OF _ lo hi]) (simp_all add: st_def st2_def initialState_def mod_facts assms)
  have lo2: "lowerBoundary st2 \<le> 128 + q" by (simp add: st2_def)
  have hi2: "128 + q \<le> upperBoundary st2" using assms(3) by (simp add: st2_def)
  have s3: "utf8Decode st2 ((128 + q) # (128 + r) # rest) = utf8Decode st3 ((128 + r) # rest)"
    by (subst cont_step_more [OF _ lo2 hi2]) (simp_all add: st_def st2_def st3_def initialState_def mod_facts assms)
  have s4: "utf8Decode st3 ((128 + r) # rest) =
      (codePoint st3 * 64 + (128 + r) mod 64) # utf8Decode initialState rest"
    using assms(4) by (intro cont_step_last) (simp_all add: st_def st2_def st3_def initialState_def)
  show ?thesis
    using assms(4) by (simp only: s1 s2 s3 s4 mod_facts) (simp add: st3_def)
qed

lemma decomp64: "(c::nat) div 64 * 64 + c mod 64 = c"
  by (rule div_mult_mod_eq)
lemma div4096: "(c::nat) div 4096 = c div 64 div 64"
  by (simp add: div_mult2_eq [symmetric])
lemma div262144: "(c::nat) div 262144 = c div 64 div 64 div 64"
  by (simp add: div_mult2_eq [symmetric])
lemma decomp3: "((c div 4096 * 64 + c div 64 mod 64) * 64 + c mod 64) = (c::nat)"
  by (simp only: div4096 div_mult_mod_eq)
lemma decomp4: "(((c div 262144 * 64 + c div 4096 mod 64) * 64 + c div 64 mod 64) * 64 + c mod 64) = (c::nat)"
  by (simp only: div262144 div4096 div_mult_mod_eq)

text \<open>Bounds of the pieces of a scalar value.\<close>
lemma piece2: "0x80 \<le> c \<Longrightarrow> c < 0x800 \<Longrightarrow> 2 \<le> c div 64 \<and> c div 64 < (32::nat)"
  by linarith
lemma piece3:
  assumes "0x800 \<le> c" "c < 0x10000" "\<not> (0xD800 \<le> c \<and> c \<le> 0xDFFF)"
  shows "c div 4096 < (16::nat)" "c div 4096 = 0 \<longrightarrow> 32 \<le> c div 64 mod 64"
    "c div 4096 = 13 \<longrightarrow> c div 64 mod 64 < 32"
proof -
  show "c div 4096 < 16" using assms by linarith
  show "c div 4096 = 0 \<longrightarrow> 32 \<le> c div 64 mod 64"
  proof
    assume "c div 4096 = 0"
    then have "c div 64 div 64 = 0" by (simp only: div4096)
    then have "c div 64 < 64" by linarith
    then have "c div 64 mod 64 = c div 64" by simp
    moreover from assms(1) have "32 \<le> c div 64" by linarith
    ultimately show "32 \<le> c div 64 mod 64" by simp
  qed
  show "c div 4096 = 13 \<longrightarrow> c div 64 mod 64 < 32"
  proof
    assume a: "c div 4096 = 13"
    then have "c div 64 div 64 = 13" by (simp only: div4096)
    then have "c div 64 = 13 * 64 + c div 64 mod 64"
      using div_mult_mod_eq [of "c div 64" 64] by linarith
    moreover from a have "0xD000 \<le> c" by linarith
    with assms(3) a have "c < 0xD800" by linarith
    then have "c div 64 < 864" by linarith
    ultimately show "c div 64 mod 64 < 32" by linarith
  qed
qed
lemma piece4:
  assumes "0x10000 \<le> c" "c < 0x110000"
  shows "c div 262144 < (5::nat)" "c div 262144 = 0 \<longrightarrow> 16 \<le> c div 4096 mod 64"
    "c div 262144 = 4 \<longrightarrow> c div 4096 mod 64 < 16"
proof -
  show "c div 262144 < 5" using assms by linarith
  have d: "c div 262144 = c div 4096 div 64" by (simp add: div_mult2_eq [symmetric])
  show "c div 262144 = 0 \<longrightarrow> 16 \<le> c div 4096 mod 64"
  proof
    assume "c div 262144 = 0"
    then have "c div 4096 div 64 = 0" by (simp only: d)
    then have "c div 4096 < 64" by linarith
    then have "c div 4096 mod 64 = c div 4096" by simp
    moreover from assms(1) have "16 \<le> c div 4096" by linarith
    ultimately show "16 \<le> c div 4096 mod 64" by simp
  qed
  show "c div 262144 = 4 \<longrightarrow> c div 4096 mod 64 < 16"
  proof
    assume a: "c div 262144 = 4"
    then have "c div 4096 div 64 = 4" by (simp only: d)
    then have "c div 4096 = 4 * 64 + c div 4096 mod 64"
      using div_mult_mod_eq [of "c div 4096" 64] by linarith
    moreover from assms(2) have "c div 4096 < 272" by linarith
    ultimately show "c div 4096 mod 64 < 16" by linarith
  qed
qed


lemma decode_natBytes:
  assumes "isScalar c"
  shows "utf8Decode initialState (natBytes c @ rest) = c # utf8Decode initialState rest"
proof -
  from assms have lt: "c < 0x110000" and ns: "\<not> (0xD800 \<le> c \<and> c \<le> 0xDFFF)"
    by (simp_all add: isScalar_def)
  consider "c < 0x80" | "\<not> c < 0x80" "c < 0x800" | "\<not> c < 0x80" "\<not> c < 0x800" "c < 0x10000"
    | "\<not> c < 0x80" "\<not> c < 0x800" "\<not> c < 0x10000"
    by linarith
  then show ?thesis
  proof cases
    case 1
    then show ?thesis by (simp only: natBytes_def if_True append_Cons append_Nil dec1)
  next
    case 2
    then have "0x80 \<le> c" by linarith
    from piece2 [OF this 2(2)] have b: "2 \<le> c div 64" "c div 64 < 32" by simp_all
    have r: "c mod 64 < 64" by simp
    have "utf8Decode initialState ((192 + c div 64) # (128 + c mod 64) # rest) =
        (c div 64 * 64 + c mod 64) # utf8Decode initialState rest"
      by (rule dec2 [OF b r])
    with 2 show ?thesis
      by (simp only: natBytes_def if_True if_False append_Cons append_Nil decomp64)
  next
    case 3
    then have lo: "0x800 \<le> c" by linarith
    note p = piece3 [OF lo 3(3) ns]
    have q: "c div 64 mod 64 < 64" and r: "c mod 64 < 64" by simp_all
    have "utf8Decode initialState
        ((224 + c div 4096) # (128 + c div 64 mod 64) # (128 + c mod 64) # rest) =
        ((c div 4096 * 64 + c div 64 mod 64) * 64 + c mod 64) # utf8Decode initialState rest"
      by (rule dec3 [OF p(1) q r p(2) p(3)])
    with 3 show ?thesis
      by (simp only: natBytes_def if_True if_False append_Cons append_Nil decomp3)
  next
    case 4
    then have lo: "0x10000 \<le> c" by linarith
    note p = piece4 [OF lo lt]
    have p': "c div 4096 mod 64 < 64" and q: "c div 64 mod 64 < 64" and r: "c mod 64 < 64"
      by simp_all
    have "utf8Decode initialState
        ((240 + c div 262144) # (128 + c div 4096 mod 64) # (128 + c div 64 mod 64) #
         (128 + c mod 64) # rest) =
        (((c div 262144 * 64 + c div 4096 mod 64) * 64 + c div 64 mod 64) * 64 + c mod 64) #
          utf8Decode initialState rest"
      by (rule dec4 [OF p(1) p' q r p(2) p(3)])
    with 4 show ?thesis
      by (simp only: natBytes_def if_True if_False append_Cons append_Nil decomp4)
  qed
qed

lemma decode_encode:
  "\<forall>c\<in>set cs. isScalar c \<Longrightarrow> utf8Decode initialState (map unat (utf8Encode cs)) = cs"
proof (induction cs)
  case Nil
  then show ?case by (simp add: utf8Encode_def initialState_def)
next
  case (Cons c cs)
  then have sc: "isScalar c" and rest: "\<forall>c\<in>set cs. isScalar c" by simp_all
  from sc have lt: "c < 0x110000" by (simp add: isScalar_def)
  have "map unat (utf8Encode (c # cs)) = natBytes c @ map unat (utf8Encode cs)"
    by (simp add: utf8Encode_def unat_utf8Bytes [OF lt])
  then show ?case
    by (simp only: decode_natBytes [OF sc] Cons.IH [OF rest])
qed


lemma high_of_nat: "x < 65536 \<Longrightarrow> isHighSurrogate (of_nat x) \<longleftrightarrow> 0xD800 \<le> x \<and> x \<le> 0xDBFF"
  by (simp only: high_iff unat_of_nat16)

lemma low_of_nat: "x < 65536 \<Longrightarrow> isLowSurrogate (of_nat x) \<longleftrightarrow> 0xDC00 \<le> x \<and> x \<le> 0xDFFF"
  by (simp only: low_iff unat_of_nat16)

lemma toScalars_unit:
  assumes "\<not> isHighSurrogate u" "\<not> isLowSurrogate u"
  shows "toScalars (u # s) = unat u # toScalars s"
  using assms by (cases s) simp_all

lemma toScalars_pair:
  assumes "isHighSurrogate u" "isLowSurrogate l"
  shows "toScalars (u # l # s) = (0x10000 + (unat u - 0xD800) * 0x400 + (unat l - 0xDC00)) # toScalars s"
  using assms by simp

lemma toScalars_codeUnits:
  assumes "isScalar c"
  shows "toScalars (codeUnits c @ s) = c # toScalars s"
proof (cases "c < 0x10000")
  case True
  then have lt: "c < 65536" by simp
  from assms have ns: "\<not> (0xD800 \<le> c \<and> c \<le> 0xDFFF)" by (simp add: isScalar_def)
  have nh: "\<not> isHighSurrogate (of_nat c)"
    unfolding high_of_nat [OF lt] using ns by linarith
  have nl: "\<not> isLowSurrogate (of_nat c)"
    unfolding low_of_nat [OF lt] using ns by linarith
  have "toScalars (of_nat c # s) = unat (of_nat c :: 16 word) # toScalars s"
    by (rule toScalars_unit [OF nh nl])
  with True lt show ?thesis
    by (simp only: codeUnits_def if_True append_Cons append_Nil unat_of_nat16)
next
  case False
  from assms have hi: "c < 0x110000" by (simp add: isScalar_def)
  define d where "d = c - 0x10000"
  from False hi have d: "d < 0x100000" and c: "c = 0x10000 + d"
    unfolding d_def by linarith+
  have q: "d div 0x400 < 0x400" using d by linarith
  have r: "d mod 0x400 < 0x400" by simp
  have hlt: "0xD800 + d div 0x400 < 65536" using q by linarith
  have llt: "0xDC00 + d mod 0x400 < 65536" using r by linarith
  have h: "isHighSurrogate (of_nat (0xD800 + d div 0x400))"
    unfolding high_of_nat [OF hlt] using q by linarith
  have l: "isLowSurrogate (of_nat (0xDC00 + d mod 0x400))"
    unfolding low_of_nat [OF llt] using r by linarith
  have "toScalars (of_nat (0xD800 + d div 0x400) # of_nat (0xDC00 + d mod 0x400) # s) =
      (0x10000 + (unat (of_nat (0xD800 + d div 0x400) :: 16 word) - 0xD800) * 0x400 +
        (unat (of_nat (0xDC00 + d mod 0x400) :: 16 word) - 0xDC00)) # toScalars s"
    by (rule toScalars_pair [OF h l])
  also have "\<dots> = (0x10000 + d div 0x400 * 0x400 + d mod 0x400) # toScalars s"
    by (simp only: unat_of_nat16 [OF hlt] unat_of_nat16 [OF llt] add_diff_cancel_left')
  also have "\<dots> = c # toScalars s"
    using div_mult_mod_eq [of d "0x400"] c by (simp only: add.assoc)
  finally show ?thesis
    using False by (simp only: codeUnits_def if_False append_Cons append_Nil d_def)
qed

lemma toScalars_fromScalars:
  "\<forall>c\<in>set cs. isScalar c \<Longrightarrow> toScalars (fromScalars cs) = cs"
proof (induction cs)
  case Nil
  then show ?case by (simp add: fromScalars_def)
next
  case (Cons c cs)
  then have sc: "isScalar c" and rest: "\<forall>c\<in>set cs. isScalar c" by simp_all
  have "fromScalars (c # cs) = codeUnits c @ fromScalars cs"
    by (simp add: fromScalars_def)
  then show ?case
    by (simp only: toScalars_codeUnits [OF sc] Cons.IH [OF rest])
qed



lemma cont_word: "(of_nat (0x80 + x mod 64) :: 8 word) AND 0xC0 = 0x80"
proof -
  have "x mod 64 < 64" by simp
  then have "0x80 \<le> 0x80 + x mod 64 \<and> 0x80 + x mod 64 < 0xC0" by linarith
  then show ?thesis by (simp only: and_C0_iff cont_byte)
qed

lemma tl_utf8Bytes: "b \<in> set (tl (utf8Bytes c)) \<Longrightarrow> b AND 0xC0 = 0x80"
proof -
  assume a: "b \<in> set (tl (utf8Bytes c))"
  consider "c < 0x80" | "\<not> c < 0x80" "c < 0x800" | "\<not> c < 0x80" "\<not> c < 0x800" "c < 0x10000"
    | "\<not> c < 0x80" "\<not> c < 0x800" "\<not> c < 0x10000"
    by linarith
  then show ?thesis
  proof cases
    case 1
    with a show ?thesis by (simp only: utf8Bytes_def if_True list.sel list.set empty_iff)
  next
    case 2
    with a have "b = of_nat (0x80 + c mod 64)"
      by (simp only: utf8Bytes_def if_True if_False list.sel list.set insert_iff empty_iff simp_thms)
    then show ?thesis by (simp only: cont_word)
  next
    case 3
    with a have "b = of_nat (0x80 + c div 64 mod 64) \<or> b = of_nat (0x80 + c mod 64)"
      by (simp only: utf8Bytes_def if_True if_False list.sel list.set insert_iff empty_iff simp_thms)
    then show ?thesis by (auto simp only: cont_word)
  next
    case 4
    with a have "b = of_nat (0x80 + c div 4096 mod 64) \<or> b = of_nat (0x80 + c div 64 mod 64) \<or>
        b = of_nat (0x80 + c mod 64)"
      by (simp only: utf8Bytes_def if_True if_False list.sel list.set insert_iff empty_iff simp_thms)
    then show ?thesis by (auto simp only: cont_word)
  qed
qed

lemma utf8Bytes_nonempty: "utf8Bytes c \<noteq> []"
  by (simp add: utf8Bytes_def)

lemma utf8Encode_Cons: "utf8Encode (c # cs) = utf8Bytes c @ utf8Encode cs"
  by (simp add: utf8Encode_def)

lemma utf8Encode_append: "utf8Encode (xs @ ys) = utf8Encode xs @ utf8Encode ys"
  by (simp add: utf8Encode_def)

lemma boundary:
  "i \<le> length (utf8Encode cs) \<Longrightarrow> \<not> isContinuation (utf8Encode cs) i \<Longrightarrow>
   \<exists>n. i = length (utf8Encode (take n cs))"
proof (induction cs arbitrary: i)
  case Nil
  then have "i = length (utf8Encode (take 0 []))" by (simp add: utf8Encode_def)
  then show ?case by blast
next
  case (Cons c cs)
  define k where "k = length (utf8Bytes c)"
  have kpos: "0 < k" using utf8Bytes_nonempty [of c] by (simp add: k_def)
  have len: "length (utf8Encode (c # cs)) = k + length (utf8Encode cs)"
    by (simp add: utf8Encode_Cons k_def)
  consider "i = 0" | "0 < i" "i < k" | "k \<le> i" by linarith
  then show ?case
  proof cases
    case 1
    then have "i = length (utf8Encode (take 0 (c # cs)))" by (simp add: utf8Encode_def)
    then show ?thesis by blast
  next
    case 2
    then have "utf8Encode (c # cs) ! i = utf8Bytes c ! i"
      by (simp add: utf8Encode_Cons nth_append k_def)
    also from 2 have "\<dots> = tl (utf8Bytes c) ! (i - 1)"
      by (simp add: nth_tl k_def)
    finally have "utf8Encode (c # cs) ! i \<in> set (tl (utf8Bytes c))"
      using 2 by (simp add: k_def)
    then have "utf8Encode (c # cs) ! i AND 0xC0 = 0x80" by (rule tl_utf8Bytes)
    moreover from 2 len have "i < length (utf8Encode (c # cs))" by linarith
    ultimately have "isContinuation (utf8Encode (c # cs)) i"
      by (simp only: isContinuation_def simp_thms)
    with Cons.prems(2) show ?thesis by blast
  next
    case 3
    from 3 Cons.prems(1) len have le: "i - k \<le> length (utf8Encode cs)" by linarith
    have eq: "isContinuation (utf8Encode (c # cs)) i = isContinuation (utf8Encode cs) (i - k)"
      using 3 by (auto simp: isContinuation_def utf8Encode_Cons nth_append k_def)
    from Cons.IH [OF le Cons.prems(2) [unfolded eq]] obtain n where n: "i - k = length (utf8Encode (take n cs))"
      by blast
    have "length (utf8Encode (take (Suc n) (c # cs))) = k + length (utf8Encode (take n cs))"
      by (simp add: utf8Encode_Cons k_def)
    with n 3 have "i = length (utf8Encode (take (Suc n) (c # cs)))" by linarith
    then show ?thesis by blast
  qed
qed

lemma walkBack_le: "walkBack enc m \<le> m"
  by (induction m) auto

lemma walkBack_stop: "walkBack enc m = 0 \<or> \<not> isContinuation enc (walkBack enc m)"
  by (induction m) auto

lemma walkBack_boundary:
  assumes "m \<le> length (utf8Encode cs)"
  shows "\<exists>n. walkBack (utf8Encode cs) m = length (utf8Encode (take n cs))"
proof -
  from walkBack_le [of "utf8Encode cs" m] assms
  have le: "walkBack (utf8Encode cs) m \<le> length (utf8Encode cs)" by linarith
  from walkBack_stop [of "utf8Encode cs" m] show ?thesis
  proof
    assume "walkBack (utf8Encode cs) m = 0"
    then have "walkBack (utf8Encode cs) m = length (utf8Encode (take 0 cs))"
      by (simp add: utf8Encode_def)
    then show ?thesis by blast
  next
    assume "\<not> isContinuation (utf8Encode cs) (walkBack (utf8Encode cs) m)"
    from boundary [OF le this] show ?thesis .
  qed
qed

lemma take_utf8Encode:
  "take (length (utf8Encode (take n cs))) (utf8Encode cs) = utf8Encode (take n cs)"
proof -
  have "utf8Encode cs = utf8Encode (take n cs) @ utf8Encode (drop n cs)"
    by (simp only: utf8Encode_append [symmetric] append_take_drop_id)
  then have "take (length (utf8Encode (take n cs))) (utf8Encode cs) =
      take (length (utf8Encode (take n cs))) (utf8Encode (take n cs) @ utf8Encode (drop n cs))"
    by simp
  then show ?thesis by simp
qed

lemma stripBOM_length: "length (utf8Encode (stripBOM cs)) \<le> length (utf8Encode cs)"
  by (cases cs) (simp_all add: stripBOM_def utf8Encode_Cons)

lemma stripBOM_subset: "set (stripBOM cs) \<subseteq> set cs"
  by (cases cs) (auto simp: stripBOM_def)

text \<open>What \<open>truncateToBytes\<close> returns when it has to cut.\<close>

lemma truncate_cut:
  assumes "maxBytes < length (encode str)"
  shows "\<exists>n. walkBack (encode str) maxBytes = length (utf8Encode (take n (toScalars str))) \<and>
            take (walkBack (encode str) maxBytes) (encode str) = utf8Encode (take n (toScalars str)) \<and>
            utf8Decode initialState (map unat (take (walkBack (encode str) maxBytes) (encode str))) =
              take n (toScalars str) \<and>
            truncateToBytes str maxBytes = fromScalars (stripBOM (take n (toScalars str))) \<and>
            encode (truncateToBytes str maxBytes) = utf8Encode (stripBOM (take n (toScalars str)))"
proof -
  let ?cs = "toScalars str"
  have enc: "encode str = utf8Encode ?cs" by (simp only: encode_def)
  from assms have "maxBytes \<le> length (utf8Encode ?cs)" by (simp only: enc less_imp_le)
  from walkBack_boundary [OF this] obtain n
    where n: "walkBack (utf8Encode ?cs) maxBytes = length (utf8Encode (take n ?cs))" by blast
  have tk: "take (walkBack (utf8Encode ?cs) maxBytes) (utf8Encode ?cs) = utf8Encode (take n ?cs)"
    by (simp only: n take_utf8Encode)
  have sc: "\<forall>c\<in>set (take n ?cs). isScalar c"
    using toScalars_scalar [of _ str] in_set_takeD [of _ n ?cs] by blast
  have dec: "utf8Decode initialState (map unat (utf8Encode (take n ?cs))) = take n ?cs"
    by (rule decode_encode [OF sc])
  have "\<not> length (encode str) \<le> maxBytes" using assms by linarith
  then have res: "truncateToBytes str maxBytes = fromScalars (stripBOM (take n ?cs))"
    by (simp only: truncateToBytes_def Let_def if_False) (simp only: enc tk decode_def dec)
  have sc': "\<forall>c\<in>set (stripBOM (take n ?cs)). isScalar c"
    using sc stripBOM_subset [of "take n ?cs"] by blast
  have e: "encode (truncateToBytes str maxBytes) = utf8Encode (stripBOM (take n ?cs))"
    by (simp only: res encode_def toScalars_fromScalars [OF sc'])
  have "walkBack (encode str) maxBytes = length (utf8Encode (take n ?cs)) \<and>
      take (walkBack (encode str) maxBytes) (encode str) = utf8Encode (take n ?cs) \<and>
      utf8Decode initialState (map unat (take (walkBack (encode str) maxBytes) (encode str))) =
        take n ?cs \<and>
      truncateToBytes str maxBytes = fromScalars (stripBOM (take n ?cs)) \<and>
      encode (truncateToBytes str maxBytes) = utf8Encode (stripBOM (take n ?cs))"
    using n tk dec res e by (simp only: enc simp_thms)
  then show ?thesis by (rule exI)
qed

lemma truncate_fits: "length (encode (truncateToBytes str maxBytes)) \<le> maxBytes"
proof (cases "length (encode str) \<le> maxBytes")
  case True
  then show ?thesis by (simp add: truncateToBytes_def)
next
  case False
  then have "maxBytes < length (encode str)" by simp
  from truncate_cut [OF this] obtain n where
    n: "walkBack (encode str) maxBytes = length (utf8Encode (take n (toScalars str)))" and
    e: "encode (truncateToBytes str maxBytes) = utf8Encode (stripBOM (take n (toScalars str)))"
    by blast
  have "length (encode (truncateToBytes str maxBytes)) \<le> length (utf8Encode (take n (toScalars str)))"
    by (simp only: e stripBOM_length)
  also have "\<dots> \<le> maxBytes"
    using walkBack_le [of "encode str" maxBytes] by (simp only: n)
  finally show ?thesis .
qed

lemma truncate_unchanged: "length (encode str) \<le> maxBytes \<Longrightarrow> truncateToBytes str maxBytes = str"
  by (simp add: truncateToBytes_def)



lemma propSet_fresh: "k \<notin> fst ` set ps \<Longrightarrow> propSet ps k v = ps @ [(k, v)]"
  by (induction ps) auto

lemma fold_propSet:
  "distinct (map fst ps) \<Longrightarrow> fst ` set acc \<inter> fst ` set ps = {} \<Longrightarrow>
   fold (\<lambda>(key, value) result. propSet result key (g key value)) ps acc =
     acc @ map (\<lambda>(key, value). (key, g key value)) ps"
proof (induction ps arbitrary: acc)
  case Nil
  then show ?case by simp
next
  case (Cons p ps)
  obtain k v where p: "p = (k, v)" by (cases p)
  from Cons.prems p have fresh: "k \<notin> fst ` set acc" by auto
  from Cons.prems p have d: "distinct (map fst ps)" by simp
  from Cons.prems p have "fst ` set (acc @ [(k, g k v)]) \<inter> fst ` set ps = {}" by auto
  from Cons.IH [OF d this] show ?case
    by (simp add: p propSet_fresh [OF fresh])
qed

lemma sanitizeProperties_map:
  "distinct (map fst ps) \<Longrightarrow>
   sanitizeProperties ps = map (\<lambda>(key, value). (key, truncateToBytes value (maxValueBytes key))) ps"
  unfolding sanitizeProperties_def
  using fold_propSet [of ps "[]" "\<lambda>key value. truncateToBytes value (maxValueBytes key)"] by simp

lemma sanitizeProperties_get:
  assumes "distinct (map fst ps)" "(key, value) \<in> set ps"
  shows "propGet (sanitizeProperties ps) key = Some (truncateToBytes value (maxValueBytes key))"
proof -
  have "map_of (map (\<lambda>(k, v). (k, truncateToBytes v (maxValueBytes k))) ps) key =
      Some (truncateToBytes value (maxValueBytes key))"
    using assms by (induction ps) (auto simp: rev_image_eqI)
  then show ?thesis
    by (simp only: propGet_def sanitizeProperties_map [OF assms(1)])
qed

lemma maxValueBytes_sum:
  "length (encode key) \<le> 124 \<Longrightarrow> length (encode key) + maxValueBytes key = 124"
  by (simp add: maxValueBytes_def PROPERTY_MAX_BYTES_def)

lemma maxValueBytes_fits:
  "length (encode key) + n \<le> 124 \<Longrightarrow> n \<le> maxValueBytes key"
  by (simp add: maxValueBytes_def PROPERTY_MAX_BYTES_def)

text \<open>
  C3, as amended. For a property map with distinct keys and an entry \<open>(key, value)\<close>,
  \<open>sanitizeProperties\<close> stores \<open>truncateToBytes value (maxValueBytes key)\<close> under the key.
  Its UTF-8 encoding is never longer than the budget \<open>max 0 (124 - keyBytes)\<close>, so key and
  value together stay within 124 bytes whenever the key alone does. A value that fits the
  budget with its key is returned unchanged. When the value has to be cut, the bytes handed
  to the decoder are exactly the encoding of the first \<open>n\<close> scalar values of the value, the
  decoder returns these scalar values (no byte sequence is split, nothing is replaced), and
  the result is their string, without a leading byte order mark.
\<close>

theorem C3_sanitize_within_budget:
  "distinct (map fst ps) \<Longrightarrow> (key, value) \<in> set ps \<Longrightarrow>
   propGet (sanitizeProperties ps) key = Some (truncateToBytes value (maxValueBytes key)) \<and>
   length (encode (truncateToBytes value (maxValueBytes key))) \<le> maxValueBytes key \<and>
   (length (encode key) \<le> 124 \<longrightarrow>
      length (encode key) + length (encode (truncateToBytes value (maxValueBytes key))) \<le> 124) \<and>
   (length (encode key) + length (encode value) \<le> 124 \<longrightarrow>
      truncateToBytes value (maxValueBytes key) = value) \<and>
   (maxValueBytes key < length (encode value) \<longrightarrow>
      (\<exists>n. take (walkBack (encode value) (maxValueBytes key)) (encode value) =
             utf8Encode (take n (toScalars value)) \<and>
           utf8Decode initialState
             (map unat (take (walkBack (encode value) (maxValueBytes key)) (encode value))) =
             take n (toScalars value) \<and>
           truncateToBytes value (maxValueBytes key) =
             fromScalars (stripBOM (take n (toScalars value)))))"
proof (intro conjI impI)
  assume d: "distinct (map fst ps)" and m: "(key, value) \<in> set ps"
  show "propGet (sanitizeProperties ps) key = Some (truncateToBytes value (maxValueBytes key))"
    by (rule sanitizeProperties_get [OF d m])
  show fits: "length (encode (truncateToBytes value (maxValueBytes key))) \<le> maxValueBytes key"
    by (rule truncate_fits)
  show "length (encode key) + length (encode (truncateToBytes value (maxValueBytes key))) \<le> 124"
    if "length (encode key) \<le> 124"
    using maxValueBytes_sum [OF that] fits by linarith
  show "truncateToBytes value (maxValueBytes key) = value"
    if "length (encode key) + length (encode value) \<le> 124"
    by (rule truncate_unchanged [OF maxValueBytes_fits [OF that]])
  show "\<exists>n. take (walkBack (encode value) (maxValueBytes key)) (encode value) =
             utf8Encode (take n (toScalars value)) \<and>
           utf8Decode initialState
             (map unat (take (walkBack (encode value) (maxValueBytes key)) (encode value))) =
             take n (toScalars value) \<and>
           truncateToBytes value (maxValueBytes key) =
             fromScalars (stripBOM (take n (toScalars value)))"
    if "maxValueBytes key < length (encode value)"
    using truncate_cut [OF that] by blast
qed



lemma toScalars_replicate:
  "\<not> isHighSurrogate u \<Longrightarrow> \<not> isLowSurrogate u \<Longrightarrow> toScalars (replicate n u) = replicate n (unat u)"
  by (induction n) (simp_all add: toScalars_unit)

lemma length_utf8Encode_replicate:
  "length (utf8Encode (replicate n c)) = n * length (utf8Bytes c)"
  by (induction n) (simp_all add: utf8Encode_Cons utf8Encode_def)

lemma length_encode_replicate:
  "\<not> isHighSurrogate u \<Longrightarrow> \<not> isLowSurrogate u \<Longrightarrow>
   length (encode (replicate n u)) = n * length (utf8Bytes (unat u))"
  by (simp add: encode_def toScalars_replicate length_utf8Encode_replicate)

lemma longKey_length: "length (encode longKey) = 125"
proof -
  have "\<not> isHighSurrogate 0x6B" "\<not> isLowSurrogate 0x6B"
    by (simp_all add: isHighSurrogate_def isLowSurrogate_def)
  then have "length (encode longKey) = 125 * length (utf8Bytes (unat (0x6B :: 16 word)))"
    unfolding longKey_def by (rule length_encode_replicate)
  then show ?thesis by (simp add: utf8Bytes_def)
qed

lemma hiragana_length: "length (encode hiragana) = 300"
proof -
  have "\<not> isHighSurrogate 0x3042" "\<not> isLowSurrogate 0x3042"
    by (simp_all add: isHighSurrogate_def isLowSurrogate_def)
  then have "length (encode hiragana) = 100 * length (utf8Bytes (unat (0x3042 :: 16 word)))"
    unfolding hiragana_def by (rule length_encode_replicate)
  then show ?thesis by (simp add: utf8Bytes_def)
qed

lemma description_length: "length (encode (js ''description'')) = 11"
  by (simp add: js_def encode_def utf8Encode_def utf8Bytes_def isHighSurrogate_def isLowSurrogate_def)

lemma v_truncated: "truncateToBytes (js ''v'') 0 = []"
  by (simp add: js_def truncateToBytes_def encode_def utf8Encode_def utf8Bytes_def
      isHighSurrogate_def isLowSurrogate_def decode_def stripBOM_def fromScalars_def initialState_def)

theorem C3_sanitize_within_budget_witness:
  "distinct (map fst [(js ''title'', js ''abc''), (js ''description'', hiragana)]) \<and>
   (js ''description'', hiragana) \<in> set [(js ''title'', js ''abc''), (js ''description'', hiragana)] \<and>
   length (encode (js ''description'')) = 11 \<and>
   length (encode hiragana) = 300 \<and>
   maxValueBytes (js ''description'') = 113 \<and>
   propGet (sanitizeProperties [(js ''title'', js ''abc''), (js ''description'', hiragana)])
       (js ''description'') = Some (truncateToBytes hiragana 113) \<and>
   length (encode (truncateToBytes hiragana 113)) \<le> 113 \<and>
   11 + length (encode (truncateToBytes hiragana 113)) \<le> 124"
proof -
  have d: "distinct (map fst [(js ''title'', js ''abc''), (js ''description'', hiragana)])"
    by (simp add: js_def)
  have m: "(js ''description'', hiragana) \<in>
      set [(js ''title'', js ''abc''), (js ''description'', hiragana)]"
    by simp
  have b: "maxValueBytes (js ''description'') = 113"
    by (simp add: maxValueBytes_def PROPERTY_MAX_BYTES_def description_length)
  show ?thesis
    using C3_sanitize_within_budget [OF d m] d m b description_length hiragana_length
    by simp
qed

text \<open>
  The claim as stated fails for a key longer than 124 bytes: the budget is floored at 0, the
  value is cut to the empty string, and the key alone exceeds 124 bytes.
\<close>

theorem C3_long_key_counterexample:
  "propGet (sanitizeProperties [(longKey, js ''v'')]) longKey = Some [] \<and>
   \<not> length (encode longKey) + length (encode ([] :: jsstring)) \<le> 124"
proof -
  have b: "maxValueBytes longKey = 0"
    by (simp add: maxValueBytes_def PROPERTY_MAX_BYTES_def longKey_length)
  have "propGet (sanitizeProperties [(longKey, js ''v'')]) longKey =
      Some (truncateToBytes (js ''v'') (maxValueBytes longKey))"
    by (rule sanitizeProperties_get) simp_all
  then show ?thesis
    by (simp add: b v_truncated longKey_length)
qed

section \<open>Effects: sequencing\<close>

lemma andThen_InrE:
  assumes "andThen m f s = (Inr r, s')"
  obtains x s1 where "m s = (Inr x, s1)" "f x s1 = (Inr r, s')"
  using assms by (auto simp: andThen_def split: prod.splits sum.splits)

lemma andThen_Inr: "m s = (Inr x, s1) \<Longrightarrow> andThen m f s = f x s1"
  by (simp add: andThen_def)

lemma andThen_Inl: "m s = (Inl e, s1) \<Longrightarrow> andThen m f s = (Inl e, s1)"
  by (simp add: andThen_def)

lemma invoke_frame:
  assumes "invoke c operation w = (r, w')"
  shows "calls w' = calls w @ [c]" "cacheService w' = cacheService w"
    "operation (drive w) = (r, drive w')"
  using assms by (auto simp: invoke_def split: prod.splits)

section \<open>Cache invalidation\<close>

lemma fold_delete:
  "fold (\<lambda>key m. if P key then propDelete m key else m) ks m =
     filter (\<lambda>(k, v). \<not> (P k \<and> k \<in> set ks)) m"
proof (induction ks arbitrary: m)
  case Nil
  then show ?case by simp
next
  case (Cons k ks)
  show ?case
    by (simp add: Cons.IH propDelete_def) (auto intro!: filter_cong)
qed

lemma invalidateByPrefix_cache:
  "cache (invalidateByPrefix p c) = filter (\<lambda>(k, v). \<not> startsWith k p) (cache c)"
  by (simp add: invalidateByPrefix_def fold_delete) (force intro!: filter_cong)

lemma invalidateListCache_result:
  "invalidateListCache w = (r, w') \<Longrightarrow>
   r = Inr () \<and> drive w' = drive w \<and> calls w' = calls w \<and>
   cache (cacheService w') =
     filter (\<lambda>(k, v). \<not> startsWith k CACHE_KEY_LIST \<and> \<not> startsWith k CACHE_KEY_SEARCH_PREFIX)
       (cache (cacheService w))"
  by (auto simp: invalidateListCache_def invalidateByPrefix_cache intro!: filter_cong)

lemma invalidateListCache_clear:
  "invalidateListCache w = (r, w') \<Longrightarrow> listCacheClear (cacheService w')"
  by (drule invalidateListCache_result) (auto simp: listCacheClear_def)

lemma ensuresI: "(\<And>s r s'. m s = (Inr r, s') \<Longrightarrow> Q s') \<Longrightarrow> ensures m Q"
  by (simp add: ensures_def)

lemma ensuresD: "ensures m Q \<Longrightarrow> m s = (Inr r, s') \<Longrightarrow> Q s'"
  by (auto simp: ensures_def)

lemma ensures_andThen: "(\<And>x. ensures (f x) Q) \<Longrightarrow> ensures (andThen m f) Q"
  by (rule ensuresI) (auto elim!: andThen_InrE dest: ensuresD)

lemma ensures_invalidate: "ensures invalidateListCache (\<lambda>w. listCacheClear (cacheService w))"
  by (rule ensuresI) (rule invalidateListCache_clear)

lemma ensures_invalidate_return:
  "ensures (andThen invalidateListCache (\<lambda>_. succeed x)) (\<lambda>w. listCacheClear (cacheService w))"
proof (rule ensuresI)
  fix s r s'
  assume "andThen invalidateListCache (\<lambda>_. succeed x) s = (Inr r, s')"
  then obtain u s1 where a: "invalidateListCache s = (Inr u, s1)" and b: "succeed x s1 = (Inr r, s')"
    by (rule andThen_InrE)
  from b have "s' = s1" by (simp add: succeed_def)
  with invalidateListCache_clear [OF a] show "listCacheClear (cacheService s')" by simp
qed

lemma registerBook_clear:
  "ensures (registerBook bs metadata fileContent fileMimeType) (\<lambda>w. listCacheClear (cacheService w))"
  unfolding registerBook_def Let_def
  by (intro ensures_andThen ensures_invalidate_return)

lemma updateBook_clear:
  "ensures (updateBook bs fileId metadata) (\<lambda>w. listCacheClear (cacheService w))"
  unfolding updateBook_def Let_def
  by (intro ensures_andThen ensures_invalidate_return)

lemma deleteBook_clear:
  "ensures (deleteBook bs fileId) (\<lambda>w. listCacheClear (cacheService w))"
  unfolding deleteBook_def
  by (intro ensures_andThen ensures_invalidate)

text \<open>
  C8. When \<open>registerBook\<close>, \<open>updateBook\<close> or \<open>deleteBook\<close> returns a value, no key of the
  cache starts with \<open>books:list\<close> or with \<open>books:search:\<close>, whatever the drive service and
  the cache before the call.
\<close>

theorem C8_mutations_invalidate_lists:
  "(registerBook bs metadata fileContent fileMimeType w = (Inr file, w1) \<longrightarrow>
      listCacheClear (cacheService w1)) \<and>
   (updateBook bs fileId partialMetadata w = (Inr file', w2) \<longrightarrow>
      listCacheClear (cacheService w2)) \<and>
   (deleteBook bs fileId w = (Inr u, w3) \<longrightarrow> listCacheClear (cacheService w3))"
  using ensuresD [OF registerBook_clear] ensuresD [OF updateBook_clear] ensuresD [OF deleteBook_clear]
  by blast

section \<open>Editing a record\<close>

lemma propGet_propSet:
  "propGet (propSet ps k v) k' = (if k' = k then Some v else propGet ps k')"
  by (induction ps) (auto simp: propGet_def)

lemma propGet_assignIfDefined:
  "propGet (assignIfDefined ps k v) k' = (if k' = k \<and> v \<noteq> None then v else propGet ps k')"
  by (cases v) (simp_all add: assignIfDefined_def propGet_propSet)

lemma propGet_updatedProperties:
  "propGet (updatedProperties existingFile metadata) key =
     (if key = js ''published_date'' \<and> p_publishedDate metadata \<noteq> None then p_publishedDate metadata
      else if key = js ''publisher'' \<and> p_publisher metadata \<noteq> None then p_publisher metadata
      else if key = js ''authors'' \<and> p_authors metadata \<noteq> None then p_authors metadata
      else if key = js ''title'' \<and> p_title metadata \<noteq> None then p_title metadata
      else propGet (properties existingFile) key)"
  by (auto simp: updatedProperties_def propGet_assignIfDefined)

lemma updateBook_steps:
  assumes "updateBook bs fileId metadata w = (Inr updatedFile, w')"
  obtains existingFile w1 w2 w3 w4 where
    "invoke (GetFile fileId) (getFile (driveService bs) fileId) w = (Inr existingFile, w1)"
    "invoke (UpdateFileProperties fileId (updatedProperties existingFile metadata))
       (updateFileProperties (driveService bs) fileId (updatedProperties existingFile metadata)) w1 =
       (Inr updatedFile, w2)"
    "renameIfChanged bs fileId existingFile metadata w2 = (Inr (), w3)"
    "moveIfAuthorsChanged bs fileId existingFile metadata w3 = (Inr (), w4)"
    "invalidateListCache w4 = (Inr (), w')"
proof -
  from assms obtain ex w1 upd w2 u3 w3 u4 w4 u5 w5 where
    s1: "invoke (GetFile fileId) (getFile (driveService bs) fileId) w = (Inr ex, w1)" and
    s2: "invoke (UpdateFileProperties fileId (updatedProperties ex metadata))
       (updateFileProperties (driveService bs) fileId (updatedProperties ex metadata)) w1 =
       (Inr upd, w2)" and
    s3: "renameIfChanged bs fileId ex metadata w2 = (Inr u3, w3)" and
    s4: "moveIfAuthorsChanged bs fileId ex metadata w3 = (Inr u4, w4)" and
    s5: "invalidateListCache w4 = (Inr u5, w5)" and
    s6: "succeed upd w5 = (Inr updatedFile, w')"
    unfolding updateBook_def Let_def by (elim andThen_InrE)
  from s6 have "upd = updatedFile" "w5 = w'" by (simp_all add: succeed_def)
  with s1 s2 s3 s4 s5 that show thesis by simp
qed

lemma renameIfChanged_calls:
  assumes "renameIfChanged bs fileId existingFile metadata w = (Inr u, w')"
  shows "calls w' = calls w @
      (if newFileName existingFile metadata \<noteq> name existingFile
       then [RenameFile fileId (newFileName existingFile metadata)] else [])"
proof (cases "newFileName existingFile metadata \<noteq> name existingFile")
  case True
  with assms obtain f w1 where
    a: "invoke (RenameFile fileId (newFileName existingFile metadata))
          (renameFile (driveService bs) fileId (newFileName existingFile metadata)) w = (Inr f, w1)"
    and b: "succeed () w1 = (Inr u, w')"
    unfolding renameIfChanged_def by (auto elim: andThen_InrE)
  from b have "w1 = w'" by (simp add: succeed_def)
  with invoke_frame(1) [OF a] True show ?thesis by simp
next
  case False
  with assms show ?thesis by (simp add: renameIfChanged_def succeed_def)
qed

lemma moveIfAuthorsChanged_calls:
  assumes "moveIfAuthorsChanged bs fileId existingFile metadata w = (Inr u, w')"
  shows "\<exists>myLibraryId newFolderId.
      calls w' = calls w @
        (if authorsChanged existingFile metadata then
           [EnsureMyLibraryFolder,
            EnsureAuthorFolder myLibraryId (getFirstAuthor (the (p_authors metadata)))] @
           (if moveNeeded existingFile newFolderId
            then [MoveFile fileId newFolderId (hd (parents existingFile))] else [])
         else []) \<and>
      (authorsChanged existingFile metadata \<longrightarrow>
         (\<exists>d d'. ensureAuthorFolder (driveService bs) myLibraryId
                    (getFirstAuthor (the (p_authors metadata))) d = (Inr newFolderId, d')))"
proof (cases "authorsChanged existingFile metadata")
  case False
  with assms show ?thesis by (simp add: moveIfAuthorsChanged_def succeed_def)
next
  case True
  let ?first = "getFirstAuthor (the (p_authors metadata))"
  from True assms obtain lib w1 nf w2 where
    a: "invoke EnsureMyLibraryFolder (ensureMyLibraryFolder (driveService bs)) w = (Inr lib, w1)" and
    b: "invoke (EnsureAuthorFolder lib ?first) (ensureAuthorFolder (driveService bs) lib ?first) w1 =
          (Inr nf, w2)" and
    c: "(if moveNeeded existingFile nf then
           andThen (invoke (MoveFile fileId nf (hd (parents existingFile)))
                      (moveFile (driveService bs) fileId nf (hd (parents existingFile))))
             (\<lambda>_. succeed ())
         else succeed ()) w2 = (Inr u, w')"
    unfolding moveIfAuthorsChanged_def Let_def by (auto elim!: andThen_InrE)
  have c1: "calls w2 = calls w @ [EnsureMyLibraryFolder, EnsureAuthorFolder lib ?first]"
    using invoke_frame(1) [OF a] invoke_frame(1) [OF b] by simp
  have ens: "\<exists>d d'. ensureAuthorFolder (driveService bs) lib ?first d = (Inr nf, d')"
    using invoke_frame(3) [OF b] by blast
  have c2: "calls w' = calls w2 @
      (if moveNeeded existingFile nf then [MoveFile fileId nf (hd (parents existingFile))] else [])"
  proof (cases "moveNeeded existingFile nf")
    case mv: True
    with c obtain f w3 where
      m: "invoke (MoveFile fileId nf (hd (parents existingFile)))
            (moveFile (driveService bs) fileId nf (hd (parents existingFile))) w2 = (Inr f, w3)"
      and s: "succeed () w3 = (Inr u, w')"
      by (auto elim: andThen_InrE)
    from s have "w3 = w'" by (simp add: succeed_def)
    with invoke_frame(1) [OF m] mv show ?thesis by simp
  next
    case False
    with c show ?thesis by (simp add: succeed_def)
  qed
  from c1 c2 True ens show ?thesis by auto
qed

text \<open>
  C6, as amended. A successful \<open>updateBook\<close> reads the record, then sends one property
  update with the map \<open>updatedProperties\<close>: for each of \<open>title\<close>, \<open>authors\<close>, \<open>publisher\<close>
  and \<open>publishedDate\<close> (stored under \<open>published_date\<close>) that the partial metadata
  defines, the key holds the supplied value; every other key, and each of the four keys
  whose field is undefined, holds what the existing record has. The fields \<open>isbn\<close>,
  \<open>description\<close> and \<open>coverImageUrl\<close> of the partial metadata are not read.
\<close>

theorem C6_update_merges_edit_fields:
  "updateBook bs fileId metadata w = (Inr updatedFile, w') \<Longrightarrow>
   \<exists>existingFile d1 d2 later.
     getFile (driveService bs) fileId (drive w) = (Inr existingFile, d1) \<and>
     updateFileProperties (driveService bs) fileId (updatedProperties existingFile metadata) d1 =
       (Inr updatedFile, d2) \<and>
     calls w' = calls w @
       [GetFile fileId, UpdateFileProperties fileId (updatedProperties existingFile metadata)] @ later \<and>
     (\<forall>key. propGet (updatedProperties existingFile metadata) key =
        (if key = js ''published_date'' \<and> p_publishedDate metadata \<noteq> None
           then p_publishedDate metadata
         else if key = js ''publisher'' \<and> p_publisher metadata \<noteq> None then p_publisher metadata
         else if key = js ''authors'' \<and> p_authors metadata \<noteq> None then p_authors metadata
         else if key = js ''title'' \<and> p_title metadata \<noteq> None then p_title metadata
         else propGet (properties existingFile) key))"
proof -
  assume "updateBook bs fileId metadata w = (Inr updatedFile, w')"
  then obtain existingFile w1 w2 w3 w4 where
    s1: "invoke (GetFile fileId) (getFile (driveService bs) fileId) w = (Inr existingFile, w1)" and
    s2: "invoke (UpdateFileProperties fileId (updatedProperties existingFile metadata))
       (updateFileProperties (driveService bs) fileId (updatedProperties existingFile metadata)) w1 =
       (Inr updatedFile, w2)" and
    s3: "renameIfChanged bs fileId existingFile metadata w2 = (Inr (), w3)" and
    s4: "moveIfAuthorsChanged bs fileId existingFile metadata w3 = (Inr (), w4)" and
    s5: "invalidateListCache w4 = (Inr (), w')"
    by (rule updateBook_steps)
  from renameIfChanged_calls [OF s3] obtain r where r: "calls w3 = calls w2 @ r" by blast
  from moveIfAuthorsChanged_calls [OF s4] obtain m where m: "calls w4 = calls w3 @ m" by blast
  from invalidateListCache_result [OF s5] have i: "calls w' = calls w4" by simp
  have c: "calls w' = calls w @
      [GetFile fileId, UpdateFileProperties fileId (updatedProperties existingFile metadata)] @ (r @ m)"
    using invoke_frame(1) [OF s1] invoke_frame(1) [OF s2] r m i by simp
  show ?thesis
    using invoke_frame(3) [OF s1] invoke_frame(3) [OF s2] c propGet_updatedProperties
    by blast
qed

text \<open>
  The calls of a successful \<open>updateBook\<close> after the property update. It renames the file to
  \<open>newFileName\<close> if and only if that name differs from the current name, where \<open>newFileName\<close>
  is built from the supplied title and authors when they are non-empty, from the existing
  properties otherwise, and from the text after the last dot of the current name. If authors
  were supplied, are non-empty and differ from the existing \<open>authors\<close> property, it asks for
  the library folder and for the folder of the new first author, and moves the record there
  if and only if the record has a non-empty first parent different from that folder. It
  makes no other call.
\<close>

lemma updateBook_rename_and_move:
  "updateBook bs fileId metadata w = (Inr updatedFile, w') \<Longrightarrow>
   \<exists>existingFile d1 myLibraryId newFolderId.
     getFile (driveService bs) fileId (drive w) = (Inr existingFile, d1) \<and>
     calls w' = calls w @
       [GetFile fileId, UpdateFileProperties fileId (updatedProperties existingFile metadata)] @
       (if newFileName existingFile metadata \<noteq> name existingFile
        then [RenameFile fileId (newFileName existingFile metadata)] else []) @
       (if authorsChanged existingFile metadata then
          [EnsureMyLibraryFolder,
           EnsureAuthorFolder myLibraryId (getFirstAuthor (the (p_authors metadata)))] @
          (if moveNeeded existingFile newFolderId
           then [MoveFile fileId newFolderId (hd (parents existingFile))] else [])
        else []) \<and>
     (authorsChanged existingFile metadata \<longrightarrow>
        (\<exists>d d'. ensureAuthorFolder (driveService bs) myLibraryId
                   (getFirstAuthor (the (p_authors metadata))) d = (Inr newFolderId, d')))"
proof -
  assume "updateBook bs fileId metadata w = (Inr updatedFile, w')"
  then obtain existingFile w1 w2 w3 w4 where
    s1: "invoke (GetFile fileId) (getFile (driveService bs) fileId) w = (Inr existingFile, w1)" and
    s2: "invoke (UpdateFileProperties fileId (updatedProperties existingFile metadata))
       (updateFileProperties (driveService bs) fileId (updatedProperties existingFile metadata)) w1 =
       (Inr updatedFile, w2)" and
    s3: "renameIfChanged bs fileId existingFile metadata w2 = (Inr (), w3)" and
    s4: "moveIfAuthorsChanged bs fileId existingFile metadata w3 = (Inr (), w4)" and
    s5: "invalidateListCache w4 = (Inr (), w')"
    by (rule updateBook_steps)
  from moveIfAuthorsChanged_calls [OF s4] obtain myLibraryId newFolderId where
    m: "calls w4 = calls w3 @
        (if authorsChanged existingFile metadata then
           [EnsureMyLibraryFolder,
            EnsureAuthorFolder myLibraryId (getFirstAuthor (the (p_authors metadata)))] @
           (if moveNeeded existingFile newFolderId
            then [MoveFile fileId newFolderId (hd (parents existingFile))] else [])
         else [])" and
    e: "authorsChanged existingFile metadata \<longrightarrow>
         (\<exists>d d'. ensureAuthorFolder (driveService bs) myLibraryId
                    (getFirstAuthor (the (p_authors metadata))) d = (Inr newFolderId, d'))"
    by blast
  from invalidateListCache_result [OF s5] have i: "calls w' = calls w4" by simp
  have c: "calls w' = calls w @
       [GetFile fileId, UpdateFileProperties fileId (updatedProperties existingFile metadata)] @
       (if newFileName existingFile metadata \<noteq> name existingFile
        then [RenameFile fileId (newFileName existingFile metadata)] else []) @
       (if authorsChanged existingFile metadata then
          [EnsureMyLibraryFolder,
           EnsureAuthorFolder myLibraryId (getFirstAuthor (the (p_authors metadata)))] @
          (if moveNeeded existingFile newFolderId
           then [MoveFile fileId newFolderId (hd (parents existingFile))] else [])
        else [])"
    unfolding i m renameIfChanged_calls [OF s3] invoke_frame(1) [OF s2] invoke_frame(1) [OF s1]
    by simp
  show ?thesis
    using invoke_frame(3) [OF s1] c e by blast
qed

section \<open>Runs on the mock drive\<close>

lemma mock_simps:
  "ensureMyLibraryFolder mockService = mock_ensureMyLibraryFolder"
  "ensureAuthorFolder mockService = mock_ensureAuthorFolder"
  "uploadFile mockService = mock_uploadFile"
  "uploadCoverImage mockService = mock_uploadCoverImage"
  "updateFileProperties mockService = mock_updateFileProperties"
  "renameFile mockService = mock_renameFile"
  "moveFile mockService = mock_moveFile"
  "getFile mockService = mock_getFile"
  "getFileContent mockService = mock_getFileContent"
  "deleteFile mockService = mock_deleteFile"
  "findBookByIsbn mockService = mock_findBookByIsbn"
  "findFilesByParent mockService = mock_findFilesByParent"
  by (simp_all add: mockService_def)

lemma mock_getFile_found:
  "\<not> shouldFail m \<Longrightarrow> propGet (files m) fileId = Some file \<Longrightarrow>
   mock_getFile fileId m = (Inr (toDriveFile file), m)"
  by (simp add: mock_getFile_def)

lemma withFile_found:
  "\<not> shouldFail m \<Longrightarrow> propGet (files m) fileId = Some file \<Longrightarrow>
   withFile fileId change m =
     (Inr (toDriveFile (change file)), m \<lparr> files := propSet (files m) fileId (change file) \<rparr>)"
  by (simp add: withFile_def)

lemma mock_deleteFile_found:
  "\<not> shouldFail m \<Longrightarrow> propGet (files m) fileId = Some file \<Longrightarrow>
   mock_deleteFile fileId m = (Inr (), m \<lparr> files := propDelete (files m) fileId \<rparr>)"
  by (simp add: mock_deleteFile_def)

lemma invoke_run:
  "operation (drive w) = (r, d') \<Longrightarrow>
   invoke c operation w = (r, w \<lparr> drive := d', calls := calls w @ [c] \<rparr>)"
  by (simp add: invoke_def)

lemma library_facts:
  "shouldFail mockLibrary = False"
  "propGet (files mockLibrary) bookId = Some bookStored"
  "drive worldLibrary = mockLibrary"
  "calls worldLibrary = []"
  "cacheService worldLibrary = sampleCache"
  by (simp_all add: mockLibrary_def worldLibrary_def propGet_def bookId_def)

lemma bookFile_facts:
  "name bookFile = js ''[Dazai Osamu] Ningen Shikkaku.epub''"
  "properties bookFile = bookProperties"
  "parents bookFile = [js ''file_2'']"
  "file_id bookFile = js ''file_3''"
  by (simp_all add: bookFile_def toDriveFile_def bookStored_def)

lemma bookProperties_facts:
  "propGet bookProperties (js ''title'') = Some (js ''Ningen Shikkaku'')"
  "propGet bookProperties (js ''authors'') = Some (js ''Dazai Osamu'')"
  "propGet bookProperties (js ''description'') = Some (js ''old text'')"
  "propGet bookProperties (js ''isbn'') = Some (js ''9784101010014'')"
  "propGet bookProperties (js ''cover_file_id'') = None"
  by (simp_all add: bookProperties_def propGet_def)

lemma extension_epub:
  "last (splitOn 0x2E (js ''[Dazai Osamu] Ningen Shikkaku.epub'')) = js ''epub''"
  by (simp add: js_def)

lemma newFileName_facts:
  "newFileName bookFile titleOnly = js ''[Dazai Osamu] Shayo.epub''"
  "newFileName bookFile descriptionOnly = js ''[Dazai Osamu] Ningen Shikkaku.epub''"
  "newFileName bookFile emptyAuthors = js ''[Dazai Osamu] Ningen Shikkaku.epub''"
  "newFileName bookFile newAuthors = js ''[Soseki] Ningen Shikkaku.epub''"
  by (simp_all add: newFileName_def bookFile_facts bookProperties_facts extension_epub
      titleOnly_def descriptionOnly_def emptyAuthors_def newAuthors_def noMetadata_def
      optOrElse_def orElse_def formatFileName_def js_append [symmetric])

lemma authorsChanged_facts:
  "authorsChanged bookFile titleOnly = False"
  "authorsChanged bookFile descriptionOnly = False"
  "authorsChanged bookFile emptyAuthors = False"
  "authorsChanged bookFile newAuthors = True"
  by (simp_all add: authorsChanged_def bookFile_facts bookProperties_facts truthy_def
      titleOnly_def descriptionOnly_def emptyAuthors_def newAuthors_def noMetadata_def)

lemmas update_run =
  updateBook_def renameIfChanged_def moveIfAuthorsChanged_def andThen_def succeed_def
  invalidateListCache_def invoke_def mockBooks_def mock_simps mock_updateFileProperties_def
  mock_renameFile_def mock_moveFile_def mock_getFile_found withFile_found library_facts
  newFileName_facts authorsChanged_facts propGet_propSet bookFile_facts Let_def

lemma stored_is_bookFile: "toDriveFile bookStored = bookFile"
  by (simp add: bookFile_def)

lemma updated_facts:
  "updatedProperties bookFile descriptionOnly = bookProperties"
  "updatedProperties bookFile emptyAuthors = propSet bookProperties (js ''authors'') []"
  "updatedProperties bookFile titleOnly = propSet bookProperties (js ''title'') (js ''Shayo'')"
  by (simp_all add: updatedProperties_def assignIfDefined_def bookFile_facts descriptionOnly_def
      emptyAuthors_def titleOnly_def noMetadata_def)

lemma description_run:
  "\<not> isl (fst (updateBook mockBooks bookId descriptionOnly worldLibrary))"
  "calls (snd (updateBook mockBooks bookId descriptionOnly worldLibrary)) =
     [GetFile bookId, UpdateFileProperties bookId bookProperties]"
  by (simp_all add: update_run stored_is_bookFile updated_facts)

lemma emptyAuthors_run:
  "\<not> isl (fst (updateBook mockBooks bookId emptyAuthors worldLibrary))"
  "calls (snd (updateBook mockBooks bookId emptyAuthors worldLibrary)) =
     [GetFile bookId, UpdateFileProperties bookId (propSet bookProperties (js ''authors'') [])]"
  by (simp_all add: update_run stored_is_bookFile updated_facts)

lemma title_run:
  "\<not> isl (fst (updateBook mockBooks bookId titleOnly worldLibrary))"
  "calls (snd (updateBook mockBooks bookId titleOnly worldLibrary)) =
     [GetFile bookId, UpdateFileProperties bookId (propSet bookProperties (js ''title'') (js ''Shayo'')),
      RenameFile bookId (js ''[Dazai Osamu] Shayo.epub'')]"
  by (simp_all add: update_run stored_is_bookFile updated_facts)

lemma delete_run:
  "\<not> isl (fst (deleteBook mockBooks bookId worldLibrary))"
  "calls (snd (deleteBook mockBooks bookId worldLibrary)) = [GetFile bookId, DeleteFile bookId]"
  by (simp_all add: deleteBook_def deleteCover_def andThen_def succeed_def invalidateListCache_def
      invoke_def mockBooks_def mock_simps mock_getFile_found mock_deleteFile_found library_facts
      stored_is_bookFile bookFile_facts bookProperties_facts truthy_def)

lemma returned: "\<not> isl (fst p) \<Longrightarrow> p = (Inr (projr (fst p)), snd p)"
  by (cases p; cases "fst p") simp_all

lemma startsWith_js: "startsWith (js a) (js b) \<longleftrightarrow> take (length b) a = b"
proof -
  have "take (length b) (js a) = js (take (length b) a)"
    by (simp add: js_def take_map)
  then show ?thesis by (simp add: startsWith_def)
qed

lemma sampleCache_invalidated:
  "map fst (cache (invalidateByPrefix CACHE_KEY_SEARCH_PREFIX
      (invalidateByPrefix CACHE_KEY_LIST sampleCache))) = [js ''other'']"
  by (simp add: invalidateByPrefix_cache sampleCache_def CACHE_KEY_LIST_def
      CACHE_KEY_SEARCH_PREFIX_def startsWith_js)

lemma four: "js ''file_'' @ numberToString 4 = js ''file_4''"
proof -
  have "numberToString 4 = js ''4''"
    by (simp add: numberToString.simps js_def)
  then show ?thesis by (simp add: js_append [symmetric])
qed

lemma firstAuthor_Soseki: "getFirstAuthor (js ''Soseki'') = js ''Soseki''"
  by (simp add: getFirstAuthor_def trim_def isWhiteSpace_def js_def)

lemma bookStored_facts:
  "name bookStored = js ''[Dazai Osamu] Ningen Shikkaku.epub''"
  "mimeType bookStored = js ''application/epub+zip''"
  "parents bookStored = [js ''file_2'']"
  by (simp_all add: bookStored_def)

lemma newAuthors_run:
  "\<not> isl (fst (updateBook mockBooks bookId newAuthors worldLibrary))"
  "calls (snd (updateBook mockBooks bookId newAuthors worldLibrary)) =
     [GetFile bookId, UpdateFileProperties bookId (updatedProperties bookFile newAuthors),
      RenameFile bookId (js ''[Soseki] Ningen Shikkaku.epub''),
      EnsureMyLibraryFolder, EnsureAuthorFolder (js ''file_1'') (js ''Soseki''),
      MoveFile bookId (js ''file_4'') (js ''file_2'')]"
  by (simp_all add: update_run stored_is_bookFile)
    (simp_all add: mock_ensureMyLibraryFolder_def mock_ensureAuthorFolder_def mockLibrary_def
      bookId_def newAuthors_def noMetadata_def firstAuthor_Soseki FOLDER_MIME_def newFolder_def
      bookStored_facts generateId_def four moveNeeded_def withFile_def propGet_def bookFile_facts
      andThen_def invoke_def succeed_def mock_simps mock_moveFile_def invalidateListCache_def
      worldLibrary_def)

lemma register_run:
  "\<not> isl (fst (registerBook mockBooks sampleA [1, 2, 3] (js ''application/epub+zip'') world0))"
  "cacheService (snd (registerBook mockBooks sampleA [1, 2, 3] (js ''application/epub+zip'') world0)) =
     invalidateByPrefix CACHE_KEY_SEARCH_PREFIX (invalidateByPrefix CACHE_KEY_LIST sampleCache)"
  by (simp_all add: registerBook_def andThen_def invoke_def succeed_def mockBooks_def mock_simps
      mock_ensureMyLibraryFolder_def mock_ensureAuthorFolder_def mock_uploadFile_def
      invalidateListCache_def world0_def mockEmpty_def Let_def sampleA_def newFolder_def
      split: prod.splits sum.splits)

lemma cache_after_runs:
  "cacheService (snd (updateBook mockBooks bookId titleOnly worldLibrary)) =
     invalidateByPrefix CACHE_KEY_SEARCH_PREFIX (invalidateByPrefix CACHE_KEY_LIST sampleCache)"
  "cacheService (snd (deleteBook mockBooks bookId worldLibrary)) =
     invalidateByPrefix CACHE_KEY_SEARCH_PREFIX (invalidateByPrefix CACHE_KEY_LIST sampleCache)"
  by (simp_all add: update_run stored_is_bookFile updated_facts
      deleteBook_def deleteCover_def mock_deleteFile_found bookProperties_facts truthy_def)

lemma getFile_library:
  "getFile (driveService mockBooks) bookId (drive worldLibrary) = (Inr bookFile, mockLibrary)"
  by (simp add: mockBooks_def mock_simps mock_getFile_found library_facts stored_is_bookFile)

theorem C6_update_merges_edit_fields_witness:
  "\<not> isl (fst (updateBook mockBooks bookId titleOnly worldLibrary)) \<and>
   getFile (driveService mockBooks) bookId (drive worldLibrary) = (Inr bookFile, mockLibrary) \<and>
   calls (snd (updateBook mockBooks bookId titleOnly worldLibrary)) =
     [GetFile bookId, UpdateFileProperties bookId (propSet bookProperties (js ''title'') (js ''Shayo'')),
      RenameFile bookId (js ''[Dazai Osamu] Shayo.epub'')] \<and>
   propGet (updatedProperties bookFile titleOnly) (js ''title'') = Some (js ''Shayo'') \<and>
   propGet (updatedProperties bookFile titleOnly) (js ''authors'') = Some (js ''Dazai Osamu'') \<and>
   propGet (updatedProperties bookFile titleOnly) (js ''description'') = Some (js ''old text'')"
proof -
  let ?run = "updateBook mockBooks bookId titleOnly worldLibrary"
  have h: "?run = (Inr (projr (fst ?run)), snd ?run)"
    by (rule returned) (rule title_run(1))
  from C6_update_merges_edit_fields [OF h] obtain existingFile d1 where
    g: "getFile (driveService mockBooks) bookId (drive worldLibrary) = (Inr existingFile, d1)" and
    k: "\<forall>key. propGet (updatedProperties existingFile titleOnly) key =
        (if key = js ''published_date'' \<and> p_publishedDate titleOnly \<noteq> None
           then p_publishedDate titleOnly
         else if key = js ''publisher'' \<and> p_publisher titleOnly \<noteq> None then p_publisher titleOnly
         else if key = js ''authors'' \<and> p_authors titleOnly \<noteq> None then p_authors titleOnly
         else if key = js ''title'' \<and> p_title titleOnly \<noteq> None then p_title titleOnly
         else propGet (properties existingFile) key)"
    by blast
  from g getFile_library have e: "existingFile = bookFile" by simp
  have t: "propGet (updatedProperties bookFile titleOnly) (js ''title'') = Some (js ''Shayo'')"
    using k [rule_format, of "js ''title''"] by (simp add: e titleOnly_def noMetadata_def)
  have a: "propGet (updatedProperties bookFile titleOnly) (js ''authors'') = Some (js ''Dazai Osamu'')"
    using k [rule_format, of "js ''authors''"]
    by (simp add: e titleOnly_def noMetadata_def bookFile_facts bookProperties_facts)
  have d: "propGet (updatedProperties bookFile titleOnly) (js ''description'') = Some (js ''old text'')"
    using k [rule_format, of "js ''description''"]
    by (simp add: e titleOnly_def noMetadata_def bookFile_facts bookProperties_facts)
  from title_run getFile_library t a d show ?thesis by simp
qed

section \<open>What the mock stores\<close>

lemma propGet_Cons: "propGet ((k1, v1) # b) k = (if k = k1 then Some v1 else propGet b k)"
  by (simp add: propGet_def)

lemma bookStored_properties: "properties bookStored = bookProperties"
  by (simp add: bookStored_def)

lemma propGet_spread:
  "distinct (map fst b) \<Longrightarrow>
   propGet (spread a b) k = (case propGet b k of None \<Rightarrow> propGet a k | Some v \<Rightarrow> Some v)"
proof (induction b arbitrary: a)
  case Nil
  then show ?case by (simp add: spread_def propGet_def)
next
  case (Cons p b)
  obtain k1 v1 where p: "p = (k1, v1)" by (cases p)
  from Cons.prems p have d: "distinct (map fst b)" and n: "k1 \<notin> fst ` set b" by auto
  from n have none: "propGet b k1 = None"
    by (simp add: propGet_def map_of_eq_None_iff)
  have "propGet (spread a (p # b)) k = propGet (spread (propSet a k1 v1) b) k"
    by (simp add: spread_def p)
  also have "\<dots> = (case propGet b k of None \<Rightarrow> propGet (propSet a k1 v1) k | Some v \<Rightarrow> Some v)"
    by (rule Cons.IH [OF d])
  also have "\<dots> = (case propGet (p # b) k of None \<Rightarrow> propGet a k | Some v \<Rightarrow> Some v)"
    using none
    by (cases "k = k1") (simp_all add: p propGet_propSet propGet_Cons split: option.splits)
  finally show ?case .
qed

lemma sanitized_keys: "distinct (map fst ps) \<Longrightarrow> map fst (sanitizeProperties ps) = map fst ps"
  by (simp add: sanitizeProperties_map comp_def case_prod_unfold)

lemma bookProperties_distinct: "distinct (map fst bookProperties)"
  by (simp add: bookProperties_def)

lemma old_text_fits: "truncateToBytes (js ''old text'') (maxValueBytes (js ''description'')) = js ''old text''"
proof -
  have "length (encode (js ''old text'')) = 8"
    by (simp add: js_def encode_def utf8Encode_def utf8Bytes_def isHighSurrogate_def isLowSurrogate_def)
  then have "length (encode (js ''description'')) + length (encode (js ''old text'')) \<le> 124"
    by (simp add: description_length)
  from truncate_unchanged [OF maxValueBytes_fits [OF this]] show ?thesis .
qed

lemma description_stored:
  "storedProperty (snd (updateBook mockBooks bookId descriptionOnly worldLibrary)) bookId
     (js ''description'') = Some (js ''old text'')"
proof -
  have m: "(js ''description'', js ''old text'') \<in> set bookProperties"
    by (simp add: bookProperties_def)
  have s: "propGet (sanitizeProperties bookProperties) (js ''description'') = Some (js ''old text'')"
    by (simp only: sanitizeProperties_get [OF bookProperties_distinct m] old_text_fits)
  have d: "distinct (map fst (sanitizeProperties bookProperties))"
    by (simp only: sanitized_keys [OF bookProperties_distinct] bookProperties_distinct)
  have "storedProperty (snd (updateBook mockBooks bookId descriptionOnly worldLibrary)) bookId
      (js ''description'') =
      propGet (spread bookProperties (sanitizeProperties bookProperties)) (js ''description'')"
    by (simp add: storedProperty_def update_run stored_is_bookFile updated_facts
        bookStored_properties)
  also have "\<dots> = Some (js ''old text'')"
    by (simp add: propGet_spread [OF d] s)
  finally show ?thesis .
qed

text \<open>
  The claim as stated fails for a field outside the edit form: a supplied description is
  not merged, the one property update carries the existing map, and the stored description
  stays what it was.
\<close>

theorem C6_description_ignored_counterexample:
  "p_description descriptionOnly = Some (js ''new text'') \<and>
   \<not> isl (fst (updateBook mockBooks bookId descriptionOnly worldLibrary)) \<and>
   calls (snd (updateBook mockBooks bookId descriptionOnly worldLibrary)) =
     [GetFile bookId, UpdateFileProperties bookId bookProperties] \<and>
   propGet bookProperties (js ''description'') = Some (js ''old text'') \<and>
   storedProperty (snd (updateBook mockBooks bookId descriptionOnly worldLibrary)) bookId
     (js ''description'') = Some (js ''old text'')"
  using description_run description_stored
  by (simp add: descriptionOnly_def noMetadata_def bookProperties_facts)

lemma emptyAuthors_stored:
  "storedProperty (snd (updateBook mockBooks bookId emptyAuthors worldLibrary)) bookId
     (js ''authors'') = Some []"
  "storedName (snd (updateBook mockBooks bookId emptyAuthors worldLibrary)) bookId =
     Some (js ''[Dazai Osamu] Ningen Shikkaku.epub'')"
  "storedParents (snd (updateBook mockBooks bookId emptyAuthors worldLibrary)) bookId =
     Some [js ''file_2'']"
proof -
  let ?ps = "propSet bookProperties (js ''authors'') []"
  have ps: "?ps =
     [(js ''app_type'', js ''my_library_book''),
      (js ''isbn'', js ''9784101010014''),
      (js ''title'', js ''Ningen Shikkaku''),
      (js ''authors'', []),
      (js ''publisher'', js ''Shinchosha''),
      (js ''published_date'', js ''1952-01-01''),
      (js ''description'', js ''old text'')]"
    by (simp add: bookProperties_def)
  have dp: "distinct (map fst ?ps)" and m: "(js ''authors'', []) \<in> set ?ps"
    by (simp_all add: ps)
  have "truncateToBytes [] (maxValueBytes (js ''authors'')) = []"
    by (rule truncate_unchanged) (simp add: encode_def utf8Encode_def)
  then have s: "propGet (sanitizeProperties ?ps) (js ''authors'') = Some []"
    by (simp only: sanitizeProperties_get [OF dp m])
  have d: "distinct (map fst (sanitizeProperties ?ps))"
    by (simp only: sanitized_keys [OF dp] dp)
  have "storedProperty (snd (updateBook mockBooks bookId emptyAuthors worldLibrary)) bookId
      (js ''authors'') = propGet (spread bookProperties (sanitizeProperties ?ps)) (js ''authors'')"
    by (simp add: storedProperty_def update_run stored_is_bookFile updated_facts
        bookStored_properties)
  also have "\<dots> = Some []"
    by (simp add: propGet_spread [OF d] s)
  finally show "storedProperty (snd (updateBook mockBooks bookId emptyAuthors worldLibrary)) bookId
      (js ''authors'') = Some []" .
  show "storedName (snd (updateBook mockBooks bookId emptyAuthors worldLibrary)) bookId =
      Some (js ''[Dazai Osamu] Ningen Shikkaku.epub'')"
    by (simp add: storedName_def update_run stored_is_bookFile updated_facts bookStored_facts)
  show "storedParents (snd (updateBook mockBooks bookId emptyAuthors worldLibrary)) bookId =
      Some [js ''file_2'']"
    by (simp add: storedParents_def update_run stored_is_bookFile updated_facts bookStored_facts)
qed

text \<open>
  C7: the code departs from the claim when the supplied authors are the empty string. The
  record is named after Dazai Osamu and lies in his folder. The update stores the empty
  authors, and the name built from the stored title and authors differs from the name of
  the file; yet the update makes no rename, asks for no author folder and makes no move,
  and the stored name and parents are those of the old author.
\<close>

theorem C7_empty_authors_left_in_place:
  "p_authors emptyAuthors = Some [] \<and>
   propGet (properties bookFile) (js ''authors'') = Some (js ''Dazai Osamu'') \<and>
   name bookFile = js ''[Dazai Osamu] Ningen Shikkaku.epub'' \<and>
   parents bookFile = [js ''file_2''] \<and>
   \<not> isl (fst (updateBook mockBooks bookId emptyAuthors worldLibrary)) \<and>
   calls (snd (updateBook mockBooks bookId emptyAuthors worldLibrary)) =
     [GetFile bookId, UpdateFileProperties bookId (propSet bookProperties (js ''authors'') [])] \<and>
   storedProperty (snd (updateBook mockBooks bookId emptyAuthors worldLibrary)) bookId
     (js ''authors'') = Some [] \<and>
   propGet (propSet bookProperties (js ''authors'') []) (js ''title'') =
     Some (js ''Ningen Shikkaku'') \<and>
   formatFileName [] (js ''Ningen Shikkaku'') (js ''epub'') = js ''[] Ningen Shikkaku.epub'' \<and>
   storedName (snd (updateBook mockBooks bookId emptyAuthors worldLibrary)) bookId =
     Some (js ''[Dazai Osamu] Ningen Shikkaku.epub'') \<and>
   storedParents (snd (updateBook mockBooks bookId emptyAuthors worldLibrary)) bookId =
     Some [js ''file_2'']"
  using emptyAuthors_run emptyAuthors_stored
  by (simp add: emptyAuthors_def noMetadata_def bookFile_facts bookProperties_facts propGet_propSet
      formatFileName_def js_append [symmetric])

theorem C8_mutations_invalidate_lists_witness:
  "\<not> isl (fst (registerBook mockBooks sampleA [1, 2, 3] (js ''application/epub+zip'') world0)) \<and>
   listCacheClear (cacheService
     (snd (registerBook mockBooks sampleA [1, 2, 3] (js ''application/epub+zip'') world0))) \<and>
   map fst (cache (cacheService
     (snd (registerBook mockBooks sampleA [1, 2, 3] (js ''application/epub+zip'') world0)))) =
     [js ''other''] \<and>
   \<not> isl (fst (updateBook mockBooks bookId titleOnly worldLibrary)) \<and>
   listCacheClear (cacheService (snd (updateBook mockBooks bookId titleOnly worldLibrary))) \<and>
   map fst (cache (cacheService (snd (updateBook mockBooks bookId titleOnly worldLibrary)))) =
     [js ''other''] \<and>
   \<not> isl (fst (deleteBook mockBooks bookId worldLibrary)) \<and>
   listCacheClear (cacheService (snd (deleteBook mockBooks bookId worldLibrary))) \<and>
   map fst (cache (cacheService (snd (deleteBook mockBooks bookId worldLibrary)))) = [js ''other'']"
proof -
  let ?reg = "registerBook mockBooks sampleA [1, 2, 3] (js ''application/epub+zip'') world0"
  let ?upd = "updateBook mockBooks bookId titleOnly worldLibrary"
  let ?del = "deleteBook mockBooks bookId worldLibrary"
  have r: "?reg = (Inr (projr (fst ?reg)), snd ?reg)"
    by (rule returned) (rule register_run(1))
  have u: "?upd = (Inr (projr (fst ?upd)), snd ?upd)"
    by (rule returned) (rule title_run(1))
  have d: "?del = (Inr (projr (fst ?del)), snd ?del)"
    by (rule returned) (rule delete_run(1))
  have c1: "listCacheClear (cacheService (snd ?reg))"
    using C8_mutations_invalidate_lists [of mockBooks sampleA "[1, 2, 3]" "js ''application/epub+zip''"
        world0 "projr (fst ?reg)" "snd ?reg"] r by blast
  have c2: "listCacheClear (cacheService (snd ?upd))"
    using C8_mutations_invalidate_lists [of mockBooks _ _ _ worldLibrary _ _ bookId titleOnly
        "projr (fst ?upd)" "snd ?upd"] u by blast
  have c3: "listCacheClear (cacheService (snd ?del))"
    using C8_mutations_invalidate_lists [of mockBooks _ _ _ worldLibrary _ _ bookId _ _ _
        "projr (fst ?del)" "snd ?del"] d by blast
  from c1 c2 c3 register_run title_run delete_run cache_after_runs sampleCache_invalidated
  show ?thesis by simp
qed


section \<open>Migration: counts and order\<close>

lemma returnsI: "(\<And>s r s'. m s = (Inr r, s') \<Longrightarrow> Q r) \<Longrightarrow> returns m Q"
  by (simp add: returns_def)

lemma returnsD: "returns m Q \<Longrightarrow> m s = (Inr r, s') \<Longrightarrow> Q r"
  by (auto simp: returns_def)

lemma returns_andThen: "(\<And>x. returns (f x) Q) \<Longrightarrow> returns (andThen m f) Q"
  by (rule returnsI) (auto elim!: andThen_InrE dest: returnsD)

lemma returns_succeed: "Q x \<Longrightarrow> returns (succeed x) Q"
  by (simp add: returns_def succeed_def)

lemma migrateBook_status:
  "returns (migrateBook mg bookFolderId bookFolderName options) (\<lambda>d. status d \<noteq> Failed)"
  unfolding migrateBook_def Let_def
  by (intro returns_andThen returns_succeed) (auto intro!: returns_andThen returns_succeed split: option.splits)

lemma processUnit_cases:
  "processUnit mg options bookFolder w = (d, w') \<Longrightarrow>
   (\<exists>e. migrateBook mg (file_id bookFolder) (name bookFolder) options w = (Inl e, w') \<and>
        d = \<lparr> detail_title = name bookFolder, status = Failed, reason = Some (message e) \<rparr>) \<or>
   (migrateBook mg (file_id bookFolder) (name bookFolder) options w = (Inr d, w') \<and>
      status d \<noteq> Failed)"
  using returnsD [OF migrateBook_status, of mg "file_id bookFolder" "name bookFolder" options w]
  by (auto simp: processUnit_def split: prod.splits sum.splits)














lemma bookLoop_stopped:
  "bookLoop mg options bookFolders r w = (r', stopped, w') \<Longrightarrow> stopped \<Longrightarrow> limitReached options r'"
proof (induction bookFolders arbitrary: r w)
  case Nil
  then show ?case by simp
next
  case (Cons f rest)
  then show ?case
    by (auto split: if_splits prod.splits)
qed



section \<open>Migration: listing failures of the walk\<close>

lemma migrate_root_fails:
  "findFilesByParent (migratorDrive mg) sourceFolderId (drive w) = (Inl e, d') \<Longrightarrow>
   migrate mg sourceFolderId options w = (Inl e, afterCall (FindFilesByParent sourceFolderId) w d')"
  by (simp add: migrate_def invoke_def afterCall_def)

lemma authorLoop_listing_fails:
  "isFolder authorFolder \<Longrightarrow>
   findFilesByParent (migratorDrive mg) (file_id authorFolder) (drive w) = (Inl e, d') \<Longrightarrow>
   authorLoop mg options (authorFolder # rest) result w =
     (Inl e, afterCall (FindFilesByParent (file_id authorFolder)) w d')"
  by (simp add: isFolder_def invoke_def afterCall_def)

lemma authorLoop_append:
  "authorLoop mg options before result w = (Inr result1, w1) \<Longrightarrow>
   \<not> limitReached options result1 \<Longrightarrow>
   authorLoop mg options (before @ rest) result w = authorLoop mg options rest result1 w1"
proof (induction before arbitrary: result w)
  case Nil
  then show ?case by simp
next
  case (Cons f before)
  show ?case
  proof (cases "isFolder f")
    case False
    with Cons.prems have "authorLoop mg options before result w = (Inr result1, w1)"
      by (simp add: isFolder_def)
    from Cons.IH [OF this Cons.prems(2)] False show ?thesis
      by (simp add: isFolder_def)
  next
    case True
    let ?list = "invoke (FindFilesByParent (file_id f)) (findFilesByParent (migratorDrive mg) (file_id f))"
    obtain res w2 where l: "?list w = (res, w2)" by (cases "?list w")
    show ?thesis
    proof (cases res)
      case (Inl e)
      with True l Cons.prems(1) show ?thesis by (simp add: isFolder_def)
    next
      case (Inr bookFolders)
      obtain r3 stopped w3 where b: "bookLoop mg options bookFolders result w2 = (r3, stopped, w3)"
        by (cases "bookLoop mg options bookFolders result w2") auto
      show ?thesis
      proof (cases stopped)
        case stop: True
        with True l Inr b Cons.prems(1) have "r3 = result1" by (simp add: isFolder_def)
        moreover have "limitReached options r3"
          using bookLoop_stopped [OF b] stop by simp
        ultimately show ?thesis using Cons.prems(2) by simp
      next
        case False
        with True l Inr b Cons.prems(1)
        have "authorLoop mg options before r3 w3 = (Inr result1, w1)"
          by (simp add: isFolder_def)
        from Cons.IH [OF this Cons.prems(2)] True l Inr b False show ?thesis
          by (simp add: isFolder_def)
      qed
    qed
  qed
qed

text \<open>
  C10. A failing listing of the outer walk is not caught. If the listing of the source
  folder fails, \<open>migrate\<close> fails with the same error. At any point of the outer loop, if the
  next child is a folder and its listing fails, the loop fails with the same error and no
  result is returned. So \<open>migrate\<close> fails with that error whenever the walk over the children
  before that author folder has returned below the limit. A detail with the status error
  is recorded only for an error with which \<open>migrateBook\<close> failed.
\<close>

theorem C10_listing_failures_propagate:
  "(findFilesByParent (migratorDrive mg) sourceFolderId (drive w) = (Inl e, d') \<longrightarrow>
      migrate mg sourceFolderId options w =
        (Inl e, afterCall (FindFilesByParent sourceFolderId) w d')) \<and>
   (isFolder authorFolder \<and>
    findFilesByParent (migratorDrive mg) (file_id authorFolder) (drive w) = (Inl e, d') \<longrightarrow>
      authorLoop mg options (authorFolder # rest) result w =
        (Inl e, afterCall (FindFilesByParent (file_id authorFolder)) w d')) \<and>
   (findFilesByParent (migratorDrive mg) sourceFolderId (drive w) =
      (Inr (before @ authorFolder # rest), d0) \<and>
    authorLoop mg options before emptyResult (afterCall (FindFilesByParent sourceFolderId) w d0) =
      (Inr result1, w1) \<and>
    \<not> limitReached options result1 \<and> isFolder authorFolder \<and>
    findFilesByParent (migratorDrive mg) (file_id authorFolder) (drive w1) = (Inl e, d') \<longrightarrow>
      migrate mg sourceFolderId options w =
        (Inl e, afterCall (FindFilesByParent (file_id authorFolder)) w1 d')) \<and>
   (processUnit mg options bookFolder w = (detail, w2) \<and> status detail = Failed \<longrightarrow>
      (\<exists>thrown. migrateBook mg (file_id bookFolder) (name bookFolder) options w = (Inl thrown, w2) \<and>
         detail = failedDetail bookFolder thrown))"
proof (intro conjI impI)
  assume "findFilesByParent (migratorDrive mg) sourceFolderId (drive w) = (Inl e, d')"
  then show "migrate mg sourceFolderId options w =
      (Inl e, afterCall (FindFilesByParent sourceFolderId) w d')"
    by (rule migrate_root_fails)
next
  assume "isFolder authorFolder \<and>
    findFilesByParent (migratorDrive mg) (file_id authorFolder) (drive w) = (Inl e, d')"
  then have "isFolder authorFolder"
    "findFilesByParent (migratorDrive mg) (file_id authorFolder) (drive w) = (Inl e, d')"
    by simp_all
  then show "authorLoop mg options (authorFolder # rest) result w =
      (Inl e, afterCall (FindFilesByParent (file_id authorFolder)) w d')"
    by (rule authorLoop_listing_fails)
next
  assume a: "findFilesByParent (migratorDrive mg) sourceFolderId (drive w) =
      (Inr (before @ authorFolder # rest), d0) \<and>
    authorLoop mg options before emptyResult (afterCall (FindFilesByParent sourceFolderId) w d0) =
      (Inr result1, w1) \<and>
    \<not> limitReached options result1 \<and> isFolder authorFolder \<and>
    findFilesByParent (migratorDrive mg) (file_id authorFolder) (drive w1) = (Inl e, d')"
  let ?w0 = "afterCall (FindFilesByParent sourceFolderId) w d0"
  from a have "migrate mg sourceFolderId options w =
      authorLoop mg options (before @ authorFolder # rest) emptyResult ?w0"
    by (simp add: migrate_def invoke_def afterCall_def)
  also from a have "\<dots> = authorLoop mg options (authorFolder # rest) result1 w1"
    by (intro authorLoop_append) simp_all
  also from a have "\<dots> = (Inl e, afterCall (FindFilesByParent (file_id authorFolder)) w1 d')"
    by (intro authorLoop_listing_fails) simp_all
  finally show "migrate mg sourceFolderId options w =
      (Inl e, afterCall (FindFilesByParent (file_id authorFolder)) w1 d')" .
next
  assume "processUnit mg options bookFolder w = (detail, w2) \<and> status detail = Failed"
  then have p: "processUnit mg options bookFolder w = (detail, w2)" and f: "status detail = Failed"
    by simp_all
  from processUnit_cases [OF p] f
  show "\<exists>thrown. migrateBook mg (file_id bookFolder) (name bookFolder) options w = (Inl thrown, w2) \<and>
      detail = failedDetail bookFolder thrown"
    by (auto simp: failedDetail_def)
qed

section \<open>Migration: failures of one book\<close>

lemma processUnit_throws:
  "migrateBook mg (file_id bookFolder) (name bookFolder) options w = (Inl e, w') \<Longrightarrow>
   processUnit mg options bookFolder w = (failedDetail bookFolder e, w')"
  by (simp add: processUnit_def failedDetail_def)




lemma migrateBook_listing_fails:
  "findFilesByParent (migratorDrive mg) bookFolderId (drive w) = (Inl e, d') \<Longrightarrow>
   migrateBook mg bookFolderId bookFolderName options w =
     (Inl e, afterCall (FindFilesByParent bookFolderId) w d')"
  by (simp add: migrateBook_def andThen_def invoke_def afterCall_def)












section \<open>Migration: dry run\<close>











lemma mock_reads:
  "snd (mock_findFilesByParent folderId d) = d"
  "snd (mock_getFileContent fileId d) = d"
  "snd (mock_findBookByIsbn isbn0 d) = d"
  by (simp_all add: mock_findFilesByParent_def mock_getFileContent_def mock_findBookByIsbn_def
      split: option.splits prod.splits)










lemma mock_readsD:
  "mock_findFilesByParent folderId d = (r1, d') \<Longrightarrow> d' = d"
  "mock_getFileContent fileId d = (r2, d') \<Longrightarrow> d' = d"
  "mock_findBookByIsbn isbn0 d = (r3, d') \<Longrightarrow> d' = d"
  using mock_reads(1) [of folderId d] mock_reads(2) [of fileId d] mock_reads(3) [of isbn0 d]
  by simp_all




section \<open>Sample runs of the migration\<close>

lemma ascii_scalars: "\<forall>u\<in>set s. u < 0x80 \<Longrightarrow> toScalars s = map unat s"
proof (induction s rule: toScalars.induct)
  case 1
  then show ?case by simp
next
  case (2 u)
  then have "u < 0x80" by simp
  then have "\<not> isHighSurrogate u" "\<not> isLowSurrogate u"
    by (simp_all add: isHighSurrogate_def isLowSurrogate_def word_le_nat_alt word_less_nat_alt)
  then show ?case by simp
next
  case (3 u l rest)
  then have "u < 0x80" by simp
  then have "\<not> isHighSurrogate u" "\<not> isLowSurrogate u"
    by (simp_all add: isHighSurrogate_def isLowSurrogate_def word_le_nat_alt word_less_nat_alt)
  with 3 show ?case by simp
qed

lemma decode_encode_ascii:
  assumes "\<forall>u\<in>set s. u < (0x80 :: 16 word)"
  shows "decode (encode s) = s"
proof -
  have sc: "\<forall>c\<in>set (map unat s). isScalar c"
    using assms by (auto simp: isScalar_def word_less_nat_alt)
  have small: "\<forall>c\<in>set (map unat s). c < 0x80"
    using assms by (auto simp: word_less_nat_alt)
  have strip: "stripBOM cs = cs" if "\<forall>c\<in>set cs. c < 0x80" for cs :: "nat list"
    using that by (cases cs) (auto simp: stripBOM_def)
  have again: "fromScalars (map unat t) = t" for t :: jsstring
  proof (induction t)
    case Nil
    then show ?case by (simp add: fromScalars_def)
  next
    case (Cons u t)
    have "unat u < 2 ^ LENGTH(16)" by (rule unsigned_less)
    then have "unat u < 0x10000" by simp
    with Cons show ?case by (simp add: fromScalars_def codeUnits_def)
  qed
  have "decode (encode s) = fromScalars (stripBOM (map unat s))"
    by (simp only: decode_def encode_def ascii_scalars [OF assms] decode_encode [OF sc])
  then show ?thesis by (simp only: strip [OF small] again)
qed

lemma sampleOpf_ascii: "\<forall>u\<in>set sampleOpf. u < 0x80"
  by (simp add: sampleOpf_def js_def)

lemma sampleOpf_decoded: "decode (encode sampleOpf) = sampleOpf"
  by (rule decode_encode_ascii [OF sampleOpf_ascii])

lemma listings:
  "mock_findFilesByParent (js ''source'') calibre = (Inr [dbFile, authorFolder1, authorFolder2], calibre)"
  "mock_findFilesByParent (js ''af-1'') calibre = (Inr [bookFolder1, bookFolder2, bookFolder3], calibre)"
  "mock_findFilesByParent (js ''af-2'') calibre = (Inr [bookFolder4], calibre)"
  "mock_findFilesByParent (js ''bf-1'') calibre = (Inr [epub1, cover1], calibre)"
  "mock_findFilesByParent (js ''bf-2'') calibre = (Inr [epub2], calibre)"
  "mock_findFilesByParent (js ''bf-3'') calibre = (Inr [opf3, pdf3], calibre)"
  "mock_findFilesByParent (js ''bf-4'') calibre = (Inr [txt4], calibre)"
  by (simp_all add: mock_findFilesByParent_def calibre_def dbFile_def authorFolder1_def authorFolder2_def bookFolder1_def
      bookFolder2_def bookFolder3_def bookFolder4_def epub1_def cover1_def epub2_def opf3_def
      pdf3_def txt4_def document_def newFolder_def)

lemma file_facts:
  "name epub1 = js ''Kokoro.epub''" "file_id epub1 = js ''epub-1''"
  "name cover1 = js ''cover.jpg''" "file_id cover1 = js ''cover-1''"
  "name epub2 = js ''Botchan.epub''" "file_id epub2 = js ''epub-2''"
  "name opf3 = js ''metadata.opf''" "file_id opf3 = js ''opf-3''"
  "name pdf3 = js ''Sanshiro.PDF''" "file_id pdf3 = js ''pdf-3''"
  "name txt4 = js ''notes.txt''" "file_id txt4 = js ''txt-4''"
  by (simp_all add: epub1_def cover1_def epub2_def opf3_def pdf3_def txt4_def toDriveFile_def
      document_def)

lemma contents:
  "mock_getFileContent (js ''opf-3'') calibre = (Inr (encode sampleOpf), calibre)"
  "mock_getFileContent (js ''epub-1'') calibre = (Inr [1], calibre)"
  "mock_getFileContent (js ''cover-1'') calibre = (Inr [9], calibre)"
  by (simp_all add: mock_getFileContent_def calibre_def propGet_Cons document_def)

lemma probe: "mock_findBookByIsbn i calibre = (Inr None, calibre)"
  by (simp add: mock_findBookByIsbn_def calibre_def document_def newFolder_def propGet_def)

lemma endsWith_js:
  "endsWith (js a) (js b) \<longleftrightarrow> length b \<le> length a \<and> drop (length a - length b) a = b"
proof -
  have "drop (length a - length b) (js a) = js (drop (length a - length b) a)"
    by (simp add: js_def drop_map)
  then show ?thesis by (simp add: endsWith_def length_js)
qed

lemma lowered:
  "toLowerCase (js ''Kokoro.epub'') = js ''kokoro.epub''"
  "toLowerCase (js ''cover.jpg'') = js ''cover.jpg''"
  "toLowerCase (js ''Botchan.epub'') = js ''botchan.epub''"
  "toLowerCase (js ''metadata.opf'') = js ''metadata.opf''"
  "toLowerCase (js ''Sanshiro.PDF'') = js ''sanshiro.pdf''"
  "toLowerCase (js ''notes.txt'') = js ''notes.txt''"
  by (simp_all add: toLowerCase_def js_def)

lemma selected:
  "selectBookFile [epub1, cover1] = Some epub1"
  "selectBookFile [epub2] = Some epub2"
  "selectBookFile [opf3, pdf3] = Some pdf3"
  "selectBookFile [txt4] = None"
  by (simp_all add: selectBookFile_def EXTENSION_PRIORITY_def file_facts lowered endsWith_js)

lemma found:
  "find (\<lambda>f. name f = js ''metadata.opf'') [epub1, cover1] = None"
  "find (\<lambda>f. name f = js ''metadata.opf'') [epub2] = None"
  "find (\<lambda>f. name f = js ''metadata.opf'') [opf3, pdf3] = Some opf3"
  "find (\<lambda>f. name f = js ''metadata.opf'') [txt4] = None"
  "find (\<lambda>f. name f = js ''cover.jpg'') [epub1, cover1] = Some cover1"
  by (simp_all add: file_facts)

lemma invoke_calibre:
  "operation calibre = (r, calibre) \<Longrightarrow>
   invoke c operation (calibreWorld cs) = (r, calibreWorld (cs @ [c]))"
  by (simp add: invoke_def calibreWorld_def)

lemma invoke_calibre_fails:
  "operation calibre = (r, calibre) \<Longrightarrow>
   afterCall c (calibreWorld cs) calibre = calibreWorld (cs @ [c])"
  by (simp add: afterCall_def calibreWorld_def)

lemma migratorWith_simps:
  "migratorDrive (migratorWith service) = service"
  "driveService (bookService (migratorWith service)) = service"
  "parseMetadataOpf (migratorWith service) = sampleParser"
  by (simp_all add: migratorWith_def)

lemma folder_facts:
  "file_id bookFolder1 = js ''bf-1''" "name bookFolder1 = js ''Kokoro (1)''"
  "file_id bookFolder2 = js ''bf-2''" "name bookFolder2 = js ''Botchan (2)''"
  "file_id bookFolder3 = js ''bf-3''" "name bookFolder3 = js ''Sanshiro (3)''"
  "file_id bookFolder4 = js ''bf-4''" "name bookFolder4 = js ''Gan (4)''"
  "isFolder bookFolder1" "isFolder bookFolder2" "isFolder bookFolder3" "isFolder bookFolder4"
  by (simp_all add: bookFolder1_def bookFolder2_def bookFolder3_def bookFolder4_def
      toDriveFile_def newFolder_def isFolder_def)

lemma sampleParser_opf:
  "p_isbn (sampleParser sampleOpf) = Some (js ''9780000000010'')"
  "p_title (sampleParser sampleOpf) = Some []"
  by (simp_all add: sampleParser_def parsedNothing_def)

lemma unit1_dry:
  assumes "findFilesByParent service (js ''bf-1'') = mock_findFilesByParent (js ''bf-1'')"
  shows "migrateBook (migratorWith service) (js ''bf-1'') (js ''Kokoro (1)'') dryOptions
           (calibreWorld cs) =
         (Inr detail1, calibreWorld (cs @ calls1))"
  by (simp add: migrateBook_def andThen_def succeed_def migratorWith_simps assms
      invoke_calibre listings found selected file_facts Let_def
      noMetadata_def truthy_def optOrElse_def dryOptions_def detail1_def calls1_def)

lemma unit2_dry:
  assumes "findFilesByParent service (js ''bf-2'') = mock_findFilesByParent (js ''bf-2'')"
  shows "migrateBook (migratorWith service) (js ''bf-2'') (js ''Botchan (2)'') dryOptions
           (calibreWorld cs) =
         (Inr detail2, calibreWorld (cs @ [FindFilesByParent (js ''bf-2'')]))"
  by (simp add: migrateBook_def andThen_def succeed_def migratorWith_simps assms
      invoke_calibre listings found selected file_facts Let_def
      noMetadata_def truthy_def optOrElse_def dryOptions_def detail2_def)

lemma unit3_dry:
  assumes "findFilesByParent service (js ''bf-3'') = mock_findFilesByParent (js ''bf-3'')"
    and "getFileContent service = mock_getFileContent"
    and "findBookByIsbn service = mock_findBookByIsbn"
  shows "migrateBook (migratorWith service) (js ''bf-3'') (js ''Sanshiro (3)'') dryOptions
           (calibreWorld cs) =
         (Inr detail3, calibreWorld (cs @ calls3))"
  by (simp add: migrateBook_def andThen_def succeed_def migratorWith_simps assms
      bookFindBookByIsbn_def invoke_calibre listings found selected file_facts contents probe Let_def
      sampleOpf_decoded sampleParser_opf orElse_def
      truthy_def optOrElse_def dryOptions_def detail3_def calls3_def)

lemma unit4_dry:
  assumes "findFilesByParent service (js ''bf-4'') = mock_findFilesByParent (js ''bf-4'')"
  shows "migrateBook (migratorWith service) (js ''bf-4'') (js ''Gan (4)'') dryOptions
           (calibreWorld cs) =
         (Inr detail4, calibreWorld (cs @ [FindFilesByParent (js ''bf-4'')]))"
  by (simp add: migrateBook_def andThen_def succeed_def migratorWith_simps assms
      invoke_calibre listings found selected file_facts Let_def
      noMetadata_def truthy_def optOrElse_def dryOptions_def detail4_def)

lemma author_facts:
  "mimeType dbFile \<noteq> FOLDER_MIME"
  "mimeType authorFolder1 = FOLDER_MIME" "file_id authorFolder1 = js ''af-1''"
  "mimeType authorFolder2 = FOLDER_MIME" "file_id authorFolder2 = js ''af-2''"
  "mimeType bookFolder1 = FOLDER_MIME" "mimeType bookFolder2 = FOLDER_MIME"
  "mimeType bookFolder3 = FOLDER_MIME" "mimeType bookFolder4 = FOLDER_MIME"
  by (simp_all add: dbFile_def authorFolder1_def authorFolder2_def bookFolder1_def
      bookFolder2_def bookFolder3_def bookFolder4_def toDriveFile_def newFolder_def document_def
      FOLDER_MIME_def)

lemma failingListing_simps:
  "getFileContent (failingListing x service) = getFileContent service"
  "findBookByIsbn (failingListing x service) = findBookByIsbn service"
  "findFilesByParent (failingListing x service) x d = (Inl listingError, d)"
  "i \<noteq> x \<Longrightarrow> findFilesByParent (failingListing x service) i = findFilesByParent service i"
  by (auto simp: failingListing_def listingError_def)

lemma detail_facts:
  "status detail1 = Succeeded" "status detail2 = Succeeded" "status detail3 = Succeeded"
  "status detail4 = Skipped"
  by (simp_all add: detail1_def detail2_def detail3_def detail4_def)



lemma part_run:
  "authorLoop (migratorWith (failingListing (js ''af-2'') mockService)) dryOptions
     [dbFile, authorFolder1] emptyResult (calibreWorld [FindFilesByParent (js ''source'')]) =
     (Inr partResult, calibreWorld partCalls)"
  by (simp add: migratorWith_simps failingListing_simps mock_simps invoke_calibre listings
      author_facts folder_facts processUnit_def unit1_dry unit2_dry unit3_dry
      limitReached_def dryOptions_def [THEN arg_cong, of limit] emptyResult_def record_detail_def
      detail_facts Let_def partResult_def partCalls_def calls1_def calls3_def)

lemma drive_calibre: "drive (calibreWorld cs) = calibre"
  by (simp add: calibreWorld_def)

lemma afterCall_calibre: "afterCall c (calibreWorld cs) calibre = calibreWorld (cs @ [c])"
  by (simp add: afterCall_def calibreWorld_def)










lemma listingFails_units:
  "processUnit listingFails dryOptions bookFolder1 (calibreWorld cs) =
     (detail1, calibreWorld (cs @ calls1))"
  "migrateBook listingFails (js ''bf-2'') (js ''Botchan (2)'') dryOptions (calibreWorld cs) =
     (Inl listingError, calibreWorld (cs @ [FindFilesByParent (js ''bf-2'')]))"
  "processUnit listingFails dryOptions bookFolder3 (calibreWorld cs) =
     (detail3, calibreWorld (cs @ calls3))"
  "processUnit listingFails dryOptions bookFolder4 (calibreWorld cs) =
     (detail4, calibreWorld (cs @ [FindFilesByParent (js ''bf-4'')]))"
  by (simp_all add: processUnit_def folder_facts listingFails_def unit1_dry unit3_dry unit4_dry
      failingListing_simps mock_simps migrateBook_listing_fails migratorWith_simps
      afterCall_calibre drive_calibre)





text \<open>
  The listing of the source folder fails; and the listing of the second author folder fails
  after the three books of the first were processed.
\<close>

theorem C10_listing_failures_propagate_witness:
  "migrate (migratorWith (failingListing (js ''source'') mockService)) (js ''source'') dryOptions
     (calibreWorld []) =
     (Inl listingError, calibreWorld [FindFilesByParent (js ''source'')]) \<and>
   authorLoop (migratorWith (failingListing (js ''af-2'') mockService)) dryOptions
     [authorFolder2] partResult (calibreWorld partCalls) =
     (Inl listingError, calibreWorld (partCalls @ [FindFilesByParent (js ''af-2'')])) \<and>
   migrate (migratorWith (failingListing (js ''af-2'') mockService)) (js ''source'') dryOptions
     (calibreWorld []) =
     (Inl listingError, calibreWorld (partCalls @ [FindFilesByParent (js ''af-2'')])) \<and>
   processUnit listingFails dryOptions bookFolder2 (calibreWorld []) =
     (failedDetail bookFolder2 listingError, calibreWorld [FindFilesByParent (js ''bf-2'')]) \<and>
   (\<exists>thrown. migrateBook listingFails (file_id bookFolder2) (name bookFolder2) dryOptions
        (calibreWorld []) = (Inl thrown, calibreWorld [FindFilesByParent (js ''bf-2'')]) \<and>
      failedDetail bookFolder2 listingError = failedDetail bookFolder2 thrown)"
proof -
  let ?root = "migratorWith (failingListing (js ''source'') mockService)"
  let ?mg = "migratorWith (failingListing (js ''af-2'') mockService)"
  have 1: "findFilesByParent (migratorDrive ?root) (js ''source'') (drive (calibreWorld [])) =
      (Inl listingError, calibre)"
    by (simp add: migratorWith_simps failingListing_simps drive_calibre)
  have 2: "isFolder authorFolder2 \<and>
      findFilesByParent (migratorDrive ?mg) (file_id authorFolder2) (drive (calibreWorld partCalls)) =
        (Inl listingError, calibre)"
    by (simp add: migratorWith_simps failingListing_simps author_facts isFolder_def drive_calibre)
  have 3: "findFilesByParent (migratorDrive ?mg) (js ''source'') (drive (calibreWorld [])) =
        (Inr ([dbFile, authorFolder1] @ authorFolder2 # []), calibre) \<and>
      authorLoop ?mg dryOptions [dbFile, authorFolder1] emptyResult
        (afterCall (FindFilesByParent (js ''source'')) (calibreWorld []) calibre) =
        (Inr partResult, calibreWorld partCalls) \<and>
      \<not> limitReached dryOptions partResult \<and> isFolder authorFolder2 \<and>
      findFilesByParent (migratorDrive ?mg) (file_id authorFolder2) (drive (calibreWorld partCalls)) =
        (Inl listingError, calibre)"
  proof (intro conjI)
    show "authorLoop ?mg dryOptions [dbFile, authorFolder1] emptyResult
        (afterCall (FindFilesByParent (js ''source'')) (calibreWorld []) calibre) =
        (Inr partResult, calibreWorld partCalls)"
      by (simp only: afterCall_calibre append_Nil part_run)
  qed (simp_all add: migratorWith_simps failingListing_simps mock_simps listings drive_calibre
        limitReached_def dryOptions_def author_facts isFolder_def)
  from C10_listing_failures_propagate
    [of ?root "js ''source''" "calibreWorld []" listingError calibre dryOptions]
    1
  have a: "migrate ?root (js ''source'') dryOptions (calibreWorld []) =
      (Inl listingError, afterCall (FindFilesByParent (js ''source'')) (calibreWorld []) calibre)"
    by blast
  from C10_listing_failures_propagate
    [of ?mg _ "calibreWorld partCalls" listingError calibre dryOptions authorFolder2 "[]" partResult]
    2
  have b: "authorLoop ?mg dryOptions [authorFolder2] partResult (calibreWorld partCalls) =
      (Inl listingError,
       afterCall (FindFilesByParent (file_id authorFolder2)) (calibreWorld partCalls) calibre)"
    by blast
  from C10_listing_failures_propagate
    [of ?mg "js ''source''" "calibreWorld []" listingError calibre dryOptions authorFolder2 "[]"
      emptyResult "[dbFile, authorFolder1]" calibre partResult "calibreWorld partCalls"]
    3
  have c: "migrate ?mg (js ''source'') dryOptions (calibreWorld []) =
      (Inl listingError,
       afterCall (FindFilesByParent (file_id authorFolder2)) (calibreWorld partCalls) calibre)"
    by blast
  have 4: "processUnit listingFails dryOptions bookFolder2 (calibreWorld []) =
      (failedDetail bookFolder2 listingError, calibreWorld [FindFilesByParent (js ''bf-2'')]) \<and>
      status (failedDetail bookFolder2 listingError) = Failed"
    using processUnit_throws [of listingFails bookFolder2 dryOptions "calibreWorld []" listingError
        "calibreWorld [FindFilesByParent (js ''bf-2'')]"] listingFails_units(2) [of "[]"]
    by (simp add: folder_facts failedDetail_def)
  from C10_listing_failures_propagate
    [where mg = listingFails and options = dryOptions and bookFolder = bookFolder2
       and w = "calibreWorld []" and detail = "failedDetail bookFolder2 listingError"
       and ?w2.0 = "calibreWorld [FindFilesByParent (js ''bf-2'')]"]
    4
  have d: "\<exists>thrown. migrateBook listingFails (file_id bookFolder2) (name bookFolder2) dryOptions
        (calibreWorld []) = (Inl thrown, calibreWorld [FindFilesByParent (js ''bf-2'')]) \<and>
      failedDetail bookFolder2 listingError = failedDetail bookFolder2 thrown"
    by blast
  from a b c 4 d show ?thesis
    by (simp add: afterCall_calibre author_facts)
qed

end
